(* ===== verification/Go_Strings.thy ===== *)
theory Go_Strings
  imports Main "HOL-Library.Char_ord" "HOL-Library.List_Lexorder"
begin

text \<open>
  The part of Go's standard library that nass uses on strings: the functions of the packages
  \<^verbatim>\<open>strings\<close> and \<^verbatim>\<open>strconv\<close>, over byte strings (\<^typ>\<open>string\<close> is a list of bytes).
  Case mapping and white space are those of ASCII; Go's functions also know the non-ASCII letters
  and spaces of Unicode, which host names, cookies and configuration keys do not use.
  The lemmas are the laws the components need: splitting and joining are inverse to each other,
  lower-casing and trimming are idempotent, and printing then parsing an integer is the identity.
\<close>

named_theorems go_str "defining equations of the string functions"

subsection \<open>Prefixes, suffixes and substrings\<close>

definition has_prefix :: "string \<Rightarrow> string \<Rightarrow> bool" where
  [go_str]: "has_prefix s p \<longleftrightarrow> take (length p) s = p"

definition has_suffix :: "string \<Rightarrow> string \<Rightarrow> bool" where
  [go_str]: "has_suffix s p \<longleftrightarrow> length p \<le> length s \<and> drop (length s - length p) s = p"

definition trim_prefix :: "string \<Rightarrow> string \<Rightarrow> string" where
  [go_str]: "trim_prefix s p = (if has_prefix s p then drop (length p) s else s)"

definition trim_suffix :: "string \<Rightarrow> string \<Rightarrow> string" where
  [go_str]: "trim_suffix s p = (if has_suffix s p then take (length s - length p) s else s)"

fun contains_str :: "string \<Rightarrow> string \<Rightarrow> bool" where
  "contains_str [] p = (p = [])"
| "contains_str (c # cs) p = (has_prefix (c # cs) p \<or> contains_str cs p)"

lemma has_prefix_iff: "has_prefix s p \<longleftrightarrow> (\<exists>t. s = p @ t)"
  unfolding has_prefix_def by (metis append_eq_conv_conj)

lemma has_suffix_iff: "has_suffix s p \<longleftrightarrow> (\<exists>t. s = t @ p)"
proof
  assume "has_suffix s p"
  then have "s = take (length s - length p) s @ p"
    unfolding has_suffix_def by (metis append_take_drop_id)
  then show "\<exists>t. s = t @ p" by blast
qed (auto simp: has_suffix_def)

lemma has_prefix_append [simp]: "has_prefix (p @ t) p"
  by (auto simp: has_prefix_iff)

lemma has_suffix_append [simp]: "has_suffix (t @ p) p"
  by (auto simp: has_suffix_iff)

lemma has_prefix_Nil [simp]: "has_prefix s []"
  by (simp add: has_prefix_def)

lemma contains_str_iff: "contains_str s p \<longleftrightarrow> (\<exists>a b. s = a @ p @ b)"
proof (induction s)
  case Nil
  then show ?case by auto
next
  case (Cons c cs)
  show ?case
  proof
    assume "contains_str (c # cs) p"
    then consider "has_prefix (c # cs) p" | "contains_str cs p" by auto
    then show "\<exists>a b. c # cs = a @ p @ b"
    proof cases
      case 1
      then obtain t where "c # cs = [] @ p @ t" by (auto simp: has_prefix_iff)
      then show ?thesis by blast
    next
      case 2
      with Cons.IH obtain a b where "c # cs = (c # a) @ p @ b" by auto
      then show ?thesis by blast
    qed
  next
    assume "\<exists>a b. c # cs = a @ p @ b"
    then obtain a b where ab: "c # cs = a @ p @ b" by blast
    then show "contains_str (c # cs) p"
    proof (cases a)
      case Nil
      with ab have "has_prefix (c # cs) p" by (auto simp: has_prefix_iff)
      then show ?thesis by simp
    next
      case (Cons x xs)
      with ab have "cs = xs @ p @ b" by simp
      with Cons.IH show ?thesis by auto
    qed
  qed
qed

lemma contains_single: "contains_str s [c] \<longleftrightarrow> c \<in> set s"
  by (induction s) (auto simp: has_prefix_def)

subsection \<open>Cutting, splitting and joining at a byte\<close>

text \<open>\<open>strings.Cut(s, sep)\<close> for a one-byte separator: the part before, the part after, and
  whether the separator was found.\<close>

fun cut_at :: "char \<Rightarrow> string \<Rightarrow> string \<times> string \<times> bool" where
  "cut_at c [] = ([], [], False)"
| "cut_at c (x # xs) =
     (if x = c then ([], xs, True)
      else (case cut_at c xs of (a, b, f) \<Rightarrow> (x # a, b, f)))"

fun split_at :: "char \<Rightarrow> string \<Rightarrow> string list" where
  "split_at c [] = [[]]"
| "split_at c (x # xs) =
     (if x = c then [] # split_at c xs
      else (case split_at c xs of [] \<Rightarrow> [[x]] | p # ps \<Rightarrow> (x # p) # ps))"

fun join_with :: "string \<Rightarrow> string list \<Rightarrow> string" where
  "join_with sep [] = []"
| "join_with sep [p] = p"
| "join_with sep (p # q # ps) = p @ sep @ join_with sep (q # ps)"

lemma split_at_not_Nil [simp]: "split_at c s \<noteq> []"
  by (induction s) (auto split: list.splits)

lemma join_with_Cons: "ps \<noteq> [] \<Longrightarrow> join_with sep (p # ps) = p @ sep @ join_with sep ps"
  by (cases ps) auto

lemma join_split [simp]: "join_with [c] (split_at c s) = s"
proof (induction s)
  case Nil
  then show ?case by simp
next
  case (Cons x xs)
  obtain p ps where p: "split_at c xs = p # ps"
    by (meson split_at_not_Nil neq_Nil_conv)
  show ?case
    using Cons.IH p by (cases ps) (auto simp: join_with_Cons)
qed

lemma split_at_no_sep: "p \<in> set (split_at c s) \<Longrightarrow> c \<notin> set p"
proof (induction s arbitrary: p)
  case (Cons x xs)
  obtain q qs where q: "split_at c xs = q # qs"
    by (meson split_at_not_Nil neq_Nil_conv)
  then show ?case using Cons by (auto split: if_splits)
qed simp

lemma split_at_single: "c \<notin> set s \<Longrightarrow> split_at c s = [s]"
  by (induction s) auto

lemma split_at_append: "c \<notin> set a \<Longrightarrow> split_at c (a @ c # b) = a # split_at c b"
  by (induction a) auto

lemma split_join: "ps \<noteq> [] \<Longrightarrow> (\<And>p. p \<in> set ps \<Longrightarrow> c \<notin> set p) \<Longrightarrow> split_at c (join_with [c] ps) = ps"
  by (induction "[c]" ps rule: join_with.induct) (auto simp: split_at_single split_at_append)

lemma cut_at_found: "c \<notin> set a \<Longrightarrow> cut_at c (a @ c # b) = (a, b, True)"
  by (induction a) auto

lemma cut_at_missing: "c \<notin> set a \<Longrightarrow> cut_at c a = (a, [], False)"
  by (induction a) auto

lemma cut_at_before: "c \<notin> set (fst (cut_at c s))"
  by (induction s) (auto split: prod.splits)

lemma cut_at_spec:
  "cut_at c s = (a, b, f) \<Longrightarrow> (f \<longrightarrow> s = a @ c # b) \<and> (\<not> f \<longrightarrow> s = a \<and> b = []) \<and> c \<notin> set a"
  by (induction s arbitrary: a b f) (auto split: prod.splits if_splits)

text \<open>\<open>strings.LastIndexByte\<close>, as an option instead of \<open>-1\<close>.\<close>

fun last_index :: "char \<Rightarrow> string \<Rightarrow> nat option" where
  "last_index c [] = None"
| "last_index c (x # xs) =
     (case last_index c xs of Some i \<Rightarrow> Some (Suc i) | None \<Rightarrow> if x = c then Some 0 else None)"

lemma last_index_None [simp]: "last_index c s = None \<longleftrightarrow> c \<notin> set s"
  by (induction s) (auto split: option.splits)

lemma last_index_Some:
  "last_index c s = Some i \<Longrightarrow> i < length s \<and> s ! i = c \<and> c \<notin> set (drop (Suc i) s)"
proof (induction s arbitrary: i)
  case (Cons x xs)
  then show ?case
    by (auto split: option.splits if_splits)
qed simp

lemma last_index_append: "c \<notin> set b \<Longrightarrow> last_index c (a @ c # b) = Some (length a)"
proof (induction a)
  case Nil
  then have n: "last_index c b = None" by simp
  show ?case by (simp add: n del: last_index_None)
qed simp

subsection \<open>Lower case, white space\<close>

abbreviation byte_of :: "char \<Rightarrow> nat" where
  "byte_of c \<equiv> of_char c"

definition lower_char :: "char \<Rightarrow> char" where
  [go_str]: "lower_char c = (if 65 \<le> byte_of c \<and> byte_of c \<le> 90 then char_of (byte_of c + 32) else c)"

definition to_lower :: "string \<Rightarrow> string" where
  [go_str]: "to_lower s = map lower_char s"

definition equal_fold :: "string \<Rightarrow> string \<Rightarrow> bool" where
  [go_str]: "equal_fold s t \<longleftrightarrow> to_lower s = to_lower t"

lemma lower_char_idem [simp]: "lower_char (lower_char c) = lower_char c"
  by (auto simp: lower_char_def)

lemma to_lower_idem [simp]: "to_lower (to_lower s) = to_lower s"
  by (simp add: to_lower_def comp_def)

lemma to_lower_append: "to_lower (s @ t) = to_lower s @ to_lower t"
  by (simp add: to_lower_def)

lemma to_lower_Nil [simp]: "to_lower [] = []"
  by (simp add: to_lower_def)

lemma to_lower_Nil_iff [simp]: "to_lower s = [] \<longleftrightarrow> s = []"
  by (simp add: to_lower_def)

definition is_space :: "char \<Rightarrow> bool" where
  [go_str]: "is_space c \<longleftrightarrow> c \<in> {CHR '' '', CHR 0x09, CHR 0x0A, CHR 0x0B, CHR 0x0C, CHR 0x0D}"

definition trim_left :: "string \<Rightarrow> string" where
  [go_str]: "trim_left s = dropWhile is_space s"

definition trim_space :: "string \<Rightarrow> string" where
  [go_str]: "trim_space s = rev (trim_left (rev (trim_left s)))"

lemma trim_left_idem [simp]: "trim_left (trim_left s) = trim_left s"
  by (induction s) (auto simp: trim_left_def)

lemma trim_left_hd: "trim_left s \<noteq> [] \<Longrightarrow> \<not> is_space (hd (trim_left s))"
  by (simp add: trim_left_def hd_dropWhile)

lemma trim_left_id: "s = [] \<or> \<not> is_space (hd s) \<Longrightarrow> trim_left s = s"
  by (cases s) (auto simp: trim_left_def)

lemma trim_left_rev_suffix: "\<exists>t. s = rev (trim_left (rev s)) @ t"
proof -
  have "rev s = takeWhile is_space (rev s) @ dropWhile is_space (rev s)" by simp
  then have "s = rev (dropWhile is_space (rev s)) @ rev (takeWhile is_space (rev s))"
    by (metis rev_append rev_rev_ident)
  then show ?thesis by (auto simp: trim_left_def)
qed

lemma trim_space_idem [simp]: "trim_space (trim_space s) = trim_space s"
proof -
  let ?a = "trim_left s" and ?r = "rev (trim_left (rev (trim_left s)))"
  obtain t where t: "?a = ?r @ t" using trim_left_rev_suffix by blast
  have "?r \<noteq> [] \<Longrightarrow> hd ?r = hd ?a"
    by (subst (2) t) simp
  moreover have "?r \<noteq> [] \<Longrightarrow> ?a \<noteq> []"
    by (cases "?a = []") (auto simp: trim_left_def [of "[]"])
  ultimately have "?r = [] \<or> \<not> is_space (hd ?r)"
    using trim_left_hd [of s] by auto
  then have "trim_left ?r = ?r" by (rule trim_left_id)
  then show ?thesis by (simp add: trim_space_def)
qed

lemma trim_space_clean: "s = [] \<or> (\<not> is_space (hd s) \<and> \<not> is_space (last s)) \<Longrightarrow> trim_space s = s"
  by (auto simp: trim_space_def trim_left_id hd_rev)

lemma trim_space_set: "set (trim_space s) \<subseteq> set s"
proof -
  have "set (trim_left x) \<subseteq> set x" for x
    by (auto simp: trim_left_def dest: set_dropWhileD)
  from this [of s] this [of "rev (trim_left s)"] show ?thesis
    by (auto simp: trim_space_def)
qed

text \<open>\<open>strings.Fields\<close>: the maximal runs of bytes that are no white space.\<close>

function fields_of :: "string \<Rightarrow> string list" where
  "fields_of s =
     (let r = trim_left s
      in if r = [] then []
         else takeWhile (\<lambda>c. \<not> is_space c) r # fields_of (dropWhile (\<lambda>c. \<not> is_space c) r))"
  by pat_completeness auto
termination
proof (relation "measure length", simp)
  fix s :: string and r :: string
  assume r: "r = trim_left s" "r \<noteq> []"
  then have "\<not> is_space (hd r)" using trim_left_hd by simp
  with r(2) have "dropWhile (\<lambda>c. \<not> is_space c) r = dropWhile (\<lambda>c. \<not> is_space c) (tl r)"
    by (cases r) auto
  then have "length (dropWhile (\<lambda>c. \<not> is_space c) r) \<le> length (tl r)"
    by (simp only: length_dropWhile_le)
  also have "\<dots> < length r" using r(2) by simp
  also have "\<dots> \<le> length s" by (simp add: r(1) trim_left_def length_dropWhile_le)
  finally show "(dropWhile (\<lambda>c. \<not> is_space c) r, s) \<in> measure length" by simp
qed

declare fields_of.simps [simp del]

subsection \<open>Replacing a byte by a string\<close>

fun replace_char :: "char \<Rightarrow> string \<Rightarrow> string \<Rightarrow> string" where
  "replace_char c t [] = []"
| "replace_char c t (x # xs) = (if x = c then t else [x]) @ replace_char c t xs"

subsection \<open>Decimal integers: \<open>strconv\<close>\<close>

definition digit_char :: "nat \<Rightarrow> char" where
  [go_str]: "digit_char d = char_of (48 + d)"

definition digit_val :: "char \<Rightarrow> nat option" where
  [go_str]: "digit_val c = (if 48 \<le> byte_of c \<and> byte_of c \<le> 57 then Some (byte_of c - 48) else None)"

fun format_nat :: "nat \<Rightarrow> string" where
  "format_nat n = (if n < 10 then [digit_char n] else format_nat (n div 10) @ [digit_char (n mod 10)])"

declare format_nat.simps [simp del]

definition format_int :: "int \<Rightarrow> string" where
  [go_str]: "format_int i = (if i < 0 then CHR ''-'' # format_nat (nat (- i)) else format_nat (nat i))"

fun digits_acc :: "nat \<Rightarrow> string \<Rightarrow> nat option" where
  "digits_acc n [] = Some n"
| "digits_acc n (c # cs) = (case digit_val c of None \<Rightarrow> None | Some d \<Rightarrow> digits_acc (10 * n + d) cs)"

definition parse_nat :: "string \<Rightarrow> nat option" where
  [go_str]: "parse_nat s = (if s = [] then None else digits_acc 0 s)"

text \<open>\<open>strconv.ParseInt(s, 10, 64)\<close> (and \<open>strconv.Atoi\<close> on a 64-bit platform): an optional
  sign, decimal digits, and a value that fits 64 bits.\<close>

definition parse_int :: "string \<Rightarrow> int option" where
  [go_str]: "parse_int s =
     (let neg = (s \<noteq> [] \<and> hd s = CHR ''-'');
          body = (if s \<noteq> [] \<and> (hd s = CHR ''-'' \<or> hd s = CHR ''+'') then tl s else s)
      in case parse_nat body of
           None \<Rightarrow> None
         | Some n \<Rightarrow>
             if neg then (if int n \<le> 2 ^ 63 then Some (- int n) else None)
             else (if int n < 2 ^ 63 then Some (int n) else None))"

lemma digit_val_char [simp]: "d < 10 \<Longrightarrow> digit_val (digit_char d) = Some d"
  by (simp add: digit_val_def digit_char_def)

lemma digits_acc_append:
  "digits_acc n (a @ b) = (case digits_acc n a of None \<Rightarrow> None | Some m \<Rightarrow> digits_acc m b)"
  by (induction a arbitrary: n) (auto split: option.splits)

lemma format_nat_not_Nil [simp]: "format_nat n \<noteq> []"
  by (subst format_nat.simps) auto

lemma digits_format_nat: "digits_acc 0 (format_nat n) = Some n"
proof (induction n rule: format_nat.induct)
  case (1 n)
  show ?case
  proof (cases "n < 10")
    case True
    then show ?thesis by (subst format_nat.simps) simp
  next
    case False
    with 1 have "digits_acc 0 (format_nat (n div 10)) = Some (n div 10)" by blast
    with False show ?thesis
      by (subst format_nat.simps) (simp add: digits_acc_append)
  qed
qed

lemma format_nat_digits: "c \<in> set (format_nat n) \<Longrightarrow> \<exists>d < 10. c = digit_char d"
proof (induction n rule: format_nat.induct)
  case (1 n)
  then show ?case
    by (subst (asm) (2) format_nat.simps) (auto split: if_splits intro: exI [of _ n] exI [of _ "n mod 10"])
qed

lemma digit_char_not_sign [simp]: "d < 10 \<Longrightarrow> digit_char d \<noteq> CHR ''-''" "d < 10 \<Longrightarrow> digit_char d \<noteq> CHR ''+''"
  by (auto simp: digit_char_def dest!: arg_cong [where f = "of_char :: char \<Rightarrow> nat"])

lemma format_nat_hd: "hd (format_nat n) \<noteq> CHR ''-''" "hd (format_nat n) \<noteq> CHR ''+''"
  using format_nat_digits [of "hd (format_nat n)" n]
  by (metis digit_char_not_sign format_nat_not_Nil hd_in_set)+

lemma parse_format_nat [simp]: "parse_nat (format_nat n) = Some n"
  by (simp add: parse_nat_def digits_format_nat)

lemma parse_format_int: "- (2 ^ 63) \<le> i \<Longrightarrow> i < 2 ^ 63 \<Longrightarrow> parse_int (format_int i) = Some i"
  by (auto simp: parse_int_def format_int_def Let_def format_nat_hd)

lemma parse_int_range: "parse_int s = Some i \<Longrightarrow> - (2 ^ 63) \<le> i \<and> i < 2 ^ 63"
  by (auto simp: parse_int_def Let_def split: option.splits if_splits)

lemma parse_format_int_eq: "parse_int (format_int i) = Some j \<Longrightarrow> j = i"
  by (auto simp: parse_int_def format_int_def Let_def format_nat_hd split: if_splits)

lemma format_nat_inj: "format_nat m = format_nat n \<Longrightarrow> m = n"
  by (metis option.inject parse_format_nat)

subsection \<open>Quoting: \<open>%q\<close>\<close>

definition lower_hex :: "nat \<Rightarrow> char" where
  "lower_hex n = (if n < 10 then char_of (48 + n) else char_of (87 + n))"

text \<open>\<open>strconv.Quote\<close> of one byte; bytes from 128 on belong to printable UTF-8 characters and stay.\<close>

definition quote_byte :: "char \<Rightarrow> string" where
  "quote_byte c =
     (if c = CHR 0x22 \<or> c = CHR 0x5C then [CHR 0x5C, c]
      else if c = CHR 0x07 then [CHR 0x5C, CHR ''a'']
      else if c = CHR 0x08 then [CHR 0x5C, CHR ''b'']
      else if c = CHR 0x0C then [CHR 0x5C, CHR ''f'']
      else if c = CHR 0x0A then [CHR 0x5C, CHR ''n'']
      else if c = CHR 0x0D then [CHR 0x5C, CHR ''r'']
      else if c = CHR 0x09 then [CHR 0x5C, CHR ''t'']
      else if c = CHR 0x0B then [CHR 0x5C, CHR ''v'']
      else if byte_of c < 32 \<or> byte_of c = 127
      then [CHR 0x5C, CHR ''x'', lower_hex (byte_of c div 16), lower_hex (byte_of c mod 16)]
      else [c])"

definition go_quote :: "string \<Rightarrow> string" where
  "go_quote s = CHR 0x22 # concat (map quote_byte s) @ [CHR 0x22]"

end
