(* ===== verification/Go_Http.thy ===== *)
theory Go_Http
  imports Go_Strings
begin

text \<open>
  The part of Go's \<^verbatim>\<open>net/http\<close> and \<^verbatim>\<open>net/url\<close> that nass uses: header maps, the cookie reader,
  requests and responses, and query escaping. A request is the value the server hands to a handler; a
  handler's answer is a \<^verbatim>\<open>response\<close>. \<^verbatim>\<open>Go_Url\<close> has \<open>url.Parse\<close>.
\<close>

subsection \<open>Header maps\<close>

type_synonym headers = "string \<Rightarrow> string list"

definition hdr_get :: "headers \<Rightarrow> string \<Rightarrow> string" where
  "hdr_get h k = (case h k of [] \<Rightarrow> [] | v # _ \<Rightarrow> v)"

definition hdr_set :: "headers \<Rightarrow> string \<Rightarrow> string \<Rightarrow> headers" where
  "hdr_set h k v = h(k := [v])"

definition hdr_del :: "headers \<Rightarrow> string \<Rightarrow> headers" where
  "hdr_del h k = h(k := [])"

definition hdr_add :: "headers \<Rightarrow> string \<Rightarrow> string \<Rightarrow> headers" where
  "hdr_add h k v = h(k := h k @ [v])"

definition no_headers :: headers where
  "no_headers = (\<lambda>_. [])"

lemma hdr_get_set [simp]: "hdr_get (hdr_set h k v) k' = (if k' = k then v else hdr_get h k')"
  by (simp add: hdr_get_def hdr_set_def)

lemma hdr_get_del [simp]: "hdr_get (hdr_del h k) k' = (if k' = k then [] else hdr_get h k')"
  by (simp add: hdr_get_def hdr_del_def)

lemma hdr_set_apply [simp]: "hdr_set h k v k' = (if k' = k then [v] else h k')"
  by (simp add: hdr_set_def)

lemma hdr_del_apply [simp]: "hdr_del h k k' = (if k' = k then [] else h k')"
  by (simp add: hdr_del_def)

lemma hdr_add_apply [simp]: "hdr_add h k v k' = (if k' = k then h k' @ [v] else h k')"
  by (simp add: hdr_add_def)

lemma no_headers_apply [simp]: "no_headers k = []"
  by (simp add: no_headers_def)

subsection \<open>Requests and responses\<close>

text \<open>\<open>rq_form\<close> is \<open>None\<close> when \<open>ParseForm\<close> fails; otherwise it holds the parsed pairs, the
  body's before the query's, and \<open>FormValue\<close> returns the first one or the empty string. \<open>rq_dest\<close> is the
  scheme and host of the request's URL: both empty in a request that arrives, the backend's in one that
  the proxy sends.\<close>

record request =
  rq_host :: string
  rq_tls :: bool
  rq_path :: string
  rq_query :: string
  rq_uri :: string
  rq_headers :: headers
  rq_remote :: string
  rq_form :: "(string \<times> string) list option"
  rq_vars :: "string \<Rightarrow> string"
  rq_dest :: "string \<times> string"

datatype response =
    Redirect nat string
  | HttpError nat string
  | Page string "(string \<times> string) list"
  | Plain string
  | Proxied request

record cookie =
  ck_name :: string
  ck_value :: string
  ck_domain :: string
  ck_expires :: int
  ck_max_age :: int
  ck_http_only :: bool
  ck_secure :: bool
  ck_lax :: bool

definition form_value :: "request \<Rightarrow> string \<Rightarrow> string" where
  "form_value r k = (case rq_form r of None \<Rightarrow> []
     | Some kvs \<Rightarrow> (case map_of kvs k of None \<Rightarrow> [] | Some v \<Rightarrow> v))"

text \<open>A header that a handler sets before it renders a page is recorded with the page's values.\<close>

definition page_header :: "string \<Rightarrow> string \<Rightarrow> response \<Rightarrow> response" where
  "page_header k v rep = (case rep of Page n vs \<Rightarrow> Page n (vs @ [(k, v)]) | _ \<Rightarrow> rep)"

subsection \<open>Reading a cookie: \<open>Request.Cookie\<close>\<close>

definition ascii_space :: "char \<Rightarrow> bool" where
  "ascii_space c \<longleftrightarrow> c \<in> {CHR '' '', CHR 0x09, CHR 0x0A, CHR 0x0D}"

definition trim_ascii :: "string \<Rightarrow> string" where
  "trim_ascii s = rev (dropWhile ascii_space (rev (dropWhile ascii_space s)))"

definition is_alnum :: "char \<Rightarrow> bool" where
  "is_alnum c \<longleftrightarrow> (48 \<le> byte_of c \<and> byte_of c \<le> 57) \<or> (65 \<le> byte_of c \<and> byte_of c \<le> 90)
     \<or> (97 \<le> byte_of c \<and> byte_of c \<le> 122)"

definition is_token_char :: "char \<Rightarrow> bool" where
  "is_token_char c \<longleftrightarrow> is_alnum c \<or> c \<in> set ''!#$%&*+-.^_|~'' \<or> byte_of c = 39 \<or> byte_of c = 96"

definition is_token :: "string \<Rightarrow> bool" where
  "is_token s \<longleftrightarrow> s \<noteq> [] \<and> list_all is_token_char s"

definition cookie_byte :: "char \<Rightarrow> bool" where
  "cookie_byte c \<longleftrightarrow> 32 \<le> byte_of c \<and> byte_of c < 127 \<and> byte_of c \<noteq> 34 \<and> byte_of c \<noteq> 59 \<and> byte_of c \<noteq> 92"

definition cookie_value :: "string \<Rightarrow> string option" where
  "cookie_value v =
     (let q = CHR 34;
          b = (if 1 < length v \<and> hd v = q \<and> last v = q then butlast (tl v) else v)
      in if list_all cookie_byte b then Some b else None)"

definition cookie_part :: "string \<Rightarrow> string \<Rightarrow> string option" where
  "cookie_part name p =
     (case cut_at (CHR ''='') (trim_ascii p) of (n, v, _) \<Rightarrow>
        if trim_ascii n = name \<and> is_token (trim_ascii n) then cookie_value v else None)"

fun first_some :: "('a \<Rightarrow> 'b option) \<Rightarrow> 'a list \<Rightarrow> 'b option" where
  "first_some f [] = None"
| "first_some f (x # xs) = (case f x of None \<Rightarrow> first_some f xs | Some y \<Rightarrow> Some y)"

definition req_cookie :: "request \<Rightarrow> string \<Rightarrow> string option" where
  "req_cookie r name =
     first_some (cookie_part name) (concat (map (split_at (CHR '';'')) (rq_headers r ''Cookie'')))"

lemma first_some_None [simp]: "first_some f xs = None \<longleftrightarrow> (\<forall>x \<in> set xs. f x = None)"
  by (induction xs) (auto split: option.splits)

subsection \<open>Query escaping: \<open>url.QueryEscape\<close>, \<open>url.QueryUnescape\<close>, \<open>Values.Get\<close>\<close>

definition query_safe :: "char \<Rightarrow> bool" where
  "query_safe c \<longleftrightarrow> is_alnum c \<or> c \<in> set ''-_.~''"

definition hex_digit :: "nat \<Rightarrow> char" where
  "hex_digit d = (if d < 10 then char_of (48 + d) else char_of (55 + d))"

definition unhex :: "char \<Rightarrow> nat option" where
  "unhex c = (let b = byte_of c in
     if 48 \<le> b \<and> b \<le> 57 then Some (b - 48)
     else if 97 \<le> b \<and> b \<le> 102 then Some (b - 87)
     else if 65 \<le> b \<and> b \<le> 70 then Some (b - 55) else None)"

fun query_escape :: "string \<Rightarrow> string" where
  "query_escape [] = []"
| "query_escape (c # cs) =
     (if query_safe c then [c]
      else if c = CHR '' '' then ''+''
      else [CHR ''%'', hex_digit (byte_of c div 16), hex_digit (byte_of c mod 16)]) @ query_escape cs"

fun query_unescape :: "string \<Rightarrow> string option" where
  "query_unescape [] = Some []"
| "query_unescape (c # cs) =
     (if c = CHR ''%'' then
        (case cs of
           x # y # ds \<Rightarrow> (case (unhex x, unhex y) of
              (Some a, Some b) \<Rightarrow> map_option ((#) (char_of (16 * a + b))) (query_unescape ds)
            | _ \<Rightarrow> None)
         | _ \<Rightarrow> None)
      else map_option ((#) (if c = CHR ''+'' then CHR '' '' else c)) (query_unescape cs))"

text \<open>\<open>ParseQuery\<close> drops a pair it cannot decode or that holds a semicolon; \<open>Get\<close> returns the
  first value for the key, or the empty string.\<close>

definition query_pair :: "string \<Rightarrow> (string \<times> string) option" where
  "query_pair p =
     (if p = [] \<or> CHR '';'' \<in> set p then None
      else (case cut_at (CHR ''='') p of (k, v, _) \<Rightarrow>
        (case (query_unescape k, query_unescape v) of
           (Some k', Some v') \<Rightarrow> Some (k', v') | _ \<Rightarrow> None)))"

definition query_get :: "string \<Rightarrow> string \<Rightarrow> string" where
  "query_get q k =
     (case map_of (List.map_filter query_pair (split_at (CHR ''&'') q)) k of None \<Rightarrow> [] | Some v \<Rightarrow> v)"

lemma unhex_hex_digit [simp]: "d < 16 \<Longrightarrow> unhex (hex_digit d) = Some d"
  by (simp add: unhex_def hex_digit_def Let_def)

lemma byte_of_lt: "byte_of c < 256"
  by simp

lemma byte_of_div_lt [simp]: "byte_of c div 16 < 16"
  using byte_of_lt [of c] by (simp add: div_less_iff_less_mult)

lemma query_safe_neq [simp]: "query_safe c \<Longrightarrow> c \<noteq> CHR ''%''" "query_safe c \<Longrightarrow> c \<noteq> CHR ''+''"
  by (auto simp: query_safe_def is_alnum_def)

lemma query_unescape_escape [simp]: "query_unescape (query_escape s) = Some s"
proof (induction s)
  case (Cons c cs)
  have "char_of (16 * (byte_of c div 16) + byte_of c mod 16) = c"
    by simp
  then show ?case using Cons by auto
qed simp

lemma query_escape_safe: "c \<in> set (query_escape s) \<Longrightarrow> query_safe c \<or> c = CHR ''+'' \<or> c = CHR ''%''"
proof (induction s)
  case (Cons x xs)
  have "query_safe (hex_digit d)" if "d < 16" for d
    using that by (auto simp: query_safe_def hex_digit_def is_alnum_def)
  then show ?case using Cons by (auto split: if_splits)
qed simp

lemma query_escape_not_special:
  "CHR ''&'' \<notin> set (query_escape s)" "CHR '';'' \<notin> set (query_escape s)" "CHR ''='' \<notin> set (query_escape s)"
  using query_escape_safe [of "CHR ''&''" s] query_escape_safe [of "CHR '';''" s]
    query_escape_safe [of "CHR ''=''" s]
  by (auto simp: query_safe_def is_alnum_def)

text \<open>A value sent as the only query parameter arrives unchanged.\<close>

lemma query_get_only:
  assumes "CHR ''&'' \<notin> set k" "CHR '';'' \<notin> set k" "CHR ''='' \<notin> set k" "query_unescape k = Some k"
  shows "query_get (k @ CHR ''='' # query_escape s) k = s"
proof -
  have "split_at (CHR ''&'') (k @ CHR ''='' # query_escape s) = [k @ CHR ''='' # query_escape s]"
    using query_escape_not_special [of s] assms by (intro split_at_single) auto
  moreover have "cut_at (CHR ''='') (k @ CHR ''='' # query_escape s) = (k, query_escape s, True)"
    using cut_at_found [of "CHR ''=''" k "query_escape s"] assms by simp
  ultimately show ?thesis
    using query_escape_not_special [of s] assms
    by (auto simp: query_get_def query_pair_def List.map_filter_simps)
qed

lemma query_get_escaped: "query_get (''next='' @ query_escape s) ''next'' = s"
  using query_get_only [of "''next''" s] by simp

text \<open>\<open>net.SplitHostPort\<close>: the last colon separates the port; an IPv6 literal stands in brackets.\<close>

definition split_host_port :: "string \<Rightarrow> (string \<times> string) option" where
  "split_host_port hp = (case last_index (CHR '':'') hp of
       None \<Rightarrow> None
     | Some i \<Rightarrow>
         (let port = drop (Suc i) hp in
          if has_prefix hp [CHR 0x5B] then
            (case cut_at (CHR 0x5D) hp of (pre, _, found) \<Rightarrow>
               if \<not> found \<or> Suc (length pre) \<noteq> i then None
               else if CHR 0x5B \<in> set (drop 1 hp) \<or> CHR 0x5D \<in> set (drop (Suc (length pre)) hp) then None
               else Some (drop 1 pre, port))
          else if CHR '':'' \<in> set (take i hp) \<or> CHR 0x5B \<in> set hp \<or> CHR 0x5D \<in> set hp then None
          else Some (take i hp, port)))"

end
