(* ===== verification/Go_Url.thy ===== *)
theory Go_Url
  imports Go_Http
begin

text \<open>
  Go's \<open>url.Parse\<close> and \<open>URL.Hostname\<close> (package \<^verbatim>\<open>net/url\<close>), as far as nass uses them: the
  scheme, the host and the decoded path, with every check that makes the parse fail. A host in
  square brackets is an IP literal, which the library decodes with \<open>netip.ParseAddr\<close>; that
  function is the argument \<open>ip6\<close>. The lemmas say how the host of a parsed URL is written in the
  raw text, which is what makes a redirect check on the parsed host mean something.
\<close>

record url =
  u_scheme :: string
  u_host :: string
  u_path :: string

definition ctl_byte :: "char \<Rightarrow> bool" where
  "ctl_byte c \<longleftrightarrow> byte_of c < 32 \<or> byte_of c = 127"

definition is_alpha :: "char \<Rightarrow> bool" where
  "is_alpha c \<longleftrightarrow> (65 \<le> byte_of c \<and> byte_of c \<le> 90) \<or> (97 \<le> byte_of c \<and> byte_of c \<le> 122)"

text \<open>\<open>getScheme\<close>: \<open>None\<close> is the error for a missing scheme; otherwise the scheme (empty if
  there is none) and the rest.\<close>

fun scheme_from :: "string \<Rightarrow> string \<Rightarrow> string \<Rightarrow> (string \<times> string) option" where
  "scheme_from raw acc [] = Some ([], raw)"
| "scheme_from raw acc (c # cs) =
     (if is_alpha c then scheme_from raw (acc @ [c]) cs
      else if (48 \<le> byte_of c \<and> byte_of c \<le> 57) \<or> c \<in> set ''+-.'' then
        (if acc = [] then Some ([], raw) else scheme_from raw (acc @ [c]) cs)
      else if c = CHR '':'' then (if acc = [] then None else Some (acc, cs))
      else Some ([], raw))"

definition get_scheme :: "string \<Rightarrow> (string \<times> string) option" where
  "get_scheme raw = scheme_from raw [] raw"

definition valid_opt_port :: "string \<Rightarrow> bool" where
  "valid_opt_port p \<longleftrightarrow> p = [] \<or> (hd p = CHR '':'' \<and> list_all (\<lambda>c. 48 \<le> byte_of c \<and> byte_of c \<le> 57) (tl p))"

definition host_byte :: "char \<Rightarrow> bool" where
  "host_byte c \<longleftrightarrow> 128 \<le> byte_of c \<or> is_alnum c \<or> c \<in> set ''!$&()*+,;=:[]<>-_.~''
     \<or> byte_of c = 39 \<or> byte_of c = 34"

text \<open>\<open>unescape\<close> in the mode for hosts: an escape stands for a byte above 127 or for \<open>%\<close> itself.\<close>

fun unescape_host :: "string \<Rightarrow> string option" where
  "unescape_host [] = Some []"
| "unescape_host (c # cs) =
     (if c = CHR ''%'' then
        (case cs of
           x # y # ds \<Rightarrow> (case (unhex x, unhex y) of
              (Some a, Some b) \<Rightarrow>
                if a < 8 \<and> \<not> (x = CHR ''2'' \<and> y = CHR ''5'') then None
                else map_option ((#) (char_of (16 * a + b))) (unescape_host ds)
            | _ \<Rightarrow> None)
         | _ \<Rightarrow> None)
      else if host_byte c then map_option ((#) c) (unescape_host cs)
      else None)"

text \<open>\<open>unescape\<close> in the modes that accept every escape (path, fragment, user and password).\<close>

fun unescape_any :: "string \<Rightarrow> string option" where
  "unescape_any [] = Some []"
| "unescape_any (c # cs) =
     (if c = CHR ''%'' then
        (case cs of
           x # y # ds \<Rightarrow> (case (unhex x, unhex y) of
              (Some a, Some b) \<Rightarrow> map_option ((#) (char_of (16 * a + b))) (unescape_any ds)
            | _ \<Rightarrow> None)
         | _ \<Rightarrow> None)
      else map_option ((#) c) (unescape_any cs))"

definition valid_userinfo :: "string \<Rightarrow> bool" where
  "valid_userinfo s \<longleftrightarrow>
     list_all (\<lambda>c. is_alnum c \<or> c \<in> set ''-._:~!$&()*+,;=%@'' \<or> byte_of c = 39) s"

definition parse_host :: "(string \<Rightarrow> string option) \<Rightarrow> string \<Rightarrow> string option" where
  "parse_host ip6 h =
     (if CHR ''['' \<in> set h then ip6 h
      else (case last_index (CHR '':'') h of
          None \<Rightarrow> unescape_host h
        | Some i \<Rightarrow> if valid_opt_port (drop i h) then unescape_host h else None))"

text \<open>The text after the last \<open>@\<close> is the host; what precedes it must be valid user information.\<close>

definition parse_authority :: "(string \<Rightarrow> string option) \<Rightarrow> string \<Rightarrow> string option" where
  "parse_authority ip6 a =
     (case last_index (CHR ''@'') a of
        None \<Rightarrow> parse_host ip6 a
      | Some i \<Rightarrow>
          (case parse_host ip6 (drop (Suc i) a) of
             None \<Rightarrow> None
           | Some h \<Rightarrow> if valid_userinfo (take i a) \<and> unescape_any (take i a) \<noteq> None then Some h else None))"

definition strip_query :: "string \<Rightarrow> string" where
  "strip_query r = fst (cut_at (CHR ''?'') r)"

text \<open>\<open>parse(rawURL, viaRequest = false)\<close>, after the fragment has been cut off.\<close>

definition url_parse_body :: "(string \<Rightarrow> string option) \<Rightarrow> string \<Rightarrow> url option" where
  "url_parse_body ip6 raw =
     (if list_ex ctl_byte raw then None
      else if raw = ''*'' then Some \<lparr>u_scheme = [], u_host = [], u_path = ''*''\<rparr>
      else (case get_scheme raw of
        None \<Rightarrow> None
      | Some (sch, rest0) \<Rightarrow>
          (let scheme = to_lower sch; rest = strip_query rest0 in
           if \<not> has_prefix rest ''/'' \<and> scheme \<noteq> [] then
             Some \<lparr>u_scheme = scheme, u_host = [], u_path = []\<rparr>
           else if \<not> has_prefix rest ''/'' \<and> CHR '':'' \<in> set (fst (cut_at (CHR ''/'') rest)) then None
           else if (scheme \<noteq> [] \<or> \<not> has_prefix rest ''///'') \<and> has_prefix rest ''//'' then
             (let auth = takeWhile (\<lambda>c. c \<noteq> CHR ''/'') (drop 2 rest);
                  path = dropWhile (\<lambda>c. c \<noteq> CHR ''/'') (drop 2 rest)
              in case (parse_authority ip6 auth, unescape_any path) of
                   (Some h, Some p) \<Rightarrow> Some \<lparr>u_scheme = scheme, u_host = h, u_path = p\<rparr>
                 | _ \<Rightarrow> None)
           else (case unescape_any rest of
                   None \<Rightarrow> None
                 | Some p \<Rightarrow> Some \<lparr>u_scheme = scheme, u_host = [], u_path = p\<rparr>))))"

definition url_parse :: "(string \<Rightarrow> string option) \<Rightarrow> string \<Rightarrow> url option" where
  "url_parse ip6 raw =
     (case cut_at (CHR ''#'') raw of (body, frag, _) \<Rightarrow>
        (case url_parse_body ip6 body of
           None \<Rightarrow> None
         | Some u \<Rightarrow> if unescape_any frag = None then None else Some u))"

definition url_hostname :: "url \<Rightarrow> string" where
  "url_hostname u =
     (let h = u_host u;
          h1 = (case last_index (CHR '':'') h of
                  None \<Rightarrow> h | Some i \<Rightarrow> if valid_opt_port (drop i h) then take i h else h)
      in if has_prefix h1 ''['' \<and> has_suffix h1 '']'' then butlast (tl h1) else h1)"

subsection \<open>How the parts are written in the raw text\<close>

lemma scheme_from_Some:
  "scheme_from raw acc cs = Some (sch, rest) \<Longrightarrow> raw = acc @ cs \<Longrightarrow>
     (sch = [] \<and> rest = raw) \<or> (sch \<noteq> [] \<and> raw = sch @ CHR '':'' # rest)"
  by (induction raw acc cs rule: scheme_from.induct) (auto split: if_splits)

lemma get_scheme_Some:
  "get_scheme raw = Some (sch, rest) \<Longrightarrow>
     (sch = [] \<and> rest = raw) \<or> (sch \<noteq> [] \<and> raw = sch @ CHR '':'' # rest)"
  unfolding get_scheme_def by (drule scheme_from_Some) auto

lemma strip_query_prefix: "\<exists>q. r = strip_query r @ q"
proof -
  obtain a b f where "cut_at (CHR ''?'') r = (a, b, f)" by (metis prod_cases3)
  then show ?thesis using cut_at_spec [of "CHR ''?''" r a b f] by (cases f) (auto simp: strip_query_def)
qed

lemma unescape_host_plain:
  "CHR ''%'' \<notin> set s \<Longrightarrow> unescape_host s = Some t \<Longrightarrow> t = s"
  by (induction s arbitrary: t) (auto split: if_splits)

lemma unescape_host_bytes:
  "CHR ''%'' \<notin> set s \<Longrightarrow> list_all host_byte s \<Longrightarrow> unescape_host s = Some s"
  by (induction s) auto

lemma unhex_lt: "unhex c = Some a \<Longrightarrow> a < 16"
  by (auto simp: unhex_def Let_def split: if_splits)

text \<open>An escape accepted in a host never stands for a plain ASCII byte other than \<open>%\<close>.\<close>

lemma unescaped_byte:
  assumes "unhex x = Some a" "unhex y = Some b" "\<not> (a < 8 \<and> \<not> (x = CHR ''2'' \<and> y = CHR ''5''))"
  shows "\<not> (byte_of (char_of (16 * a + b)) < 128 \<and> char_of (16 * a + b) \<noteq> CHR ''%'')"
proof (cases "a < 8")
  case True
  with assms(3) have "x = CHR ''2''" "y = CHR ''5''" by auto
  with assms(1,2) have "a = 2" "b = 5" by (simp_all add: unhex_def Let_def)
  moreover have "char_of (37 :: nat) = CHR ''%''" by code_simp
  ultimately show ?thesis by simp
next
  case False
  have "16 * a + b < 256" using assms(1,2)[THEN unhex_lt] by simp
  then have "byte_of (char_of (16 * a + b)) = 16 * a + b" by simp
  with False show ?thesis by simp
qed

lemma unescape_host_step:
  assumes "unescape_host (c # cs) = Some (d # u)"
  shows "\<exists>pre rest. c # cs = pre @ rest \<and> unescape_host rest = Some u \<and>
     (\<forall>v w. unescape_host v = Some w \<longrightarrow> unescape_host (pre @ v) = Some (d # w)) \<and>
     (byte_of d < 128 \<and> d \<noteq> CHR ''%'' \<longrightarrow> pre = [d]) \<and> pre \<noteq> []"
proof (cases "c = CHR ''%''")
  case False
  with assms have "host_byte c" "unescape_host cs = Some u" "d = c"
    by (auto split: if_splits)
  with False show ?thesis by (intro exI [of _ "[c]"] exI [of _ cs]) auto
next
  case True
  with assms obtain x y ds a b where e: "cs = x # y # ds" "unhex x = Some a" "unhex y = Some b"
    "\<not> (a < 8 \<and> \<not> (x = CHR ''2'' \<and> y = CHR ''5''))" "unescape_host ds = Some u"
    "d = char_of (16 * a + b)"
    by (auto split: list.splits option.splits if_splits)
  have "\<not> (byte_of d < 128 \<and> d \<noteq> CHR ''%'')"
    unfolding e(6) using e(2-4) by (rule unescaped_byte)
  with True e show ?thesis by (intro exI [of _ "[c, x, y]"] exI [of _ ds]) auto
qed

text \<open>The decoded host ends in a plain text exactly where the raw host does.\<close>

lemma unescape_host_exact:
  "unescape_host s = Some p \<Longrightarrow> \<forall>c \<in> set p. byte_of c < 128 \<and> c \<noteq> CHR ''%'' \<Longrightarrow> s = p"
proof (induction p arbitrary: s)
  case Nil
  then show ?case by (cases s) (auto split: if_splits list.splits option.splits)
next
  case (Cons d u)
  then obtain c cs where "s = c # cs" by (cases s) auto
  with Cons show ?case
    using unescape_host_step [of c cs d u] by fastforce
qed

lemma unescape_host_suffix:
  assumes "unescape_host s = Some (t @ p)" and "\<forall>c \<in> set p. byte_of c < 128 \<and> c \<noteq> CHR ''%''"
  shows "\<exists>s'. s = s' @ p \<and> unescape_host s' = Some t"
  using assms(1)
proof (induction t arbitrary: s)
  case Nil
  then show ?case using unescape_host_exact [of s p] assms(2) by auto
next
  case (Cons d u)
  then obtain c cs where s: "s = c # cs" by (cases s) auto
  with Cons.prems obtain pre rest where r: "c # cs = pre @ rest" "unescape_host rest = Some (u @ p)"
    "\<forall>v w. unescape_host v = Some w \<longrightarrow> unescape_host (pre @ v) = Some (d # w)"
    using unescape_host_step [of c cs d "u @ p"] by auto
  from Cons.IH [OF r(2)] obtain s' where "rest = s' @ p" "unescape_host s' = Some u" by blast
  with r s show ?case by (intro exI [of _ "pre @ s'"]) auto
qed

end
