(* ===== verification/Nass_Prelude.thy ===== *)
theory Nass_Prelude
  imports Go_Strings
begin

text \<open>
  What every component shares: the errors of the program as values, state-passing operations that
  may return an error (Go's \<open>(value, error)\<close> results over a mutable world), and the lemmas on
  keyed lists of rows. \<open>run_simps\<close> and \<open>run_eval\<close> evaluate an operation step by step, \<open>preserves_intro\<close>
  decomposes the claim that an operation keeps an invariant, and \<open>row_simps\<close> holds the laws of
  row lookup under insertion, update and deletion.
\<close>

named_theorems run_simps "evaluation of the elementary operations"
named_theorems run_eval "evaluation of sequences of operations"
named_theorems preserves_intro "an operation keeps an invariant if its parts do"
named_theorems row_simps "lookup in a list of rows"

subsection \<open>Errors\<close>

text \<open>The sentinel errors of the packages, the failures the database driver reports, and errors
  built with \<open>fmt.Errorf\<close>: \<open>Msg\<close> without and \<open>Wrap\<close> with a wrapped error (\<open>%w\<close>);
  \<open>Joined\<close> is \<open>errors.Join\<close>.\<close>

datatype error =
    ErrUserNotFound
  | ErrUserExists
  | ErrBadPassword
  | ErrInvalidRefreshToken
  | ErrInvalidClient
  | ErrLoginRequired
  | ErrNotExist
  | ErrCanceled
  | DbUnique
  | DbForeignKey
  | DbFault
  | RandFault
  | HashFault
  | GoPanic string
  | Msg string
  | Wrap string error
  | Joined "error list"

fun error_text :: "error \<Rightarrow> string" where
  "error_text ErrUserNotFound = ''user not found''"
| "error_text ErrUserExists = ''user already exists''"
| "error_text ErrBadPassword = ''invalid password''"
| "error_text ErrInvalidRefreshToken = ''invalid_refresh_token''"
| "error_text ErrInvalidClient = ''token was not issued for this client''"
| "error_text ErrLoginRequired = ''login_required''"
| "error_text ErrNotExist = ''file does not exist''"
| "error_text ErrCanceled = ''context canceled''"
| "error_text DbUnique = ''UNIQUE constraint failed''"
| "error_text DbForeignKey = ''FOREIGN KEY constraint failed''"
| "error_text DbFault = ''database error''"
| "error_text RandFault = ''entropy source failed''"
| "error_text HashFault = ''password hash failed''"
| "error_text (GoPanic m) = m"
| "error_text (Msg m) = m"
| "error_text (Wrap m e) = m @ '': '' @ error_text e"
| "error_text (Joined es) = join_with [CHR 0x0A] (map error_text es)"

text \<open>\<open>errors.Is\<close>: the error itself, or one that it wraps.\<close>

fun error_is :: "error \<Rightarrow> error \<Rightarrow> bool" where
  "error_is (Wrap m e) t = (Wrap m e = t \<or> error_is e t)"
| "error_is (Joined es) t = (Joined es = t \<or> list_ex (\<lambda>e. error_is e t) es)"
| "error_is e t = (e = t)"

subsection \<open>Operations\<close>

type_synonym ('s, 'a) run = "'s \<Rightarrow> (error + 'a) \<times> 's"

definition ret :: "'a \<Rightarrow> ('s, 'a) run" where
  "ret x = (\<lambda>s. (Inr x, s))"

definition throw :: "error \<Rightarrow> ('s, 'a) run" where
  "throw e = (\<lambda>s. (Inl e, s))"

definition bindR :: "('s, 'a) run \<Rightarrow> ('a \<Rightarrow> ('s, 'b) run) \<Rightarrow> ('s, 'b) run" where
  "bindR m f = (\<lambda>s. case m s of (Inl e, s') \<Rightarrow> (Inl e, s') | (Inr x, s') \<Rightarrow> f x s')"

text \<open>\<open>attempt m\<close> hands the error to the caller as a value, as Go's \<open>x, err := m()\<close> does.\<close>

definition attempt :: "('s, 'a) run \<Rightarrow> ('s, error + 'a) run" where
  "attempt m = (\<lambda>s. case m s of (r, s') \<Rightarrow> (Inr r, s'))"

definition map_error :: "(error \<Rightarrow> error) \<Rightarrow> ('s, 'a) run \<Rightarrow> ('s, 'a) run" where
  "map_error f m = (\<lambda>s. case m s of (Inl e, s') \<Rightarrow> (Inl (f e), s') | (Inr x, s') \<Rightarrow> (Inr x, s'))"

definition reading :: "('s \<Rightarrow> 'a) \<Rightarrow> ('s, 'a) run" where
  "reading f = (\<lambda>s. (Inr (f s), s))"

definition writing :: "('s \<Rightarrow> 's) \<Rightarrow> ('s, unit) run" where
  "writing f = (\<lambda>s. (Inr (), f s))"

definition lift_result :: "error + 'a \<Rightarrow> ('s, 'a) run" where
  "lift_result r = (\<lambda>s. (r, s))"

fun forR :: "'x list \<Rightarrow> ('x \<Rightarrow> ('s, unit) run) \<Rightarrow> ('s, unit) run" where
  "forR [] f = ret ()"
| "forR (x # xs) f = bindR (f x) (\<lambda>_. forR xs f)"

lemma ret_run [run_simps]: "ret x s = (Inr x, s)"
  by (simp add: ret_def)

lemma throw_run [run_simps]: "throw e s = (Inl e, s)"
  by (simp add: throw_def)

lemma reading_run [run_simps]: "reading f s = (Inr (f s), s)"
  by (simp add: reading_def)

lemma writing_run [run_simps]: "writing f s = (Inr (), f s)"
  by (simp add: writing_def)

lemma lift_result_run [run_simps]: "lift_result r s = (r, s)"
  by (simp add: lift_result_def)

lemma bindR_run [run_eval]:
  "bindR m f s = (case m s of (Inl e, s') \<Rightarrow> (Inl e, s') | (Inr x, s') \<Rightarrow> f x s')"
  by (simp add: bindR_def)

lemma map_error_run [run_eval]:
  "map_error f m s = (case m s of (Inl e, s') \<Rightarrow> (Inl (f e), s') | (Inr x, s') \<Rightarrow> (Inr x, s'))"
  by (simp add: map_error_def)

lemma attempt_run [run_eval]: "attempt m s = (Inr (fst (m s)), snd (m s))"
  by (simp add: attempt_def split: prod.splits)

lemma bindR_Inr_iff:
  "bindR m f s = (Inr y, t) \<longleftrightarrow> (\<exists>x u. m s = (Inr x, u) \<and> f x u = (Inr y, t))"
  by (auto simp: bindR_def split: prod.splits sum.splits)

lemma bindR_Inl_iff:
  "bindR m f s = (Inl e, t) \<longleftrightarrow> m s = (Inl e, t) \<or> (\<exists>x u. m s = (Inr x, u) \<and> f x u = (Inl e, t))"
  by (auto simp: bindR_def split: prod.splits sum.splits)

lemma map_error_Inr_iff [simp]: "map_error f m s = (Inr x, t) \<longleftrightarrow> m s = (Inr x, t)"
  by (auto simp: map_error_def split: prod.splits sum.splits)

lemma attempt_Inr_iff [simp]: "attempt m s = (Inr r, t) \<longleftrightarrow> m s = (r, t)"
  by (auto simp: attempt_def split: prod.splits)

lemma attempt_Inl_iff [simp]: "attempt m s \<noteq> (Inl e, t)"
  by (auto simp: attempt_def split: prod.splits)

lemma bindR_assoc: "bindR (bindR m f) g = bindR m (\<lambda>x. bindR (f x) g)"
  by (auto simp: bindR_def fun_eq_iff split: prod.splits sum.splits)

subsection \<open>Invariants of operations\<close>

definition preserves :: "('s \<Rightarrow> bool) \<Rightarrow> ('s, 'a) run \<Rightarrow> bool" where
  "preserves P m \<longleftrightarrow> (\<forall>s. P s \<longrightarrow> P (snd (m s)))"

text \<open>\<open>frame f m\<close>: the operation leaves what \<open>f\<close> reads as it was.\<close>

definition frame :: "('s \<Rightarrow> 'b) \<Rightarrow> ('s, 'a) run \<Rightarrow> bool" where
  "frame f m \<longleftrightarrow> (\<forall>s. f (snd (m s)) = f s)"

lemma preservesD: "preserves P m \<Longrightarrow> P s \<Longrightarrow> P (snd (m s))"
  by (simp add: preserves_def)

lemma preserves_pair: "preserves P m \<Longrightarrow> m s = (r, t) \<Longrightarrow> P s \<Longrightarrow> P t"
  by (metis preserves_def snd_conv)

lemma frameD: "frame f m \<Longrightarrow> f (snd (m s)) = f s"
  by (simp add: frame_def)

lemma frame_pair: "frame f m \<Longrightarrow> m s = (r, t) \<Longrightarrow> f t = f s"
  by (metis frame_def snd_conv)

lemma preserves_basic [preserves_intro]:
  "preserves P (ret x)" "preserves P (throw e)" "preserves P (reading f)" "preserves P (lift_result r)"
  by (simp_all add: preserves_def run_simps)

lemma frame_basic [preserves_intro]:
  "frame g (ret x)" "frame g (throw e)" "frame g (reading f)" "frame g (lift_result r)"
  by (simp_all add: frame_def run_simps)

lemma preserves_bindR [preserves_intro]:
  "preserves P m \<Longrightarrow> (\<And>x. preserves P (f x)) \<Longrightarrow> preserves P (bindR m f)"
  unfolding preserves_def bindR_def by (fastforce split: prod.splits sum.splits)

lemma frame_bindR [preserves_intro]:
  "frame g m \<Longrightarrow> (\<And>x. frame g (f x)) \<Longrightarrow> frame g (bindR m f)"
  unfolding frame_def bindR_def by (auto split: prod.splits sum.splits) (metis snd_conv)+

lemma preserves_attempt [preserves_intro]: "preserves P m \<Longrightarrow> preserves P (attempt m)"
  by (simp add: preserves_def attempt_run)

lemma frame_attempt [preserves_intro]: "frame g m \<Longrightarrow> frame g (attempt m)"
  by (simp add: frame_def attempt_run)

lemma preserves_map_error [preserves_intro]: "preserves P m \<Longrightarrow> preserves P (map_error f m)"
  unfolding preserves_def map_error_def by (fastforce split: prod.splits sum.splits)

lemma frame_map_error [preserves_intro]: "frame g m \<Longrightarrow> frame g (map_error f m)"
  unfolding frame_def map_error_def by (auto split: prod.splits sum.splits) (metis snd_conv)+

lemma preserves_if [preserves_intro]:
  "(b \<Longrightarrow> preserves P m) \<Longrightarrow> (\<not> b \<Longrightarrow> preserves P n) \<Longrightarrow> preserves P (if b then m else n)"
  by simp

lemma frame_if [preserves_intro]:
  "(b \<Longrightarrow> frame P m) \<Longrightarrow> (\<not> b \<Longrightarrow> frame P n) \<Longrightarrow> frame P (if b then m else n)"
  by simp

lemma preserves_option [preserves_intro]:
  "preserves P m \<Longrightarrow> (\<And>y. preserves P (f y)) \<Longrightarrow> preserves P (case x of None \<Rightarrow> m | Some y \<Rightarrow> f y)"
  by (cases x) auto

lemma frame_option [preserves_intro]:
  "frame P m \<Longrightarrow> (\<And>y. frame P (f y)) \<Longrightarrow> frame P (case x of None \<Rightarrow> m | Some y \<Rightarrow> f y)"
  by (cases x) auto

lemma preserves_sum [preserves_intro]:
  "(\<And>e. preserves P (g e)) \<Longrightarrow> (\<And>y. preserves P (f y)) \<Longrightarrow>
     preserves P (case x of Inl e \<Rightarrow> g e | Inr y \<Rightarrow> f y)"
  by (cases x) auto

lemma frame_sum [preserves_intro]:
  "(\<And>e. frame P (g e)) \<Longrightarrow> (\<And>y. frame P (f y)) \<Longrightarrow>
     frame P (case x of Inl e \<Rightarrow> g e | Inr y \<Rightarrow> f y)"
  by (cases x) auto

lemma preserves_cases [preserves_intro]:
  "(\<And>a b. preserves P (f2 a b)) \<Longrightarrow> preserves P (case p of (a, b) \<Rightarrow> f2 a b)"
  "preserves P m \<Longrightarrow> (\<And>y ys. preserves P (f3 y ys)) \<Longrightarrow> preserves P (case xs of [] \<Rightarrow> m | y # ys \<Rightarrow> f3 y ys)"
  "preserves P (f4 z) \<Longrightarrow> preserves P (Let z f4)"
  by (simp_all split: prod.split list.split)

lemma frame_cases [preserves_intro]:
  "(\<And>a b. frame P (f2 a b)) \<Longrightarrow> frame P (case p of (a, b) \<Rightarrow> f2 a b)"
  "frame P m \<Longrightarrow> (\<And>y ys. frame P (f3 y ys)) \<Longrightarrow> frame P (case xs of [] \<Rightarrow> m | y # ys \<Rightarrow> f3 y ys)"
  "frame P (f4 z) \<Longrightarrow> frame P (Let z f4)"
  by (simp_all split: prod.split list.split)

lemma preserves_writing: "(\<And>s. P s \<Longrightarrow> P (f s)) \<Longrightarrow> preserves P (writing f)"
  by (simp add: preserves_def run_simps)

lemma frame_writing: "(\<And>s. g (f s) = g s) \<Longrightarrow> frame g (writing f)"
  by (simp add: frame_def run_simps)

lemma preserves_forR [preserves_intro]:
  "(\<And>x. x \<in> set xs \<Longrightarrow> preserves P (f x)) \<Longrightarrow> preserves P (forR xs f)"
  by (induction xs) (auto intro!: preserves_intro)

lemma frame_forR [preserves_intro]:
  "(\<And>x. x \<in> set xs \<Longrightarrow> frame P (f x)) \<Longrightarrow> frame P (forR xs f)"
  by (induction xs) (auto intro!: preserves_intro)

lemma preserves_conj:
  "preserves P m \<Longrightarrow> preserves Q m \<Longrightarrow> preserves (\<lambda>s. P s \<and> Q s) m"
  by (auto simp: preserves_def)

lemma frame_preserves: "frame f m \<Longrightarrow> preserves (\<lambda>s. P (f s)) m"
  by (auto simp: preserves_def frame_def)

subsection \<open>Rows with a key\<close>

definition row_by :: "('r \<Rightarrow> 'k) \<Rightarrow> 'k \<Rightarrow> 'r list \<Rightarrow> 'r option" where
  "row_by key k rs = find (\<lambda>r. key r = k) rs"

lemma row_by_Nil [row_simps]: "row_by key k [] = None"
  by (simp add: row_by_def)

lemma row_by_Cons [row_simps]: "row_by key k (r # rs) = (if key r = k then Some r else row_by key k rs)"
  by (simp add: row_by_def)

lemma row_by_None: "row_by key k rs = None \<longleftrightarrow> k \<notin> key ` set rs"
  by (induction rs) (auto simp: row_simps)

lemma row_by_Some: "row_by key k rs = Some r \<Longrightarrow> r \<in> set rs \<and> key r = k"
  by (induction rs) (auto simp: row_simps split: if_splits)

lemma row_by_append [row_simps]:
  "row_by key k (rs @ [r]) =
     (case row_by key k rs of Some x \<Rightarrow> Some x | None \<Rightarrow> if key r = k then Some r else None)"
  by (induction rs) (auto simp: row_simps)

lemma row_by_insert:
  "row_by key (key r) rs = None \<Longrightarrow> row_by key k (rs @ [r]) = (if k = key r then Some r else row_by key k rs)"
  by (auto simp: row_simps split: option.splits)

lemma row_by_member:
  "distinct (map key rs) \<Longrightarrow> r \<in> set rs \<Longrightarrow> row_by key (key r) rs = Some r"
proof (induction rs)
  case (Cons x rs)
  then show ?case by (auto simp: row_simps)
qed simp

lemma row_by_filter:
  "distinct (map key rs) \<Longrightarrow>
     row_by key k (filter P rs) = (case row_by key k rs of None \<Rightarrow> None | Some r \<Rightarrow> if P r then Some r else None)"
proof (induction rs)
  case (Cons x rs)
  then have d: "distinct (map key rs)" and x: "key x \<notin> key ` set rs" by auto
  show ?case
  proof (cases "key x = k")
    case True
    with x have "row_by key k (filter P rs) = None" by (auto simp: row_by_None)
    with True show ?thesis by (auto simp: row_simps)
  next
    case False
    with Cons d show ?thesis by (auto simp: row_simps)
  qed
qed (simp add: row_simps)

lemma row_by_delete_key: "row_by key k (filter (\<lambda>r. key r \<noteq> k') rs) = (if k = k' then None else row_by key k rs)"
  by (induction rs) (auto simp: row_simps)

lemma row_by_map:
  "(\<And>r. key (f r) = key r) \<Longrightarrow> row_by key k (map f rs) = map_option f (row_by key k rs)"
  by (induction rs) (auto simp: row_simps)

lemma distinct_filter_map: "distinct (map key rs) \<Longrightarrow> distinct (map key (filter P rs))"
  by (induction rs) auto

lemma map_key_update: "(\<And>r. key (f r) = key r) \<Longrightarrow> map key (map f rs) = map key rs"
  by simp

end
