(* ===== verification/Proxy_Server.thy ===== *)
theory Proxy_Server
  imports Go_Url Go_Http Nass_Prelude
begin

text \<open>
  The front door (\<^verbatim>\<open>internal/proxy/proxy.go\<close>, \<^verbatim>\<open>reverse.go\<close>, \<^verbatim>\<open>security.go\<close> and the redirecting handler
  of \<^verbatim>\<open>tls.go\<close>): a map from lower-case hosts to handlers, the reverse proxy as the rewriting of a
  request, and the security headers. A handler takes the request and the world to a reply (a
  response and the cookies set). What \<open>httputil.ReverseProxy\<close> removes as hop-by-hop headers before
  it calls \<open>Rewrite\<close> is the parameter \<open>hop\<close>; a backend URL is one without a query. The connection
  settings of the transport do not show in a request; they are kept as the options of the proxy.
\<close>

type_synonym reply = "response \<times> cookie list"
type_synonym 'w handler = "request \<Rightarrow> 'w \<Rightarrow> reply \<times> 'w"

subsection \<open>The server\<close>

record 'h server =
  sv_routes :: "string \<Rightarrow> 'h option"
  sv_fallback :: 'h

definition not_found :: "'w handler" where
  "not_found r w = ((HttpError 404 (''no route for host '' @ rq_host r), []), w)"

definition new_server :: "'w handler server" where
  "new_server = \<lparr>sv_routes = (\<lambda>_. None), sv_fallback = not_found\<rparr>"

definition set_fallback :: "'h \<Rightarrow> 'h server \<Rightarrow> 'h server" where
  "set_fallback h s = s\<lparr>sv_fallback := h\<rparr>"

definition add_route :: "string \<Rightarrow> 'h \<Rightarrow> 'h server \<Rightarrow> 'h server" where
  "add_route host h s = s\<lparr>sv_routes := (sv_routes s)(to_lower host := Some h)\<rparr>"

definition remove_route :: "string \<Rightarrow> 'h server \<Rightarrow> bool \<times> 'h server" where
  "remove_route host s =
     (sv_routes s (to_lower host) \<noteq> None, s\<lparr>sv_routes := (sv_routes s)(to_lower host := None)\<rparr>)"

text \<open>\<open>Hosts\<close>, as a set: its order is unspecified.\<close>

definition server_hosts :: "'h server \<Rightarrow> string set" where
  "server_hosts s = {h. sv_routes s h \<noteq> None}"

definition identity_headers :: "string list" where
  "identity_headers = [''Remote-User'', ''Remote-Email'', ''Remote-Name'', ''Remote-Groups'']"

definition drop_identity :: "request \<Rightarrow> request" where
  "drop_identity r = r\<lparr>rq_headers := fold (\<lambda>k h. hdr_del h k) identity_headers (rq_headers r)\<rparr>"

definition strip_port :: "string \<Rightarrow> string" where
  "strip_port host = (case last_index (CHR '':'') host of
       None \<Rightarrow> host
     | Some i \<Rightarrow>
         if \<not> has_prefix host [CHR 0x5B] then take i host
         else (case last_index (CHR 0x5D) host of
             None \<Rightarrow> host
           | Some j \<Rightarrow> if j < i then take i host else host))"

definition serve_http :: "'w handler server \<Rightarrow> 'w handler" where
  "serve_http s r = (case sv_routes s (to_lower (strip_port (rq_host r))) of
       None \<Rightarrow> sv_fallback s (drop_identity r)
     | Some h \<Rightarrow> h (drop_identity r))"

definition redirect_to_https :: "'w handler" where
  "redirect_to_https r w = ((Redirect 301 (''https://'' @ strip_port (rq_host r) @ rq_uri r), []), w)"

subsection \<open>The reverse proxy\<close>

record backend_options =
  bo_backend :: "url option"
  bo_flush :: int
  bo_max_idle :: int
  bo_timeout :: int
  bo_preserve :: bool

definition proxy_defaults :: "backend_options \<Rightarrow> backend_options" where
  "proxy_defaults o1 = o1\<lparr>bo_flush := (if bo_flush o1 = 0 then 100 * 10 ^ 6 else bo_flush o1),
     bo_max_idle := (if bo_max_idle o1 = 0 then 32 else bo_max_idle o1)\<rparr>"

definition session_cookie_name :: string where
  "session_cookie_name = ''nass_session''"

definition strip_value :: "string \<Rightarrow> string \<Rightarrow> string" where
  "strip_value name v = trim_space (join_with '';''
     (filter (\<lambda>p. fst (cut_at (CHR ''='') (trim_space p)) \<noteq> name) (split_at (CHR '';'') v)))"

definition strip_cookie :: "headers \<Rightarrow> string \<Rightarrow> headers" where
  "strip_cookie h name =
     (let vals = h ''Cookie'' in
      if vals = [] then h
      else fold (\<lambda>v h'. hdr_add h' ''Cookie'' v)
             (filter (\<lambda>s. s \<noteq> []) (map (strip_value name) vals)) (hdr_del h ''Cookie''))"

definition proto_scheme :: "request \<Rightarrow> string" where
  "proto_scheme r = (if rq_tls r then ''https'' else ''http'')"

definition joining_slash :: "string \<Rightarrow> string \<Rightarrow> string" where
  "joining_slash a b =
     (if has_suffix a ''/'' \<and> has_prefix b ''/'' then a @ tl b
      else if \<not> has_suffix a ''/'' \<and> \<not> has_prefix b ''/'' then a @ ''/'' @ b
      else a @ b)"

definition forwarded_headers :: "string list" where
  "forwarded_headers = [''Forwarded'', ''X-Forwarded-For'', ''X-Forwarded-Host'', ''X-Forwarded-Proto'']"

text \<open>\<open>ProxyRequest.SetXForwarded\<close>.\<close>

definition set_x_forwarded :: "request \<Rightarrow> headers \<Rightarrow> headers" where
  "set_x_forwarded inr h =
     (let h1 = (case split_host_port (rq_remote inr) of
           None \<Rightarrow> hdr_del h ''X-Forwarded-For''
         | Some (ip, _) \<Rightarrow> hdr_set h ''X-Forwarded-For'' (join_with '', '' (h ''X-Forwarded-For'' @ [ip])))
      in hdr_set (hdr_set h1 ''X-Forwarded-Host'' (rq_host inr)) ''X-Forwarded-Proto'' (proto_scheme inr))"

text \<open>The request sent to the backend: \<open>SetURL\<close> (its scheme, host and path; a query of the backend's own URL is
  not represented), the session cookie taken out, and the forwarding headers set.\<close>

definition rewrite :: "(headers \<Rightarrow> headers) \<Rightarrow> url \<Rightarrow> bool \<Rightarrow> request \<Rightarrow> request" where
  "rewrite hop backend preserve r =
     (let h0 = fold (\<lambda>k h. hdr_del h k) forwarded_headers (hop (rq_headers r));
          h1 = strip_cookie h0 session_cookie_name;
          h2 = set_x_forwarded r h1;
          h3 = (if proto_scheme r \<noteq> [] then hdr_set h2 ''X-Forwarded-Proto'' (proto_scheme r) else h2);
          h4 = hdr_set h3 ''X-Forwarded-Host'' (rq_host r)
      in r\<lparr>rq_host := (if preserve then rq_host r else u_host backend),
           rq_path := joining_slash (u_path backend) (rq_path r),
           rq_dest := (u_scheme backend, u_host backend),
           rq_headers := h4\<rparr>)"

definition new_reverse_proxy :: "(headers \<Rightarrow> headers) \<Rightarrow> backend_options \<Rightarrow> error + 'w handler" where
  "new_reverse_proxy hop o0 = (case bo_backend o0 of
       None \<Rightarrow> Inl (GoPanic ''proxy: BackendOptions.Backend is required'')
     | Some u \<Rightarrow> (let o1 = proxy_defaults o0 in
         Inr (\<lambda>r w. ((Proxied (rewrite hop u (bo_preserve o1) r), []), w))))"

subsection \<open>Security headers\<close>

definition hsts :: "headers \<Rightarrow> headers" where
  "hsts h = hdr_set h ''Strict-Transport-Security'' ''max-age=31536000; includeSubDomains''"

definition quoted_src :: "string \<Rightarrow> string" where
  "quoted_src w = CHR 39 # w @ [CHR 39]"

definition csp_policy :: string where
  "csp_policy = ''default-src '' @ quoted_src ''self'' @ ''; style-src '' @ quoted_src ''self'' @ '' '' @
     quoted_src ''unsafe-inline'' @ ''; img-src '' @ quoted_src ''self'' @ '' data:; frame-ancestors '' @
     quoted_src ''none'' @ ''; base-uri '' @ quoted_src ''self'' @ ''; form-action '' @ quoted_src ''self''"

definition first_party_headers :: "headers \<Rightarrow> headers" where
  "first_party_headers h =
     (let h1 = hdr_set (hdr_set (hdr_set h ''X-Content-Type-Options'' ''nosniff'')
                 ''Referrer-Policy'' ''strict-origin-when-cross-origin'') ''X-Frame-Options'' ''DENY''
      in if hdr_get h1 ''Content-Security-Policy'' = [] then hdr_set h1 ''Content-Security-Policy'' csp_policy else h1)"

subsection \<open>Hosts and ports\<close>

lemma strip_port_plain: "CHR '':'' \<notin> set h \<Longrightarrow> strip_port h = h"
  using last_index_None [of "CHR '':''" h] by (simp add: strip_port_def del: last_index_None)

lemma strip_port_port:
  assumes "CHR '':'' \<notin> set p" "CHR 0x5D \<notin> set p" "\<not> has_prefix h [CHR 0x5B] \<or> has_suffix h [CHR 0x5D]" "h \<noteq> []"
  shows "strip_port (h @ CHR '':'' # p) = h"
proof -
  have l: "last_index (CHR '':'') (h @ CHR '':'' # p) = Some (length h)"
    using assms(1) by (rule last_index_append)
  show ?thesis
  proof (cases "has_prefix h [CHR 0x5B]")
    case False
    then have "\<not> has_prefix (h @ CHR '':'' # p) [CHR 0x5B]"
      using assms(4) by (cases h) (auto simp: has_prefix_def)
    with l show ?thesis by (simp add: strip_port_def)
  next
    case True
    then have "has_suffix h [CHR 0x5D]" using assms(3) by simp
    then obtain h0 where h0: "h = h0 @ [CHR 0x5D]" by (auto simp: has_suffix_iff)
    have "last_index (CHR 0x5D) (h0 @ CHR 0x5D # (CHR '':'' # p)) = Some (length h0)"
      by (rule last_index_append) (use assms(2) in simp)
    with l h0 show ?thesis by (simp add: strip_port_def)
  qed
qed

subsection \<open>The session cookie is stripped, the others stay\<close>

text \<open>A header value the server accepts: \<open>net/http\<close> refuses control characters other than a tab.\<close>

definition valid_header_value :: "string \<Rightarrow> bool" where
  "valid_header_value v \<longleftrightarrow> list_all (\<lambda>c. (32 \<le> byte_of c \<or> byte_of c = 9) \<and> byte_of c \<noteq> 127) v"

lemma valid_space: "valid_header_value v \<Longrightarrow> c \<in> set v \<Longrightarrow> is_space c = ascii_space c"
  by (auto simp: valid_header_value_def list_all_iff is_space_def ascii_space_def)

lemma trim_ascii_space: "(\<And>c. c \<in> set v \<Longrightarrow> is_space c = ascii_space c) \<Longrightarrow> trim_ascii v = trim_space v"
proof -
  assume eq: "\<And>c. c \<in> set v \<Longrightarrow> is_space c = ascii_space c"
  have d: "dropWhile ascii_space xs = dropWhile is_space xs" if "set xs \<subseteq> set v" for xs
    using that eq by (auto intro!: dropWhile_cong)
  have "set (rev (dropWhile is_space v)) \<subseteq> set v" by (auto dest: set_dropWhileD)
  then show ?thesis by (simp add: trim_ascii_def trim_space_def trim_left_def d)
qed

lemma split_set: "p \<in> set (split_at c v) \<Longrightarrow> set p \<subseteq> set v"
proof (induction v arbitrary: p)
  case (Cons x v)
  obtain q qs where q: "split_at c v = q # qs" by (meson split_at_not_Nil neq_Nil_conv)
  with Cons show ?case by (auto split: if_splits; fastforce)
qed simp

lemma trim_space_cons: "is_space c \<Longrightarrow> trim_space (c # s) = trim_space s"
  by (simp add: trim_space_def trim_left_def)

lemma dropWhile_append_space: "dropWhile is_space (xs @ [c]) = (if \<forall>x \<in> set xs. is_space x
    then (if is_space c then [] else [c]) else dropWhile is_space xs @ [c])"
  by (induction xs) auto

lemma trim_space_snoc: "is_space c \<Longrightarrow> trim_space (s @ [c]) = trim_space s"
proof -
  assume c: "is_space c"
  have e: "dropWhile is_space s = []" if "\<forall>x \<in> set s. is_space x" using that by simp
  show ?thesis
    using c by (auto simp: trim_space_def trim_left_def dropWhile_append_space e)
qed

lemma split_cons: "x \<noteq> c \<Longrightarrow> split_at c (x # v) = (x # hd (split_at c v)) # tl (split_at c v)"
  by (cases "split_at c v") auto

lemma split_snoc: "x \<noteq> c \<Longrightarrow> split_at c (v @ [x]) = butlast (split_at c v) @ [last (split_at c v) @ [x]]"
proof (induction v)
  case (Cons y v)
  obtain q qs where q: "split_at c v = q # qs" by (meson split_at_not_Nil neq_Nil_conv)
  with Cons show ?case by (cases qs) (auto split: list.splits)
qed simp

lemma split_trim_left:
  assumes "\<not> is_space c"
  shows "map trim_space (split_at c (trim_left v)) = map trim_space (split_at c v)"
proof (induction v)
  case (Cons x v)
  show ?case
  proof (cases "is_space x")
    case True
    then have "x \<noteq> c" using assms by auto
    obtain q qs where q: "split_at c v = q # qs" by (meson split_at_not_Nil neq_Nil_conv)
    have "trim_left (x # v) = trim_left v" using True by (simp add: trim_left_def)
    with Cons q True \<open>x \<noteq> c\<close> show ?thesis by (simp add: trim_space_cons)
  qed (simp add: trim_left_def)
qed (simp add: trim_left_def)

lemma split_trim_right:
  assumes "\<not> is_space c"
  shows "map trim_space (split_at c (rev (trim_left (rev v)))) = map trim_space (split_at c v)"
proof (induction v rule: rev_induct)
  case (snoc x v)
  show ?case
  proof (cases "is_space x")
    case True
    then have "x \<noteq> c" using assms by auto
    have "map trim_space (split_at c (v @ [x])) =
        map trim_space (butlast (split_at c v) @ [last (split_at c v)])"
      using True by (simp add: split_snoc [OF \<open>x \<noteq> c\<close>] trim_space_snoc del: append_butlast_last_id)
    also have "\<dots> = map trim_space (split_at c v)" by (subst append_butlast_last_id) simp_all
    finally have "map trim_space (split_at c (v @ [x])) = map trim_space (split_at c v)" .
    moreover have "rev (trim_left (rev (v @ [x]))) = rev (trim_left (rev v))" using True by (simp add: trim_left_def)
    ultimately show ?thesis using snoc by simp
  qed (simp add: trim_left_def)
qed (simp add: trim_left_def)

lemma split_trim: "\<not> is_space c \<Longrightarrow> map trim_space (split_at c (trim_space v)) = map trim_space (split_at c v)"
  by (simp add: trim_space_def split_trim_left split_trim_right)

lemma first_some_append:
  "first_some f (xs @ ys) = (case first_some f xs of None \<Rightarrow> first_some f ys | Some y \<Rightarrow> Some y)"
  by (induction xs) (auto split: option.splits simp del: first_some_None)

lemma first_some_map: "first_some f (map g xs) = first_some (\<lambda>x. f (g x)) xs"
  by (induction xs) (auto split: option.splits)

lemma first_some_cong: "(\<And>x. x \<in> set xs \<Longrightarrow> f x = g x) \<Longrightarrow> first_some f xs = first_some g xs"
  by (induction xs) (auto split: option.splits)

lemma first_some_filter: "(\<And>x. x \<in> set xs \<Longrightarrow> \<not> P x \<Longrightarrow> f x = None) \<Longrightarrow> first_some f (filter P xs) = first_some f xs"
  by (induction xs) (auto split: option.splits)

text \<open>A part of a \<open>Cookie\<close> header as the reader of cookies sees it once blanks are cut off.\<close>

definition trimmed_part :: "string \<Rightarrow> string \<Rightarrow> string option" where
  "trimmed_part n p = (case cut_at (CHR ''='') p of (m, v, _) \<Rightarrow>
     if trim_ascii m = n \<and> is_token (trim_ascii m) then cookie_value v else None)"

definition kept_parts :: "string \<Rightarrow> string \<Rightarrow> string list" where
  "kept_parts name v = filter (\<lambda>p. fst (cut_at (CHR ''='') (trim_space p)) \<noteq> name) (split_at (CHR '';'') v)"

lemma cookie_part_valid:
  assumes "valid_header_value v" "set p \<subseteq> set v"
  shows "cookie_part n p = trimmed_part n (trim_space p)"
proof -
  have "trim_ascii p = trim_space p"
    using assms by (intro trim_ascii_space) (auto dest: valid_space)
  then show ?thesis by (simp add: cookie_part_def trimmed_part_def)
qed

lemma cookie_parts_valid:
  assumes "valid_header_value v" "\<And>p. p \<in> set ps \<Longrightarrow> set p \<subseteq> set v"
  shows "first_some (cookie_part n) ps = first_some (trimmed_part n) (map trim_space ps)"
  unfolding first_some_map
  by (rule first_some_cong) (use cookie_part_valid assms in blast)

lemma strip_value_set: "set (strip_value name v) \<subseteq> insert (CHR '';'') (set v)"
proof -
  have j: "set (join_with [c] ps) \<subseteq> insert c (\<Union> (set ` set ps))" for c ps
    by (induction "[c]" ps rule: join_with.induct) auto
  have "\<Union> (set ` set (filter Q (split_at c v))) \<subseteq> set v" for Q c
    by (auto dest: split_set)
  with j [of "CHR '';''"] trim_space_set show ?thesis unfolding strip_value_def by blast
qed

lemma split_strip_value:
  assumes "valid_header_value v"
  shows "first_some (cookie_part n) (split_at (CHR '';'') (strip_value name v)) =
    first_some (cookie_part n) (kept_parts name v)"
proof -
  let ?P = "kept_parts name v"
  have s: "\<not> is_space (CHR '';'')" by (simp add: is_space_def)
  have semi: "valid_header_value (CHR '';'' # v)" using assms by (simp add: valid_header_value_def)
  have P: "set p \<subseteq> set v" "CHR '';'' \<notin> set p" if "p \<in> set ?P" for p
    using that split_set split_at_no_sep unfolding kept_parts_def by fastforce+
  have "first_some (cookie_part n) (split_at (CHR '';'') (strip_value name v)) =
      first_some (trimmed_part n) (map trim_space (split_at (CHR '';'') (strip_value name v)))"
    using strip_value_set by (intro cookie_parts_valid [OF semi]) (auto dest!: split_set)
  also have "map trim_space (split_at (CHR '';'') (strip_value name v)) =
      map trim_space (split_at (CHR '';'') (join_with '';'' ?P))"
    unfolding strip_value_def kept_parts_def by (rule split_trim [OF s])
  also have "first_some (trimmed_part n) \<dots> = first_some (trimmed_part n) (map trim_space ?P)"
  proof (cases "?P = []")
    case True
    then show ?thesis by (simp add: trim_space_def trim_left_def trimmed_part_def trim_ascii_def is_token_def)
  next
    case False
    then show ?thesis using P(2) by (simp add: split_join)
  qed
  also have "\<dots> = first_some (cookie_part n) ?P"
    using P(1) by (intro cookie_parts_valid [OF assms, symmetric])
  finally show ?thesis .
qed

lemma strip_cookie_values:
  "strip_cookie h name ''Cookie'' = filter (\<lambda>s. s \<noteq> []) (map (strip_value name) (h ''Cookie''))"
proof -
  have "fold (\<lambda>v h'. hdr_add h' ''Cookie'' v) vs g ''Cookie'' = g ''Cookie'' @ vs" for vs and g :: headers
    by (induction vs arbitrary: g) auto
  then show ?thesis by (simp add: strip_cookie_def Let_def)
qed

lemma strip_cookie_other: "k \<noteq> ''Cookie'' \<Longrightarrow> strip_cookie h name k = h k"
proof -
  assume k: "k \<noteq> ''Cookie''"
  have "fold (\<lambda>v h'. hdr_add h' ''Cookie'' v) vs g k = g k" for vs and g :: headers
    using k by (induction vs arbitrary: g) auto
  with k show ?thesis by (simp add: strip_cookie_def Let_def)
qed

lemma read_stripped:
  assumes "\<forall>v \<in> set vs. valid_header_value v"
  shows "first_some (cookie_part n) (concat (map (split_at (CHR '';'')) (filter (\<lambda>s. s \<noteq> []) (map (strip_value name) vs))))
    = first_some (cookie_part n) (concat (map (kept_parts name) vs))"
  using assms
proof (induction vs)
  case (Cons v vs)
  have e: "first_some (cookie_part n) (split_at (CHR '';'') []) = None"
    by (simp add: cookie_part_def trim_ascii_def is_token_def)
  have "first_some (cookie_part n) (split_at (CHR '';'') (strip_value name v)) =
      first_some (cookie_part n) (kept_parts name v)"
    by (rule split_strip_value) (use Cons.prems in simp)
  with Cons e show ?case by (auto simp: first_some_append simp del: first_some_None split: option.split)
qed simp

definition valid_cookies :: "request \<Rightarrow> bool" where
  "valid_cookies r \<longleftrightarrow> (\<forall>v \<in> set (rq_headers r ''Cookie''). valid_header_value v)"

text \<open>Every part of a \<open>Cookie\<close> header that names the cookie writes the name right before the
  equals sign, as browsers do.\<close>

definition names_unspaced :: "string \<Rightarrow> request \<Rightarrow> bool" where
  "names_unspaced name r \<longleftrightarrow> (\<forall>v \<in> set (rq_headers r ''Cookie''). \<forall>p \<in> set (split_at (CHR '';'') v).
     trim_ascii (fst (cut_at (CHR ''='') (trim_space p))) = name \<longrightarrow>
     fst (cut_at (CHR ''='') (trim_space p)) = name)"

lemma kept_part_none:
  assumes "valid_header_value v" "p \<in> set (kept_parts name v)"
    and "\<forall>p \<in> set (split_at (CHR '';'') v). trim_ascii (fst (cut_at (CHR ''='') (trim_space p))) = name \<longrightarrow>
      fst (cut_at (CHR ''='') (trim_space p)) = name"
  shows "cookie_part name p = None"
proof -
  have p: "p \<in> set (split_at (CHR '';'') v)" "fst (cut_at (CHR ''='') (trim_space p)) \<noteq> name"
    using assms(2) by (auto simp: kept_parts_def)
  then have "trim_ascii (fst (cut_at (CHR ''='') (trim_space p))) \<noteq> name" using assms(3) by blast
  then show ?thesis
    using cookie_part_valid [OF assms(1) split_set [OF p(1)], of name]
    by (simp add: trimmed_part_def case_prod_beta)
qed

lemma dropped_part_none:
  assumes "valid_header_value v" "p \<in> set (split_at (CHR '';'') v)"
    and "fst (cut_at (CHR ''='') (trim_space p)) = name" "trim_ascii name = name" "n \<noteq> name"
  shows "cookie_part n p = None"
  using cookie_part_valid [OF assms(1) split_set [OF assms(2)], of n] assms(3-5)
  by (auto simp: trimmed_part_def case_prod_beta)

lemma first_some_concat_cong:
  "(\<And>v. v \<in> set vs \<Longrightarrow> first_some f (g v) = first_some f (h v)) \<Longrightarrow>
     first_some f (concat (map g vs)) = first_some f (concat (map h vs))"
  by (induction vs) (auto simp: first_some_append simp del: first_some_None split: option.split)

lemma strip_cookie_reads:
  assumes "valid_cookies r" and "names_unspaced name r" and "trim_ascii name = name"
  shows "req_cookie (r\<lparr>rq_headers := strip_cookie (rq_headers r) name\<rparr>) n =
    (if n = name then None else req_cookie r n)"
proof -
  let ?vs = "rq_headers r ''Cookie''"
  have "req_cookie (r\<lparr>rq_headers := strip_cookie (rq_headers r) name\<rparr>) n =
      first_some (cookie_part n) (concat (map (kept_parts name) ?vs))"
    using read_stripped [of ?vs n name] assms(1)
    by (simp add: req_cookie_def strip_cookie_values valid_cookies_def)
  also have "\<dots> = (if n = name then None else req_cookie r n)"
  proof (cases "n = name")
    case True
    then show ?thesis
      using assms(1,2) kept_part_none by (auto simp: valid_cookies_def names_unspaced_def)
  next
    case False
    have "first_some (cookie_part n) (kept_parts name v) = first_some (cookie_part n) (split_at (CHR '';'') v)"
      if "v \<in> set ?vs" for v
      unfolding kept_parts_def
      by (rule first_some_filter) (use that assms(1,3) False dropped_part_none in \<open>auto simp: valid_cookies_def\<close>)
    then show ?thesis using False by (simp add: req_cookie_def cong: first_some_concat_cong)
  qed
  finally show ?thesis .
qed

subsection \<open>What a backend sees\<close>

lemma fold_del_other: "k \<notin> set ks \<Longrightarrow> fold (\<lambda>k h. hdr_del h k) ks h k = h k"
  by (induction ks arbitrary: h) auto

lemma fold_del_gone: "k \<in> set ks \<Longrightarrow> fold (\<lambda>k h. hdr_del h k) ks h k = []"
proof (induction ks arbitrary: h)
  case (Cons x ks)
  show ?case
  proof (cases "k \<in> set ks")
    case True
    then show ?thesis using Cons.IH [of "hdr_del h x"] by (simp del: hdr_del_apply)
  next
    case False
    then have "fold (\<lambda>k h. hdr_del h k) ks (hdr_del h x) k = hdr_del h x k" by (rule fold_del_other)
    moreover have "k = x" using Cons.prems False by simp
    moreover have "hdr_del h x x = []" by simp
    ultimately show ?thesis by (simp del: hdr_del_apply)
  qed
qed simp

lemma rewrite_cookie_header:
  "rq_headers (rewrite hop u preserve r) ''Cookie'' = strip_cookie (hop (rq_headers r)) session_cookie_name ''Cookie''"
  by (simp add: rewrite_def Let_def set_x_forwarded_def strip_cookie_values fold_del_other forwarded_headers_def
      split: option.split)

lemma rewrite_other_header:
  "k \<notin> set (''Cookie'' # forwarded_headers) \<Longrightarrow> rq_headers (rewrite hop u preserve r) k = hop (rq_headers r) k"
  by (auto simp: rewrite_def Let_def set_x_forwarded_def strip_cookie_other forwarded_headers_def
      split: option.split)

lemma req_cookie_cong: "rq_headers r ''Cookie'' = rq_headers r' ''Cookie'' \<Longrightarrow> req_cookie r n = req_cookie r' n"
  by (simp add: req_cookie_def)

text \<open>C19: A backend never sees the portal session: in every request the proxy sends upstream the session
  cookie cannot be read, and every other cookie reads as the client sent it. (The client's request
  has the header values that \<open>net/http\<close> accepts, and writes the cookie's name right before the
  equals sign, as browsers do; the removal of hop-by-hop
  headers leaves the Cookie header alone.)\<close>

theorem rewrite_hides_session:
  assumes "valid_cookies r" and "names_unspaced session_cookie_name r"
    and "hop (rq_headers r) ''Cookie'' = rq_headers r ''Cookie''"
  shows "req_cookie (rewrite hop u preserve r) n = (if n = session_cookie_name then None else req_cookie r n)"
proof -
  have "req_cookie (rewrite hop u preserve r) n =
      req_cookie (r\<lparr>rq_headers := strip_cookie (rq_headers r) session_cookie_name\<rparr>) n"
    by (rule req_cookie_cong) (simp add: rewrite_cookie_header strip_cookie_values assms(3))
  also have "trim_ascii session_cookie_name = session_cookie_name" by code_simp
  note strip_cookie_reads [OF assms(1,2) this, of n]
  finally show ?thesis .
qed

definition sample_request :: "string \<Rightarrow> request" where
  "sample_request c = \<lparr>rq_host = ''app.nas.example:8443'', rq_tls = True, rq_path = ''/x'', rq_query = ''a=1'',
     rq_uri = ''/x?a=1'', rq_headers = no_headers(''Cookie'' := [c], ''X-Forwarded-Proto'' := [''http'']),
     rq_remote = ''10.0.0.7:4321'', rq_form = Some [], rq_vars = (\<lambda>_. []), rq_dest = ([], [])\<rparr>"

definition sample_backend :: url where
  "sample_backend = \<lparr>u_scheme = ''http'', u_host = ''127.0.0.1:18080'', u_path = []\<rparr>"

lemma rewrite_hides_session_witness:
  "req_cookie (rewrite id sample_backend True (sample_request ''theme=dark; nass_session=tok'')) session_cookie_name = None"
proof -
  have "valid_cookies (sample_request ''theme=dark; nass_session=tok'')"
    "names_unspaced session_cookie_name (sample_request ''theme=dark; nass_session=tok'')"
    by code_simp+
  from rewrite_hides_session [OF this, of id] show ?thesis by simp
qed

text \<open>A cookie written with a blank before its equals sign is read by \<open>Request.Cookie\<close> as the session
  cookie but is not recognised by \<open>stripCookie\<close>: the backend receives the session token.\<close>

theorem spaced_cookie_reaches_backend:
  "req_cookie (sample_request ''nass_session =tok'') session_cookie_name = Some ''tok'' \<and>
   req_cookie (rewrite id sample_backend True (sample_request ''nass_session =tok'')) session_cookie_name = Some ''tok''"
  by code_simp

text \<open>The forwarding headers a backend receives are nass's own, whatever the client sent: the scheme
  of the connection nass terminated, the host asked for, and the peer's address alone; the Host header is the
  client's if the app asks for it and the backend's otherwise; and the request goes to the backend.\<close>

theorem forwarded_headers_own:
  "rq_headers (rewrite hop u preserve r) ''X-Forwarded-Proto'' = [if rq_tls r then ''https'' else ''http''] \<and>
   rq_headers (rewrite hop u preserve r) ''X-Forwarded-Host'' = [rq_host r] \<and>
   rq_headers (rewrite hop u preserve r) ''Forwarded'' = [] \<and>
   rq_headers (rewrite hop u preserve r) ''X-Forwarded-For'' =
     (case split_host_port (rq_remote r) of None \<Rightarrow> [] | Some (ip, _) \<Rightarrow> [ip]) \<and>
   rq_host (rewrite hop u preserve r) = (if preserve then rq_host r else u_host u) \<and>
   rq_dest (rewrite hop u preserve r) = (u_scheme u, u_host u)"
  by (auto simp: rewrite_def Let_def set_x_forwarded_def strip_cookie_other fold_del_gone forwarded_headers_def
      proto_scheme_def split: option.split)

end
