(* ===== verification/Nass_Db.thy ===== *)
theory Nass_Db
  imports Nass_Prelude
begin

text \<open>
  The SQLite database: its tables as the migrations declare them (\<^verbatim>\<open>internal/db/migrations\<close>), one
  record per row and one list per table, and the statements the packages run on it. An insertion
  checks the UNIQUE and FOREIGN KEY constraints of its table, a deletion cascades along the
  foreign keys declared \<open>ON DELETE CASCADE\<close>. A TEXT column that holds JSON is a \<open>json\<close> value:
  what \<open>json.Unmarshal\<close> makes of the text. Times are instants in nanoseconds.

  Every statement first asks the driver, whose failures come from the list \<open>w_faults\<close> of the
  world (one Boolean per statement, \<open>True\<close> for a failure), so that the error branches and the
  roll-back of a transaction are behaviours of the model. The clock and the random values drawn
  are also parts of the world. The invariant \<open>db_ok\<close> collects the constraints of the schema.
\<close>

subsection \<open>Rows\<close>

datatype 'a json = Json 'a | EmptyText | BadJson

fun unmarshal :: "'a json \<Rightarrow> 'a option" where
  "unmarshal (Json x) = Some x"
| "unmarshal EmptyText = None"
| "unmarshal BadJson = None"

record user_row =
  usr_id :: int
  usr_name :: string
  usr_email :: "string option"
  usr_hash :: string
  usr_admin :: int
  usr_created :: int
  usr_updated :: int

record app_settings =
  st_subdomain :: string
  st_backend :: string
  st_preserve_host :: bool
  st_oidc_gate :: bool
  st_timeout :: int
  st_display_name :: string
  st_description :: string
  st_icon :: string
  st_compose_file :: string
  st_data_root :: string

definition zero_settings :: app_settings where
  "zero_settings = \<lparr>st_subdomain = [], st_backend = [], st_preserve_host = False, st_oidc_gate = False,
     st_timeout = 0, st_display_name = [], st_description = [], st_icon = [],
     st_compose_file = [], st_data_root = []\<rparr>"

record app_row =
  ap_name :: string
  ap_enabled :: int
  ap_settings :: "app_settings json"
  ap_enabled_at :: "int option"

record client_row =
  cl_id :: string
  cl_app :: string
  cl_secret_hash :: string
  cl_redirects :: "string list json"
  cl_scopes :: "string list json"
  cl_app_type :: string
  cl_auth_method :: string
  cl_grants :: "string list json"
  cl_responses :: "string list json"
  cl_dev :: int

record authreq_row =
  ar_id :: string
  ar_client :: string
  ar_user :: "string option"
  ar_redirect :: string
  ar_state :: string
  ar_nonce :: string
  ar_scopes :: "string list json"
  ar_resp_type :: string
  ar_resp_mode :: string
  ar_challenge :: string
  ar_method :: string
  ar_auth_time :: "int option"
  ar_completed :: int
  ar_expires :: int

record code_row =
  co_code :: string
  co_request :: string
  co_expires :: int

record refresh_row =
  rt_id :: string
  rt_user :: int
  rt_client :: string
  rt_scopes :: "string list json"
  rt_audience :: "string list json"
  rt_auth_time :: int
  rt_expires :: int

record access_row =
  at_id :: string
  at_client :: string
  at_user :: int
  at_refresh :: "string option"
  at_audience :: "string list json"
  at_scopes :: "string list json"
  at_expires :: int

record session_row =
  ss_id :: string
  ss_user :: int
  ss_expires :: int

record database =
  db_users :: "user_row list"
  db_user_seq :: int
  db_apps :: "app_row list"
  db_clients :: "client_row list"
  db_authreqs :: "authreq_row list"
  db_codes :: "code_row list"
  db_refresh :: "refresh_row list"
  db_access :: "access_row list"
  db_sessions :: "session_row list"

definition empty_db :: database where
  "empty_db = \<lparr>db_users = [], db_user_seq = 0, db_apps = [], db_clients = [], db_authreqs = [],
     db_codes = [], db_refresh = [], db_access = [], db_sessions = []\<rparr>"

subsection \<open>The constraints of the schema\<close>

definition user_ids :: "database \<Rightarrow> int set" where
  "user_ids d = usr_id ` set (db_users d)"

definition db_ok :: "database \<Rightarrow> bool" where
  "db_ok d \<longleftrightarrow>
     distinct (map usr_id (db_users d)) \<and> distinct (map usr_name (db_users d)) \<and>
     (\<forall>u \<in> set (db_users d). 0 < usr_id u \<and> usr_id u \<le> db_user_seq d) \<and> 0 \<le> db_user_seq d \<and>
     distinct (map ap_name (db_apps d)) \<and>
     distinct (map cl_id (db_clients d)) \<and> distinct (map cl_app (db_clients d)) \<and>
     cl_app ` set (db_clients d) \<subseteq> ap_name ` set (db_apps d) \<and>
     distinct (map ar_id (db_authreqs d)) \<and>
     distinct (map co_code (db_codes d)) \<and> distinct (map co_request (db_codes d)) \<and>
     co_request ` set (db_codes d) \<subseteq> ar_id ` set (db_authreqs d) \<and>
     distinct (map rt_id (db_refresh d)) \<and> rt_user ` set (db_refresh d) \<subseteq> user_ids d \<and>
     distinct (map at_id (db_access d)) \<and> at_user ` set (db_access d) \<subseteq> user_ids d \<and>
     distinct (map ss_id (db_sessions d)) \<and> ss_user ` set (db_sessions d) \<subseteq> user_ids d"

lemma db_ok_empty: "db_ok empty_db"
  by (simp add: db_ok_def empty_db_def)

subsection \<open>Insertions\<close>

text \<open>\<open>INTEGER PRIMARY KEY AUTOINCREMENT\<close>: the next id is above every id ever used.\<close>

definition ins_user :: "string \<Rightarrow> string option \<Rightarrow> string \<Rightarrow> int \<Rightarrow> int \<Rightarrow> database \<Rightarrow> error + int \<times> database" where
  "ins_user name email hash adm now d =
     (if name \<in> usr_name ` set (db_users d) then Inl DbUnique
      else let i = db_user_seq d + 1 in
        Inr (i, d\<lparr>db_user_seq := i, db_users := db_users d @
          [\<lparr>usr_id = i, usr_name = name, usr_email = email, usr_hash = hash, usr_admin = adm,
            usr_created = now, usr_updated = now\<rparr>]\<rparr>))"

definition ins_client :: "client_row \<Rightarrow> database \<Rightarrow> error + unit \<times> database" where
  "ins_client r d =
     (if cl_id r \<in> cl_id ` set (db_clients d) \<or> cl_app r \<in> cl_app ` set (db_clients d) then Inl DbUnique
      else if cl_app r \<notin> ap_name ` set (db_apps d) then Inl DbForeignKey
      else Inr ((), d\<lparr>db_clients := db_clients d @ [r]\<rparr>))"

definition ins_authreq :: "authreq_row \<Rightarrow> database \<Rightarrow> error + unit \<times> database" where
  "ins_authreq r d =
     (if ar_id r \<in> ar_id ` set (db_authreqs d) then Inl DbUnique
      else Inr ((), d\<lparr>db_authreqs := db_authreqs d @ [r]\<rparr>))"

definition ins_code :: "code_row \<Rightarrow> database \<Rightarrow> error + unit \<times> database" where
  "ins_code r d =
     (if co_code r \<in> co_code ` set (db_codes d) \<or> co_request r \<in> co_request ` set (db_codes d) then Inl DbUnique
      else if co_request r \<notin> ar_id ` set (db_authreqs d) then Inl DbForeignKey
      else Inr ((), d\<lparr>db_codes := db_codes d @ [r]\<rparr>))"

definition ins_refresh :: "refresh_row \<Rightarrow> database \<Rightarrow> error + unit \<times> database" where
  "ins_refresh r d =
     (if rt_id r \<in> rt_id ` set (db_refresh d) then Inl DbUnique
      else if rt_user r \<notin> user_ids d then Inl DbForeignKey
      else Inr ((), d\<lparr>db_refresh := db_refresh d @ [r]\<rparr>))"

definition ins_access :: "access_row \<Rightarrow> database \<Rightarrow> error + unit \<times> database" where
  "ins_access r d =
     (if at_id r \<in> at_id ` set (db_access d) then Inl DbUnique
      else if at_user r \<notin> user_ids d then Inl DbForeignKey
      else Inr ((), d\<lparr>db_access := db_access d @ [r]\<rparr>))"

definition ins_session :: "session_row \<Rightarrow> database \<Rightarrow> error + unit \<times> database" where
  "ins_session r d =
     (if ss_id r \<in> ss_id ` set (db_sessions d) then Inl DbUnique
      else if ss_user r \<notin> user_ids d then Inl DbForeignKey
      else Inr ((), d\<lparr>db_sessions := db_sessions d @ [r]\<rparr>))"

text \<open>\<open>INSERT INTO apps ... ON CONFLICT(name) DO UPDATE SET enabled = 1, ...\<close>: with the settings
  of the statement, or keeping the old ones where it names none (a new row gets the default
  \<open>'{}'\<close>).\<close>

definition upsert_app :: "string \<Rightarrow> app_settings json option \<Rightarrow> int \<Rightarrow> database \<Rightarrow> error + unit \<times> database" where
  "upsert_app name st now d =
     (if name \<in> ap_name ` set (db_apps d) then
        Inr ((), d\<lparr>db_apps := map (\<lambda>a. if ap_name a = name
          then a\<lparr>ap_enabled := 1, ap_settings := (case st of None \<Rightarrow> ap_settings a | Some s \<Rightarrow> s),
                 ap_enabled_at := Some now\<rparr> else a) (db_apps d)\<rparr>)
      else Inr ((), d\<lparr>db_apps := db_apps d @
          [\<lparr>ap_name = name, ap_enabled = 1,
            ap_settings = (case st of None \<Rightarrow> Json zero_settings | Some s \<Rightarrow> s),
            ap_enabled_at = Some now\<rparr>]\<rparr>))"

subsection \<open>Deletions and updates, with the number of rows affected\<close>

definition del_sessions :: "(session_row \<Rightarrow> bool) \<Rightarrow> database \<Rightarrow> error + nat \<times> database" where
  "del_sessions P d =
     Inr (length (filter P (db_sessions d)), d\<lparr>db_sessions := filter (\<lambda>r. \<not> P r) (db_sessions d)\<rparr>)"

definition del_access :: "(access_row \<Rightarrow> bool) \<Rightarrow> database \<Rightarrow> error + nat \<times> database" where
  "del_access P d =
     Inr (length (filter P (db_access d)), d\<lparr>db_access := filter (\<lambda>r. \<not> P r) (db_access d)\<rparr>)"

definition del_refresh :: "(refresh_row \<Rightarrow> bool) \<Rightarrow> database \<Rightarrow> error + nat \<times> database" where
  "del_refresh P d =
     Inr (length (filter P (db_refresh d)), d\<lparr>db_refresh := filter (\<lambda>r. \<not> P r) (db_refresh d)\<rparr>)"

definition del_codes :: "(code_row \<Rightarrow> bool) \<Rightarrow> database \<Rightarrow> error + nat \<times> database" where
  "del_codes P d =
     Inr (length (filter P (db_codes d)), d\<lparr>db_codes := filter (\<lambda>r. \<not> P r) (db_codes d)\<rparr>)"

definition del_authreqs :: "(authreq_row \<Rightarrow> bool) \<Rightarrow> database \<Rightarrow> error + nat \<times> database" where
  "del_authreqs P d =
     (let dead = ar_id ` set (filter P (db_authreqs d)) in
      Inr (length (filter P (db_authreqs d)),
           d\<lparr>db_authreqs := filter (\<lambda>r. \<not> P r) (db_authreqs d),
             db_codes := filter (\<lambda>c. co_request c \<notin> dead) (db_codes d)\<rparr>))"

definition del_clients :: "(client_row \<Rightarrow> bool) \<Rightarrow> database \<Rightarrow> error + nat \<times> database" where
  "del_clients P d =
     Inr (length (filter P (db_clients d)), d\<lparr>db_clients := filter (\<lambda>r. \<not> P r) (db_clients d)\<rparr>)"

definition del_apps :: "(app_row \<Rightarrow> bool) \<Rightarrow> database \<Rightarrow> error + nat \<times> database" where
  "del_apps P d =
     (let dead = ap_name ` set (filter P (db_apps d)) in
      Inr (length (filter P (db_apps d)),
           d\<lparr>db_apps := filter (\<lambda>r. \<not> P r) (db_apps d),
             db_clients := filter (\<lambda>c. cl_app c \<notin> dead) (db_clients d)\<rparr>))"

definition del_users :: "(user_row \<Rightarrow> bool) \<Rightarrow> database \<Rightarrow> error + nat \<times> database" where
  "del_users P d =
     (let dead = usr_id ` set (filter P (db_users d)) in
      Inr (length (filter P (db_users d)),
           d\<lparr>db_users := filter (\<lambda>r. \<not> P r) (db_users d),
             db_sessions := filter (\<lambda>r. ss_user r \<notin> dead) (db_sessions d),
             db_access := filter (\<lambda>r. at_user r \<notin> dead) (db_access d),
             db_refresh := filter (\<lambda>r. rt_user r \<notin> dead) (db_refresh d)\<rparr>))"

definition upd_users :: "(user_row \<Rightarrow> bool) \<Rightarrow> (user_row \<Rightarrow> user_row) \<Rightarrow> database \<Rightarrow> error + nat \<times> database" where
  "upd_users P f d =
     Inr (length (filter P (db_users d)), d\<lparr>db_users := map (\<lambda>u. if P u then f u else u) (db_users d)\<rparr>)"

definition upd_apps :: "(app_row \<Rightarrow> bool) \<Rightarrow> (app_row \<Rightarrow> app_row) \<Rightarrow> database \<Rightarrow> error + nat \<times> database" where
  "upd_apps P f d =
     Inr (length (filter P (db_apps d)), d\<lparr>db_apps := map (\<lambda>u. if P u then f u else u) (db_apps d)\<rparr>)"

definition upd_authreqs :: "(authreq_row \<Rightarrow> bool) \<Rightarrow> (authreq_row \<Rightarrow> authreq_row) \<Rightarrow> database \<Rightarrow> error + nat \<times> database" where
  "upd_authreqs P f d =
     Inr (length (filter P (db_authreqs d)),
          d\<lparr>db_authreqs := map (\<lambda>u. if P u then f u else u) (db_authreqs d)\<rparr>)"

lemmas stmt_defs =
  ins_user_def ins_client_def ins_authreq_def ins_code_def ins_refresh_def ins_access_def ins_session_def
  upsert_app_def del_sessions_def del_access_def del_refresh_def del_codes_def del_authreqs_def
  del_clients_def del_apps_def del_users_def upd_users_def upd_apps_def upd_authreqs_def

end
