(* ===== verification/Nass_World.thy ===== *)
theory Nass_World
  imports Nass_Db
begin

text \<open>
  The world a request runs in (database, driver failures, clock, entropy) and the statements and
  transactions of \<^verbatim>\<open>database/sql\<close> on it. A transaction that fails leaves the database as it was
  (\<open>in_tx_atomic\<close>), and every statement keeps the constraints of the schema (the \<open>stmt_ok\<close> lemmas).
\<close>

subsection \<open>The world\<close>

record world =
  w_db :: database
  w_faults :: "bool list"
  w_clock :: int
  w_rand :: "string list"

definition second :: int where
  "second = 10 ^ 9"

definition pop_fault :: "('r world_scheme, unit) run" where
  "pop_fault w = (case w_faults w of
       [] \<Rightarrow> (Inr (), w)
     | True # fs \<Rightarrow> (Inl DbFault, w\<lparr>w_faults := fs\<rparr>)
     | False # fs \<Rightarrow> (Inr (), w\<lparr>w_faults := fs\<rparr>))"

definition query :: "(database \<Rightarrow> 'a) \<Rightarrow> ('r world_scheme, 'a) run" where
  "query f = bindR pop_fault (\<lambda>_. reading (\<lambda>w. f (w_db w)))"

definition exec :: "(database \<Rightarrow> error + 'a \<times> database) \<Rightarrow> ('r world_scheme, 'a) run" where
  "exec g = bindR pop_fault (\<lambda>_ w. case g (w_db w) of
       Inl e \<Rightarrow> (Inl e, w)
     | Inr (x, d) \<Rightarrow> (Inr x, w\<lparr>w_db := d\<rparr>))"

text \<open>\<open>BeginTx\<close>, the statements, then \<open>Commit\<close> if the body asks for it; every other way out is the
  deferred \<open>Rollback\<close>, which restores the database.\<close>

definition in_tx_if :: "('a \<Rightarrow> bool) \<Rightarrow> ('r world_scheme, 'a) run \<Rightarrow> ('r world_scheme, 'a) run" where
  "in_tx_if commit m = bindR pop_fault (\<lambda>_ w. case m w of
       (Inl e, w1) \<Rightarrow> (Inl e, w1\<lparr>w_db := w_db w\<rparr>)
     | (Inr x, w1) \<Rightarrow>
         (if commit x then (case pop_fault w1 of
              (Inl e, w2) \<Rightarrow> (Inl e, w2\<lparr>w_db := w_db w\<rparr>)
            | (Inr _, w2) \<Rightarrow> (Inr x, w2))
          else (Inr x, w1\<lparr>w_db := w_db w\<rparr>)))"

definition in_tx :: "('r world_scheme, 'a) run \<Rightarrow> ('r world_scheme, 'a) run" where
  "in_tx m = in_tx_if (\<lambda>_. True) m"

definition now :: "('r world_scheme, int) run" where
  "now = reading w_clock"

text \<open>A value from the entropy source: a random token, a UUID or a password salt.\<close>

definition draw :: "('r world_scheme, string) run" where
  "draw w = (case w_rand w of [] \<Rightarrow> (Inl RandFault, w) | x # xs \<Rightarrow> (Inr x, w\<lparr>w_rand := xs\<rparr>))"

lemma now_run [run_simps]: "now w = (Inr (w_clock w), w)"
  by (simp add: now_def run_simps)

lemma pop_fault_none [run_simps]: "w_faults w = [] \<Longrightarrow> pop_fault w = (Inr (), w)"
  by (simp add: pop_fault_def)

lemma pop_fault_cases:
  "pop_fault w = (r, w') \<Longrightarrow> (r = Inr () \<or> r = Inl DbFault) \<and> (\<exists>fs. w' = w\<lparr>w_faults := fs\<rparr>)"
  by (auto simp: pop_fault_def split: list.splits bool.splits intro: exI [of _ "w_faults w"])

lemma query_none [run_simps]: "w_faults w = [] \<Longrightarrow> query f w = (Inr (f (w_db w)), w)"
  by (simp add: query_def run_simps run_eval)

lemma exec_none [run_simps]:
  "w_faults w = [] \<Longrightarrow> exec g w = (case g (w_db w) of Inl e \<Rightarrow> (Inl e, w) | Inr (x, d) \<Rightarrow> (Inr x, w\<lparr>w_db := d\<rparr>))"
  by (simp add: exec_def run_simps run_eval)

lemma pop_fault_obtain:
  obtains r fs where "pop_fault w = (r, w\<lparr>w_faults := fs\<rparr>)" "r = Inr () \<or> r = Inl DbFault"
  by (metis pop_fault_cases surj_pair)

lemma query_InrD: "query f w = (Inr x, w') \<Longrightarrow> f (w_db w) = x \<and> (\<exists>fs. w' = w\<lparr>w_faults := fs\<rparr>)"
  by (rule pop_fault_obtain [of w]) (auto simp: query_def run_simps run_eval)

lemma query_InlD: "query f w = (Inl e, w') \<Longrightarrow> e = DbFault \<and> (\<exists>fs. w' = w\<lparr>w_faults := fs\<rparr>)"
  by (rule pop_fault_obtain [of w]) (auto simp: query_def run_simps run_eval)

lemma exec_InrD:
  "exec g w = (Inr x, w') \<Longrightarrow> \<exists>d fs. g (w_db w) = Inr (x, d) \<and> w' = w\<lparr>w_faults := fs, w_db := d\<rparr>"
  by (rule pop_fault_obtain [of w]; cases "g (w_db w)") (auto simp: exec_def run_simps run_eval)

lemma exec_InlD: "exec g w = (Inl e, w') \<Longrightarrow> \<exists>fs. w' = w\<lparr>w_faults := fs\<rparr>"
  by (rule pop_fault_obtain [of w]; cases "g (w_db w)") (auto simp: exec_def run_simps run_eval)

text \<open>What an operation on the database leaves alone: every field of the world but its own.\<close>

lemma frame_pop_fault [preserves_intro]:
  "(\<And>w fs. g (w\<lparr>w_faults := fs\<rparr>) = g w) \<Longrightarrow> frame g pop_fault"
  unfolding frame_def by (metis pop_fault_cases surjective_pairing)

lemma frame_query [preserves_intro]:
  "(\<And>w fs. g (w\<lparr>w_faults := fs\<rparr>) = g w) \<Longrightarrow> frame g (query f)"
  unfolding query_def by (intro preserves_intro)

lemma frame_now [preserves_intro]: "frame g now"
  unfolding now_def by (intro preserves_intro)

lemma frame_draw [preserves_intro]: "(\<And>w xs. g (w\<lparr>w_rand := xs\<rparr>) = g w) \<Longrightarrow> frame g draw"
  by (auto simp: frame_def draw_def split: list.splits)

lemma frame_exec [preserves_intro]:
  fixes g :: "'w world_scheme \<Rightarrow> 'b"
  assumes "\<And>w fs. g (w\<lparr>w_faults := fs\<rparr>) = g w" "\<And>w d. g (w\<lparr>w_db := d\<rparr>) = g w"
  shows "frame g (exec h)"
  unfolding frame_def
proof
  fix w :: "'w world_scheme"
  obtain r w' where e: "exec h w = (r, w')" by fastforce
  then show "g (snd (exec h w)) = g w"
    using assms by (cases r) (auto dest!: exec_InlD exec_InrD)
qed

text \<open>A transaction that fails changes nothing in the database: the roll-back.\<close>

lemma in_tx_if_atomic:
  assumes "in_tx_if c m w = (Inl e, w')"
  shows "w_db w' = w_db w"
proof -
  obtain r fs where p: "pop_fault w = (r, w\<lparr>w_faults := fs\<rparr>)" "r = Inr () \<or> r = Inl DbFault"
    by (rule pop_fault_obtain)
  obtain r2 w1 where m: "m (w\<lparr>w_faults := fs\<rparr>) = (r2, w1)" by fastforce
  obtain r3 gs where q: "pop_fault w1 = (r3, w1\<lparr>w_faults := gs\<rparr>)" "r3 = Inr () \<or> r3 = Inl DbFault"
    by (rule pop_fault_obtain)
  show ?thesis
    using assms p m q by (cases r2) (auto simp: in_tx_if_def run_eval split: if_splits)
qed

lemma in_tx_atomic: "in_tx m w = (Inl e, w') \<Longrightarrow> w_db w' = w_db w"
  unfolding in_tx_def by (rule in_tx_if_atomic)

lemma in_tx_InrD:
  assumes "in_tx m w = (Inr x, w')"
  shows "\<exists>fs w1 gs. m (w\<lparr>w_faults := fs\<rparr>) = (Inr x, w1) \<and> w' = w1\<lparr>w_faults := gs\<rparr>"
proof -
  obtain r1 w0 where p: "pop_fault w = (r1, w0)" by fastforce
  then obtain fs where fs: "w0 = w\<lparr>w_faults := fs\<rparr>" by (auto dest!: pop_fault_cases)
  obtain r2 w1 where m: "m w0 = (r2, w1)" by fastforce
  obtain r3 w2 where q: "pop_fault w1 = (r3, w2)" by fastforce
  then obtain gs where gs: "w2 = w1\<lparr>w_faults := gs\<rparr>" by (auto dest!: pop_fault_cases)
  have "r2 = Inr x \<and> w' = w2"
    using assms p m q by (auto simp: in_tx_def in_tx_if_def bindR_def split: sum.splits)
  with fs gs m show ?thesis by blast
qed

lemma frame_in_tx_if [preserves_intro]:
  fixes g :: "'w world_scheme \<Rightarrow> 'b"
  assumes g: "\<And>w fs. g (w\<lparr>w_faults := fs\<rparr>) = g w" "\<And>w d. g (w\<lparr>w_db := d\<rparr>) = g w" and m: "frame g m"
  shows "frame g (in_tx_if c m)"
  unfolding frame_def
proof
  fix w :: "'w world_scheme"
  obtain r fs where p: "pop_fault w = (r, w\<lparr>w_faults := fs\<rparr>)" "r = Inr () \<or> r = Inl DbFault"
    by (rule pop_fault_obtain)
  obtain r2 w1 where m': "m (w\<lparr>w_faults := fs\<rparr>) = (r2, w1)" by fastforce
  have w1: "g w1 = g w" using frame_pair [OF m m'] g by simp
  obtain r3 gs where q: "pop_fault w1 = (r3, w1\<lparr>w_faults := gs\<rparr>)" "r3 = Inr () \<or> r3 = Inl DbFault"
    by (rule pop_fault_obtain)
  show "g (snd (in_tx_if c m w)) = g w"
    using p m' q w1 g by (cases r2) (auto simp: in_tx_if_def run_eval)
qed

lemma frame_in_tx [preserves_intro]:
  "(\<And>w fs. g (w\<lparr>w_faults := fs\<rparr>) = g w) \<Longrightarrow> (\<And>w d. g (w\<lparr>w_db := d\<rparr>) = g w) \<Longrightarrow> frame g m \<Longrightarrow>
     frame g (in_tx m)"
  unfolding in_tx_def by (rule frame_in_tx_if)

lemma in_tx_none [run_simps]:
  "w_faults w = [] \<Longrightarrow> in_tx m w = (case m w of
       (Inl e, w1) \<Rightarrow> (Inl e, w1\<lparr>w_db := w_db w\<rparr>)
     | (Inr x, w1) \<Rightarrow> (case pop_fault w1 of
              (Inl e, w2) \<Rightarrow> (Inl e, w2\<lparr>w_db := w_db w\<rparr>)
            | (Inr _, w2) \<Rightarrow> (Inr x, w2)))"
  by (simp add: in_tx_def in_tx_if_def run_simps run_eval cong: prod.case_cong sum.case_cong)

subsection \<open>Statements keep the constraints of the schema\<close>

definition stmt_ok :: "(database \<Rightarrow> error + 'a \<times> database) \<Rightarrow> bool" where
  "stmt_ok g \<longleftrightarrow> (\<forall>d x d'. db_ok d \<longrightarrow> g d = Inr (x, d') \<longrightarrow> db_ok d')"

definition world_ok :: "'r world_scheme \<Rightarrow> bool" where
  "world_ok w \<longleftrightarrow> db_ok (w_db w)"

lemma world_ok_simps [simp]:
  "world_ok (w\<lparr>w_faults := fs\<rparr>) = world_ok w" "world_ok (w\<lparr>w_rand := rs\<rparr>) = world_ok w"
  "world_ok (w\<lparr>w_clock := t\<rparr>) = world_ok w" "world_ok (w\<lparr>w_db := d\<rparr>) = db_ok d"
  by (simp_all add: world_ok_def)

lemma preserves_pop_fault [preserves_intro]: "preserves world_ok pop_fault"
  by (auto simp: preserves_def pop_fault_def split: list.splits bool.splits)

lemma preserves_query [preserves_intro]: "preserves world_ok (query f)"
  unfolding query_def by (intro preserves_intro)

lemma preserves_now [preserves_intro]: "preserves world_ok now"
  unfolding now_def by (intro preserves_intro)

lemma preserves_draw [preserves_intro]: "preserves world_ok draw"
  by (auto simp: preserves_def draw_def split: list.splits)

lemma preserves_exec [preserves_intro]:
  assumes "stmt_ok g"
  shows "preserves world_ok (exec g)"
proof -
  have "preserves world_ok (\<lambda>w :: 'r world_scheme. case g (w_db w) of
      Inl e \<Rightarrow> (Inl e, w) | Inr (x, d) \<Rightarrow> (Inr x, w\<lparr>w_db := d\<rparr>))"
    using assms by (auto simp: preserves_def stmt_ok_def world_ok_def split: sum.splits)
  then show ?thesis unfolding exec_def by (intro preserves_intro)
qed

lemma preserves_in_tx_if [preserves_intro]:
  assumes "preserves world_ok m"
  shows "preserves world_ok (in_tx_if c m)"
  unfolding preserves_def
proof (intro allI impI)
  fix w :: "'a world_scheme"
  assume w: "world_ok w"
  obtain r1 w1 where p: "pop_fault w = (r1, w1)" by fastforce
  with w have w1: "world_ok w1" "w_db w1 = w_db w" by (auto dest!: pop_fault_cases)
  obtain r2 w2 where m: "m w1 = (r2, w2)" by fastforce
  with assms w1 have w2: "world_ok w2" by (auto dest: preserves_pair)
  obtain r3 w3 where q: "pop_fault w2 = (r3, w3)" by fastforce
  with w2 have w3: "world_ok w3" by (auto dest!: pop_fault_cases)
  show "world_ok (snd (in_tx_if c m w))"
    using p m q w w1 w2 w3
    by (auto simp: in_tx_if_def bindR_def world_ok_def split: sum.splits)
qed

lemma preserves_in_tx [preserves_intro]: "preserves world_ok m \<Longrightarrow> preserves world_ok (in_tx m)"
  unfolding in_tx_def by (rule preserves_in_tx_if)

lemma image_cascade:
  "f ` A \<subseteq> g ` B \<Longrightarrow> f ` {a \<in> A. f a \<notin> g ` {b \<in> B. P b}} \<subseteq> g ` {b \<in> B. \<not> P b}"
  by blast

lemma image_Collect_subset: "f ` A \<subseteq> S \<Longrightarrow> f ` {a \<in> A. P a} \<subseteq> S"
  by blast

lemma distinct_filter_keys [simp]: "distinct (map f xs) \<Longrightarrow> distinct (map f (filter P xs))"
  by (rule distinct_filter_map)

lemmas stmt_ok_simps = stmt_ok_def db_ok_def user_ids_def Let_def image_cascade image_Collect_subset subset_insertI2

lemma ins_user_ok [preserves_intro]: "stmt_ok (ins_user n e h a t)"
  unfolding stmt_ok_def
proof (intro allI impI)
  fix d x d'
  assume ok: "db_ok d" and i: "ins_user n e h a t d = Inr (x, d')"
  have "\<forall>u \<in> set (db_users d). usr_id u \<le> db_user_seq d" using ok by (simp add: db_ok_def)
  then have new: "db_user_seq d + 1 \<notin> usr_id ` set (db_users d)" by auto
  define u where "u = \<lparr>usr_id = db_user_seq d + 1, usr_name = n, usr_email = e, usr_hash = h, usr_admin = a,
    usr_created = t, usr_updated = t\<rparr>"
  have u: "usr_id u = db_user_seq d + 1" "usr_name u \<notin> usr_name ` set (db_users d)"
      "d' = d\<lparr>db_user_seq := db_user_seq d + 1, db_users := db_users d @ [u]\<rparr>"
    using i by (auto simp: ins_user_def Let_def u_def split: if_splits)
  show "db_ok d'"
    using ok new u(1,2) unfolding u(3) db_ok_def user_ids_def by (simp add: image_iff subset_insertI2) fastforce
qed

lemma ins_ok [preserves_intro]:
  "stmt_ok (ins_client c)" "stmt_ok (ins_authreq a)" "stmt_ok (ins_code k)"
  "stmt_ok (ins_refresh r)" "stmt_ok (ins_access x)" "stmt_ok (ins_session s)"
  by (simp_all add: stmt_defs stmt_ok_simps split: if_splits)

lemma upd_keys:
  assumes "\<And>u. key (f u) = key u"
  shows "map key (map (\<lambda>u. if P u then f u else u) xs) = map key xs"
    "key ` (\<lambda>u. if P u then f u else u) ` S = key ` S"
proof -
  have k: "key (if P u then f u else u) = key u" for u by (simp add: assms)
  show "map key (map (\<lambda>u. if P u then f u else u) xs) = map key xs"
    by (simp add: k del: if_image_distrib)
  show "key ` (\<lambda>u. if P u then f u else u) ` S = key ` S"
    by (simp only: image_image k)
qed

lemma upsert_app_ok [preserves_intro]: "stmt_ok (upsert_app n st t)"
  by (simp add: upsert_app_def stmt_ok_simps upd_keys [where key = ap_name] del: map_map if_image_distrib
      split: if_splits)

lemma del_plain_ok [preserves_intro]:
  "stmt_ok (del_sessions P1)" "stmt_ok (del_access P2)" "stmt_ok (del_refresh P3)"
  "stmt_ok (del_codes P4)" "stmt_ok (del_clients P5)"
  by (simp_all add: stmt_defs stmt_ok_simps)

lemma del_authreqs_ok [preserves_intro]: "stmt_ok (del_authreqs P)"
  by (simp add: del_authreqs_def stmt_ok_simps)

lemma del_apps_ok [preserves_intro]: "stmt_ok (del_apps P)"
  by (simp add: del_apps_def stmt_ok_simps)

lemma del_users_ok [preserves_intro]: "stmt_ok (del_users P)"
  by (simp add: del_users_def stmt_ok_simps)

lemma upd_users_ok:
  assumes "\<And>u. usr_id (f u) = usr_id u" "\<And>u. usr_name (f u) = usr_name u"
  shows "stmt_ok (upd_users P f)"
  by (simp add: upd_users_def stmt_ok_simps upd_keys [where key = usr_id, OF assms(1)]
      upd_keys [where key = usr_name, OF assms(2)] assms del: map_map if_image_distrib)

lemma upd_apps_ok:
  assumes "\<And>u. ap_name (f u) = ap_name u"
  shows "stmt_ok (upd_apps P f)"
  by (simp add: upd_apps_def stmt_ok_simps upd_keys [where key = ap_name, OF assms]
      del: map_map if_image_distrib)

lemma upd_authreqs_ok:
  assumes "\<And>u. ar_id (f u) = ar_id u"
  shows "stmt_ok (upd_authreqs P f)"
  by (simp add: upd_authreqs_def stmt_ok_simps upd_keys [where key = ar_id, OF assms]
      del: map_map if_image_distrib)

end
