(* ===== verification/Proxy_Manager.thy ===== *)
theory Proxy_Manager
  imports Proxy_Server Nass_World
begin

text \<open>
  App routes: reading the enabled apps and building their handlers (\<^verbatim>\<open>internal/proxy/apps.go\<close>) and
  the manager that keeps the live router in step with the apps table
  (\<^verbatim>\<open>internal/proxy/manager.go\<close>). A Go map that is only iterated is an association list in the
  order of the iteration; \<open>sync_order_independent\<close> shows that the order does not matter. \<open>first_ok\<close>
  is the specification of a synchronisation: the app that gets a host is the first by name whose
  row is valid. The locale \<open>host_router\<close> is the part of the server the manager relies on.
\<close>

subsection \<open>Apps and their routes\<close>

record app_route =
  rte_name :: string
  rte_host :: string
  rte_settings :: app_settings

definition resolve_row :: "string \<Rightarrow> app_row \<Rightarrow> error + app_route" where
  "resolve_row base a =
     (case (case ap_settings a of
              EmptyText \<Rightarrow> Inr zero_settings
            | Json s \<Rightarrow> Inr s
            | BadJson \<Rightarrow> Inl (Wrap (''app '' @ ap_name a @ '': decode settings'') (Msg ''invalid JSON''))) of
        Inl e \<Rightarrow> Inl e
      | Inr s \<Rightarrow>
          if st_subdomain s = [] then Inl (Msg (''app '' @ ap_name a @ '': subdomain empty (run `nass app enable '' @
            ap_name a @ '' --subdomain X --backend Y`)''))
          else if st_backend s = [] then Inl (Msg (''app '' @ ap_name a @ '': backend empty''))
          else Inr \<lparr>rte_name = ap_name a, rte_host = to_lower (st_subdomain s @ ''.'' @ base), rte_settings = s\<rparr>)"

fun resolve_rows :: "string \<Rightarrow> app_row list \<Rightarrow> app_route list \<times> error list" where
  "resolve_rows base [] = ([], [])"
| "resolve_rows base (a # as) =
     (case resolve_rows base as of (rs, es) \<Rightarrow>
       (case resolve_row base a of Inl e \<Rightarrow> (rs, e # es) | Inr r \<Rightarrow> (r # rs, es)))"

definition load_enabled_parts :: "string \<Rightarrow> ('r world_scheme, app_route list \<times> error list) run" where
  "load_enabled_parts base =
     bindR (query (\<lambda>d. sort_key ap_name (filter (\<lambda>a. ap_enabled a = 1) (db_apps d)))) (\<lambda>rows.
     ret (resolve_rows base rows))"

definition load_enabled :: "string \<Rightarrow> ('r world_scheme, app_route list \<times> error option) run" where
  "load_enabled base = bindR (load_enabled_parts base) (\<lambda>(routes, problems).
     ret (routes, if problems = [] then None else Some (Joined problems)))"

definition save_settings :: "string \<Rightarrow> app_settings \<Rightarrow> ('r world_scheme, unit) run" where
  "save_settings name s = bindR now (\<lambda>t. exec (upsert_app name (Some (Json s)) t))"

definition parse_backend :: "(string \<Rightarrow> string option) \<Rightarrow> string \<Rightarrow> error + url" where
  "parse_backend ip6 raw =
     (if raw = [] then Inl (Msg ''backend empty'')
      else (case url_parse ip6 raw of
          None \<Rightarrow> Inl (Msg (''parse '' @ raw))
        | Some u \<Rightarrow>
            if u_scheme u = [] \<or> u_host u = [] then Inl (Msg (''backend '' @ raw @ '': missing scheme or host''))
            else Inr u))"

definition handler_for :: "(string \<Rightarrow> string option) \<Rightarrow> (headers \<Rightarrow> headers) \<Rightarrow>
    ('w handler \<Rightarrow> 'w handler) option \<Rightarrow> app_route \<Rightarrow> error + 'w handler" where
  "handler_for ip6 hop gate r =
     (case parse_backend ip6 (st_backend (rte_settings r)) of
        Inl e \<Rightarrow> Inl (Wrap (''app '' @ rte_name r) e)
      | Inr u \<Rightarrow>
          (case new_reverse_proxy hop \<lparr>bo_backend = Some u, bo_flush = 0, bo_max_idle = 0,
              bo_timeout = (if 0 < st_timeout (rte_settings r) then st_timeout (rte_settings r) * second else 0),
              bo_preserve = st_preserve_host (rte_settings r)\<rparr> of
             Inl e \<Rightarrow> Inl e
           | Inr h \<Rightarrow>
               if st_oidc_gate (rte_settings r) then
                 (case gate of
                    None \<Rightarrow> Inl (Msg (''app '' @ rte_name r @ '': oidc_gate=true but no Gate is wired (phase 4)''))
                  | Some wrap \<Rightarrow> Inr (wrap h))
               else Inr h))"

subsection \<open>The manager\<close>

record route_manager =
  rm_base :: string
  rm_app_hosts :: "(string \<times> string) list"
  rm_reserved :: "string set"

definition new_route_manager :: "string \<Rightarrow> route_manager" where
  "new_route_manager base = \<lparr>rm_base = base, rm_app_hosts = [], rm_reserved = {}\<rparr>"

definition rm_reserve :: "string list \<Rightarrow> route_manager \<Rightarrow> route_manager" where
  "rm_reserve hosts m = fold (\<lambda>h m. m\<lparr>rm_reserved := insert (to_lower h) (rm_reserved m)\<rparr>) hosts m"

record 'h claims =
  cm_claimed :: "(string \<times> string) list"
  cm_desired :: "(string \<times> string \<times> 'h) list"
  cm_problems :: "error list"

definition put_entry :: "'k \<Rightarrow> 'v \<Rightarrow> ('k \<times> 'v) list \<Rightarrow> ('k \<times> 'v) list" where
  "put_entry k v xs = filter (\<lambda>p. fst p \<noteq> k) xs @ [(k, v)]"

definition claim_route :: "(app_route \<Rightarrow> error + 'h) \<Rightarrow> string set \<Rightarrow> app_route \<Rightarrow> 'h claims \<Rightarrow> 'h claims" where
  "claim_route mk reserved r c =
     (if rte_host r \<in> reserved then
        c\<lparr>cm_problems := cm_problems c @ [Msg (''app '' @ rte_name r @ '': host '' @ rte_host r @
          '' is reserved for nass itself; choose another subdomain'')]\<rparr>
      else case map_of (cm_claimed c) (rte_host r) of
        Some other \<Rightarrow> c\<lparr>cm_problems := cm_problems c @ [Msg (''app '' @ rte_name r @ '': host '' @ rte_host r @
          '' is already used by app '' @ other)]\<rparr>
      | None \<Rightarrow>
          (case mk r of
             Inl e \<Rightarrow> c\<lparr>cm_problems := cm_problems c @ [e]\<rparr>
           | Inr h \<Rightarrow> c\<lparr>cm_claimed := put_entry (rte_host r) (rte_name r) (cm_claimed c),
                        cm_desired := put_entry (rte_name r) (rte_host r, h) (cm_desired c)\<rparr>))"

definition claim_routes :: "(app_route \<Rightarrow> error + 'h) \<Rightarrow> string set \<Rightarrow> app_route list \<Rightarrow> error list \<Rightarrow> 'h claims" where
  "claim_routes mk reserved routes problems =
     fold (claim_route mk reserved) routes \<lparr>cm_claimed = [], cm_desired = [], cm_problems = problems\<rparr>"

definition sync_with :: "(app_route \<Rightarrow> error + 'h) \<Rightarrow> app_route list \<Rightarrow> error list \<Rightarrow> route_manager \<Rightarrow> 'h server \<Rightarrow>
    error list \<times> route_manager \<times> 'h server" where
  "sync_with mk routes problems m sv =
     (let c = claim_routes mk (rm_reserved m) routes problems;
          sv1 = fold (\<lambda>old s. if map_of (cm_claimed c) old = None then snd (remove_route old s) else s)
                  (map snd (rm_app_hosts m)) sv;
          sv2 = fold (\<lambda>(host, h) s. add_route host h s) (map snd (cm_desired c)) sv1
      in (cm_problems c, m\<lparr>rm_app_hosts := map (\<lambda>(n, host, _). (n, host)) (cm_desired c)\<rparr>, sv2))"

definition rm_sync :: "(string \<Rightarrow> string option) \<Rightarrow> (headers \<Rightarrow> headers) \<Rightarrow> ('w handler \<Rightarrow> 'w handler) option \<Rightarrow>
    route_manager \<Rightarrow> 'w handler server \<Rightarrow> ('r world_scheme, error list \<times> route_manager \<times> 'w handler server) run" where
  "rm_sync ip6 hop gate m sv = bindR (load_enabled_parts (rm_base m)) (\<lambda>(routes, problems).
     ret (sync_with (handler_for ip6 hop gate) routes problems m sv))"

definition managed_hosts :: "route_manager \<Rightarrow> string list" where
  "managed_hosts m = map snd (rm_app_hosts m)"

subsection \<open>The interface of the router\<close>

locale host_router =
  fixes add :: "string \<Rightarrow> 'h \<Rightarrow> 's \<Rightarrow> 's"
    and remove :: "string \<Rightarrow> 's \<Rightarrow> 's"
    and route :: "'s \<Rightarrow> string \<Rightarrow> 'h option"
    and norm :: "string \<Rightarrow> string"
  assumes route_add: "route (add k h s) k' = (if k' = norm k then Some h else route s k')"
    and route_remove: "route (remove k s) k' = (if k' = norm k then None else route s k')"
begin

lemma route_adds:
  assumes "\<forall>k \<in> fst ` set kvs. norm k = k" "distinct (map fst kvs)"
  shows "route (fold (\<lambda>(k, h) s. add k h s) kvs s) k' =
    (case map_of kvs k' of Some h \<Rightarrow> Some h | None \<Rightarrow> route s k')"
  using assms
proof (induction kvs arbitrary: s)
  case (Cons kv kvs)
  obtain k h where kv: "kv = (k, h)" by fastforce
  have "norm k = k" "map_of kvs k = None"
    using Cons.prems kv by (simp_all add: map_of_eq_None_iff)
  moreover have "route (fold (\<lambda>(k, h) s. add k h s) kvs (add k h s)) k' =
      (case map_of kvs k' of Some h \<Rightarrow> Some h | None \<Rightarrow> route (add k h s) k')"
    using Cons.prems by (intro Cons.IH) simp_all
  ultimately show ?case
    by (cases "k' = k") (simp_all add: kv route_add split: option.split)
qed simp

lemma route_removes:
  assumes "\<forall>k \<in> set ks. norm k = k"
  shows "route (fold (\<lambda>k s. if P k then remove k s else s) ks s) k' =
    (if k' \<in> set ks \<and> P k' then None else route s k')"
  using assms by (induction ks arbitrary: s) (auto simp: route_remove)

end

interpretation router: host_router add_route "\<lambda>k s. snd (remove_route k s)" sv_routes to_lower
  by unfold_locales (auto simp: add_route_def remove_route_def)

subsection \<open>The specification of a synchronisation\<close>

definition eligible :: "(app_route \<Rightarrow> error + 'h) \<Rightarrow> string set \<Rightarrow> app_route \<Rightarrow> bool" where
  "eligible mk reserved r \<longleftrightarrow> rte_host r \<notin> reserved \<and> \<not> isl (mk r)"

definition first_ok :: "(app_route \<Rightarrow> error + 'h) \<Rightarrow> string set \<Rightarrow> app_route list \<Rightarrow> string \<Rightarrow> app_route option" where
  "first_ok mk reserved routes host = find (\<lambda>r. rte_host r = host \<and> eligible mk reserved r) routes"

definition desired_routes :: "'h claims \<Rightarrow> (string \<times> 'h) list" where
  "desired_routes c = map snd (cm_desired c)"

lemma find_append: "find P (xs @ ys) = (case find P xs of None \<Rightarrow> find P ys | Some x \<Rightarrow> Some x)"
  by (induction xs) auto

lemma first_ok_append:
  "first_ok mk reserved (rs @ [r]) host = (case first_ok mk reserved rs host of
     Some x \<Rightarrow> Some x | None \<Rightarrow> if rte_host r = host \<and> eligible mk reserved r then Some r else None)"
  by (auto simp: first_ok_def find_append split: option.split)

lemma first_okD:
  "first_ok mk reserved rs host = Some r \<Longrightarrow> r \<in> set rs \<and> rte_host r = host \<and> eligible mk reserved r"
  by (auto simp: first_ok_def find_Some_iff)

lemma put_entry_fresh: "k \<notin> fst ` set xs \<Longrightarrow> put_entry k v xs = xs @ [(k, v)]"
  by (auto simp: put_entry_def filter_id_conv intro!: filter_True)

definition claims_inv :: "(app_route \<Rightarrow> error + 'h) \<Rightarrow> string set \<Rightarrow> error list \<Rightarrow> app_route list \<Rightarrow> 'h claims \<Rightarrow> bool" where
  "claims_inv mk reserved ps rs c \<longleftrightarrow>
     (\<forall>h. map_of (cm_claimed c) h = map_option rte_name (first_ok mk reserved rs h)) \<and>
     (\<forall>h. map_of (desired_routes c) h = map_option (\<lambda>r. projr (mk r)) (first_ok mk reserved rs h)) \<and>
     (\<forall>n h x. (n, h, x) \<in> set (cm_desired c) \<longrightarrow> (\<exists>r. first_ok mk reserved rs h = Some r \<and> rte_name r = n)) \<and>
     distinct (map fst (desired_routes c)) \<and>
     length (cm_problems c) + length (cm_desired c) = length ps + length rs"

lemma claim_inv_step:
  assumes inv: "claims_inv mk reserved ps rs c" and new: "rte_name r \<notin> rte_name ` set rs"
  shows "claims_inv mk reserved ps (rs @ [r]) (claim_route mk reserved r c)"
proof -
  have claimed: "map_of (cm_claimed c) h = map_option rte_name (first_ok mk reserved rs h)"
    and desired: "map_of (desired_routes c) h = map_option (\<lambda>r. projr (mk r)) (first_ok mk reserved rs h)"
    and names: "(n, h, x) \<in> set (cm_desired c) \<Longrightarrow> \<exists>r. first_ok mk reserved rs h = Some r \<and> rte_name r = n"
    and dist: "distinct (map fst (desired_routes c))"
    and len: "length (cm_problems c) + length (cm_desired c) = length ps + length rs" for h n x
    using inv unfolding claims_inv_def by blast+
  have fresh: "rte_name r \<notin> fst ` set (cm_desired c)"
  proof
    assume "rte_name r \<in> fst ` set (cm_desired c)"
    then obtain h x where "(rte_name r, h, x) \<in> set (cm_desired c)" by auto
    from names [OF this] new show False by (metis first_okD imageI)
  qed
  show ?thesis
  proof (cases "first_ok mk reserved rs (rte_host r) = None \<and> eligible mk reserved r")
    case True
    then obtain h where h: "mk r = Inr h" "rte_host r \<notin> reserved"
      by (cases "mk r") (auto simp: eligible_def)
    have keys: "rte_host r \<notin> fst ` set (cm_claimed c)" "rte_host r \<notin> fst ` set (desired_routes c)"
      using claimed [of "rte_host r"] desired [of "rte_host r"] True by (simp_all add: map_of_eq_None_iff)
    have c: "claim_route mk reserved r c = c\<lparr>cm_claimed := cm_claimed c @ [(rte_host r, rte_name r)],
        cm_desired := cm_desired c @ [(rte_name r, rte_host r, h)]\<rparr>"
      using h keys(1) fresh claimed [of "rte_host r"] True by (simp add: claim_route_def put_entry_fresh)
    show ?thesis
      unfolding c claims_inv_def
      using claimed desired dist len True h keys(2)
      by (auto simp: first_ok_append map_add_def desired_routes_def split: option.splits dest!: names)
  next
    case False
    then have same: "first_ok mk reserved (rs @ [r]) = first_ok mk reserved rs"
      by (auto simp: first_ok_append fun_eq_iff split: option.split)
    have "\<exists>e. claim_route mk reserved r c = c\<lparr>cm_problems := cm_problems c @ [e]\<rparr>"
      using False claimed [of "rte_host r"]
      by (cases "mk r") (auto simp: claim_route_def eligible_def split: option.splits)
    then show ?thesis
      using claimed desired dist len unfolding claims_inv_def same by (auto simp: desired_routes_def dest!: names)
  qed
qed

lemma claim_routes_spec:
  "distinct (map rte_name rs) \<Longrightarrow> claims_inv mk reserved ps rs (claim_routes mk reserved rs ps)"
proof (induction rs rule: rev_induct)
  case Nil
  then show ?case by (simp add: claims_inv_def claim_routes_def first_ok_def desired_routes_def)
next
  case (snoc r rs)
  then show ?case by (simp add: claim_routes_def claim_inv_step)
qed

subsection \<open>A synchronisation meets it\<close>

definition rm_inv :: "route_manager \<Rightarrow> bool" where
  "rm_inv m \<longleftrightarrow> (\<forall>h \<in> set (managed_hosts m). to_lower h = h \<and> h \<notin> rm_reserved m)"

definition enabled_rows :: "database \<Rightarrow> app_row list" where
  "enabled_rows d = sort_key ap_name (filter (\<lambda>a. ap_enabled a = 1) (db_apps d))"

definition enabled_routes :: "string \<Rightarrow> database \<Rightarrow> app_route list" where
  "enabled_routes base d = fst (resolve_rows base (enabled_rows d))"

lemma resolve_row_Inr:
  "resolve_row base a = Inr r \<Longrightarrow> rte_name r = ap_name a \<and> to_lower (rte_host r) = rte_host r"
  by (auto simp: resolve_row_def split: json.splits if_splits)

lemma resolve_rows_in:
  "r \<in> set (fst (resolve_rows base as)) \<longleftrightarrow> (\<exists>a \<in> set as. resolve_row base a = Inr r)"
  by (induction as) (auto split: prod.splits sum.splits)

lemma resolve_rows_length:
  "length (fst (resolve_rows base as)) + length (snd (resolve_rows base as)) = length as"
  by (induction as) (auto split: prod.splits sum.splits)

lemma resolve_rows_distinct:
  "distinct (map ap_name as) \<Longrightarrow> distinct (map rte_name (fst (resolve_rows base as)))"
proof (induction as)
  case (Cons a as)
  have "rte_name r \<notin> rte_name ` set (fst (resolve_rows base as))" if "resolve_row base a = Inr r" for r
    using Cons.prems resolve_row_Inr that by (force simp: resolve_rows_in)
  with Cons show ?case by (auto split: prod.splits sum.splits)
qed simp

lemma enabled_routes_ok:
  assumes "db_ok d"
  shows "distinct (map rte_name (enabled_routes base d))"
    "\<forall>r \<in> set (enabled_routes base d). to_lower (rte_host r) = rte_host r"
proof -
  have "distinct (map ap_name (filter (\<lambda>a. ap_enabled a = 1) (db_apps d)))"
    using assms by (auto simp: db_ok_def)
  then have "distinct (map ap_name (enabled_rows d))"
    by (simp add: enabled_rows_def distinct_map inj_on_def)
  then show "distinct (map rte_name (enabled_routes base d))"
    unfolding enabled_routes_def by (rule resolve_rows_distinct)
  show "\<forall>r \<in> set (enabled_routes base d). to_lower (rte_host r) = rte_host r"
    by (auto simp: enabled_routes_def resolve_rows_in dest: resolve_row_Inr)
qed

lemma sync_with_spec:
  assumes s: "sync_with mk rs ps m sv = (probs, m', sv')"
    and rs: "distinct (map rte_name rs)" "\<forall>r \<in> set rs. to_lower (rte_host r) = rte_host r"
    and m: "\<forall>h \<in> set (managed_hosts m). to_lower h = h"
  shows "sv_routes sv' h = (case first_ok mk (rm_reserved m) rs h of
      Some r \<Rightarrow> Some (projr (mk r))
    | None \<Rightarrow> if h \<in> set (managed_hosts m) then None else sv_routes sv h)"
    and "set (managed_hosts m') = {h. first_ok mk (rm_reserved m) rs h \<noteq> None}"
    and "rm_reserved m' = rm_reserved m" "rm_base m' = rm_base m"
    and "length probs + length (managed_hosts m') = length ps + length rs"
proof -
  let ?c = "claim_routes mk (rm_reserved m) rs ps" and ?f = "first_ok mk (rm_reserved m) rs"
  have inv: "claims_inv mk (rm_reserved m) ps rs ?c" using rs(1) by (rule claim_routes_spec)
  have claimed: "map_of (cm_claimed ?c) h = map_option rte_name (?f h)"
    and desired: "map_of (desired_routes ?c) h = map_option (\<lambda>r. projr (mk r)) (?f h)"
    and dist: "distinct (map fst (desired_routes ?c))"
    and len: "length (cm_problems ?c) + length (cm_desired ?c) = length ps + length rs" for h
    using inv unfolding claims_inv_def by blast+
  have keys: "fst ` set (desired_routes ?c) = {h. ?f h \<noteq> None}"
    using desired by (auto simp: map_of_eq_None_iff [symmetric] simp flip: dom_map_of_conv_image_fst)
  then have low: "\<forall>k \<in> fst ` set (desired_routes ?c). to_lower k = k"
    using rs(2) by (auto dest: first_okD)
  have mh: "managed_hosts m' = map fst (desired_routes ?c)"
    using s by (auto simp: sync_with_def Let_def managed_hosts_def desired_routes_def)
  show "set (managed_hosts m') = {h. ?f h \<noteq> None}" using keys by (simp add: mh)
  show "rm_reserved m' = rm_reserved m" "rm_base m' = rm_base m"
    using s by (auto simp: sync_with_def Let_def)
  show "length probs + length (managed_hosts m') = length ps + length rs"
    using s len mh by (auto simp: sync_with_def Let_def desired_routes_def)
  have "sv' = fold (\<lambda>(host, h) s. add_route host h s) (desired_routes ?c)
      (fold (\<lambda>old s. if map_of (cm_claimed ?c) old = None then snd (remove_route old s) else s) (managed_hosts m) sv)"
    using s by (auto simp: sync_with_def Let_def managed_hosts_def desired_routes_def)
  then show "sv_routes sv' h = (case ?f h of Some r \<Rightarrow> Some (projr (mk r))
    | None \<Rightarrow> if h \<in> set (managed_hosts m) then None else sv_routes sv h)"
    using router.route_adds [OF low dist, of _ h] desired [of h] claimed [of h]
      router.route_removes [OF m, of "\<lambda>old. map_of (cm_claimed ?c) old = None" sv h]
    by (simp split: option.split)
qed

lemma rm_sync_Inr:
  assumes "rm_sync ip6 hop gate m sv w = (Inr (probs, m', sv'), w')"
  shows "sync_with (handler_for ip6 hop gate) (enabled_routes (rm_base m) (w_db w))
      (snd (resolve_rows (rm_base m) (enabled_rows (w_db w)))) m sv = (probs, m', sv') \<and> w_db w' = w_db w"
  using assms
  by (auto simp: rm_sync_def load_enabled_parts_def bindR_Inr_iff ret_run enabled_routes_def enabled_rows_def
      case_prod_beta dest!: query_InrD)

lemma rm_sync_spec:
  assumes s: "rm_sync ip6 hop gate m sv w = (Inr (probs, m', sv'), w')" and "world_ok w" "rm_inv m"
  shows "sv_routes sv' h = (case first_ok (handler_for ip6 hop gate) (rm_reserved m) (enabled_routes (rm_base m) (w_db w)) h of
      Some r \<Rightarrow> Some (projr (handler_for ip6 hop gate r))
    | None \<Rightarrow> if h \<in> set (managed_hosts m) then None else sv_routes sv h)"
    and "set (managed_hosts m') =
      {h. first_ok (handler_for ip6 hop gate) (rm_reserved m) (enabled_routes (rm_base m) (w_db w)) h \<noteq> None}"
    and "rm_reserved m' = rm_reserved m" "rm_base m' = rm_base m" "w_db w' = w_db w" "rm_inv m'"
    and "length probs + length (managed_hosts m') = length (enabled_rows (w_db w))"
proof -
  have ok: "db_ok (w_db w)" using assms(2) by (simp add: world_ok_def)
  have low: "\<forall>h \<in> set (managed_hosts m). to_lower h = h" using assms(3) by (auto simp: rm_inv_def)
  note spec = sync_with_spec [OF conjunct1 [OF rm_sync_Inr [OF s]] enabled_routes_ok [OF ok] low]
  show "sv_routes sv' h = (case first_ok (handler_for ip6 hop gate) (rm_reserved m) (enabled_routes (rm_base m) (w_db w)) h of
      Some r \<Rightarrow> Some (projr (handler_for ip6 hop gate r))
    | None \<Rightarrow> if h \<in> set (managed_hosts m) then None else sv_routes sv h)"
    by (rule spec(1))
  show hosts: "set (managed_hosts m') =
      {h. first_ok (handler_for ip6 hop gate) (rm_reserved m) (enabled_routes (rm_base m) (w_db w)) h \<noteq> None}"
    by (rule spec(2))
  show "rm_reserved m' = rm_reserved m" "rm_base m' = rm_base m" by (rule spec(3,4))+
  show "w_db w' = w_db w" using rm_sync_Inr [OF s] by simp
  show "rm_inv m'"
    using hosts spec(3) enabled_routes_ok(2) [OF ok] unfolding rm_inv_def
    by (auto dest!: first_okD simp: eligible_def)
  show "length probs + length (managed_hosts m') = length (enabled_rows (w_db w))"
    using spec(5) resolve_rows_length [of "rm_base m" "enabled_rows (w_db w)"] by (simp add: enabled_routes_def)
qed

lemma find_least:
  "sorted (map k rs) \<Longrightarrow> distinct (map k rs) \<Longrightarrow> r \<in> set rs \<Longrightarrow> P r \<Longrightarrow>
     (\<And>q. q \<in> set rs \<Longrightarrow> P q \<Longrightarrow> k r \<le> k q) \<Longrightarrow> find P rs = Some r"
proof (induction rs)
  case (Cons x rs)
  show ?case
  proof (cases "x = r")
    case False
    then have r: "r \<in> set rs" using Cons.prems(3) by simp
    then have "k x \<le> k r" "k x \<noteq> k r" using Cons.prems(1,2) by auto
    then have "\<not> P x" using Cons.prems(5) [of x] by auto
    then show ?thesis using Cons r by auto
  qed (use Cons.prems in simp)
qed simp

lemma enabled_routes_sorted: "sorted (map rte_name (enabled_routes base d))"
proof -
  have "sorted (map ap_name as) \<Longrightarrow> sorted (map rte_name (fst (resolve_rows base as)))" for as
  proof (induction as)
    case (Cons a as)
    have "ap_name a \<le> rte_name r" if "r \<in> set (fst (resolve_rows base as))" for r
      using that Cons.prems by (auto simp: resolve_rows_in dest!: resolve_row_Inr)
    with Cons show ?case by (auto split: prod.splits sum.splits dest!: resolve_row_Inr)
  qed simp
  then show ?thesis by (simp add: enabled_routes_def enabled_rows_def)
qed

text \<open>C7: Synchronising reconciles the live routes with the apps table: each host an app may claim is
  served by the handler of the first app by name whose row is valid, a host that no app claims any
  more is removed, and every other route (the portal, the sign-in server, other fixed routes) is
  exactly as it was. The database is only read, and the manager's invariant is kept.\<close>

theorem sync_reconciles:
  assumes "rm_sync ip6 hop gate m sv w = (Inr (probs, m', sv'), w')" and "world_ok w" and "rm_inv m"
  shows "sv_routes sv' h = (case first_ok (handler_for ip6 hop gate) (rm_reserved m) (enabled_routes (rm_base m) (w_db w)) h of
      Some r \<Rightarrow> Some (projr (handler_for ip6 hop gate r))
    | None \<Rightarrow> if h \<in> set (managed_hosts m) then None else sv_routes sv h) \<and>
    (h \<in> rm_reserved m \<longrightarrow> sv_routes sv' h = sv_routes sv h) \<and> w_db w' = w_db w \<and> rm_inv m'"
proof -
  have "first_ok (handler_for ip6 hop gate) (rm_reserved m) rs h = None \<and> h \<notin> set (managed_hosts m)"
    if "h \<in> rm_reserved m" for rs
    using that assms(3) by (auto simp: first_ok_def find_None_iff eligible_def rm_inv_def)
  then show ?thesis using rm_sync_spec(1) [OF assms, of h] rm_sync_spec(5,6) [OF assms] by simp
qed

lemma first_claim:
  assumes "db_ok d" "a \<in> set (db_apps d)" "ap_enabled a = 1" "resolve_row base a = Inr r" "eligible mk res r"
    and "\<forall>q \<in> set (enabled_routes base d). rte_host q = rte_host r \<longrightarrow> eligible mk res q \<longrightarrow> rte_name r \<le> rte_name q"
  shows "first_ok mk res (enabled_routes base d) (rte_host r) = Some r"
proof -
  have "r \<in> set (enabled_routes base d)"
    using assms(2-4) by (auto simp: enabled_routes_def enabled_rows_def resolve_rows_in)
  then show ?thesis
    unfolding first_ok_def using assms(5,6) enabled_routes_ok(1) [OF assms(1)]
    by (intro find_least [OF enabled_routes_sorted]) auto
qed

text \<open>C21: One bad app cannot take another one down: whatever the other rows of the table hold, an enabled
  app whose own row is valid, whose host is not reserved and is not claimed by a valid app earlier in
  the alphabet is served after the synchronisation.\<close>

theorem valid_app_goes_live:
  assumes "rm_sync ip6 hop gate m sv w = (Inr (probs, m', sv'), w')" and "world_ok w" and "rm_inv m"
    and "a \<in> set (db_apps (w_db w))" "ap_enabled a = 1" "resolve_row (rm_base m) a = Inr r"
    and "handler_for ip6 hop gate r = Inr h" "rte_host r \<notin> rm_reserved m"
    and "\<forall>q \<in> set (enabled_routes (rm_base m) (w_db w)). rte_host q = rte_host r \<longrightarrow>
      eligible (handler_for ip6 hop gate) (rm_reserved m) q \<longrightarrow> rte_name r \<le> rte_name q"
  shows "sv_routes sv' (rte_host r) = Some h \<and> rte_host r \<in> set (managed_hosts m')"
proof -
  have "first_ok (handler_for ip6 hop gate) (rm_reserved m) (enabled_routes (rm_base m) (w_db w)) (rte_host r) = Some r"
    by (rule first_claim [OF _ assms(4-6) _ assms(9)]) (use assms(2,7,8) in \<open>simp_all add: world_ok_def eligible_def\<close>)
  then show ?thesis using rm_sync_spec(1,2) [OF assms(1-3)] assms(7) by simp
qed

text \<open>C20: Nothing is dropped silently: the live apps and the reported problems together are as many as
  the enabled rows of the table.\<close>

theorem every_app_live_or_reported:
  assumes "rm_sync ip6 hop gate m sv w = (Inr (probs, m', sv'), w')" and "world_ok w" and "rm_inv m"
  shows "length probs + length (managed_hosts m') = length (filter (\<lambda>a. ap_enabled a = 1) (db_apps (w_db w)))"
  using rm_sync_spec(7) [OF assms] by (simp add: enabled_rows_def)

text \<open>Synchronising again without a change of the table changes nothing, and the order in which the
  old hosts are visited (a Go map's) never matters.\<close>

theorem sync_idempotent:
  assumes "rm_sync ip6 hop gate m sv w = (Inr (probs, m1, sv1), w1)" and "world_ok w" and "rm_inv m"
    and "rm_sync ip6 hop gate m2 sv1 w1 = (Inr (probs2, m3, sv3), w3)"
    and "set (managed_hosts m2) = set (managed_hosts m1)" "rm_reserved m2 = rm_reserved m1" "rm_base m2 = rm_base m1"
  shows "sv_routes sv3 = sv_routes sv1 \<and> set (managed_hosts m3) = set (managed_hosts m1)"
proof -
  note one = rm_sync_spec [OF assms(1-3)]
  have "world_ok w1" "rm_inv m2"
    using one(5,6) assms(2,5,6) by (simp_all add: world_ok_def rm_inv_def)
  note two = rm_sync_spec [OF assms(4) this]
  have eq: "rm_reserved m2 = rm_reserved m" "rm_base m2 = rm_base m" "w_db w1 = w_db w"
    using one(3-5) assms(6,7) by simp_all
  have "sv_routes sv3 h = sv_routes sv1 h" for h
    using two(1) [of h] one(1) [of h] one(2) assms(5) eq by (auto split: option.splits)
  then show ?thesis using two(2) one(2) eq by auto
qed

subsection \<open>Witnesses\<close>

definition sample_apps_world :: world where
  "sample_apps_world = \<lparr>w_db = empty_db\<lparr>db_apps :=
     [\<lparr>ap_name = ''blog'', ap_enabled = 1, ap_settings = Json (zero_settings\<lparr>st_subdomain := ''Blog'',
         st_backend := ''http://127.0.0.1:3000''\<rparr>), ap_enabled_at = Some 0\<rparr>,
      \<lparr>ap_name = ''bad'', ap_enabled = 1, ap_settings = BadJson, ap_enabled_at = Some 0\<rparr>,
      \<lparr>ap_name = ''off'', ap_enabled = 0, ap_settings = EmptyText, ap_enabled_at = None\<rparr>]\<rparr>,
     w_faults = [], w_clock = 0, w_rand = []\<rparr>"

definition sample_manager :: route_manager where
  "sample_manager = rm_reserve [''auth.nas.example'', ''nas.example''] (new_route_manager ''nas.example'')"

definition sample_route :: app_route where
  "sample_route = \<lparr>rte_name = ''blog'', rte_host = ''blog.nas.example'',
     rte_settings = zero_settings\<lparr>st_subdomain := ''Blog'', st_backend := ''http://127.0.0.1:3000''\<rparr>\<rparr>"

definition sample_sync :: "error list \<times> route_manager \<times> world handler server" where
  "sample_sync = sync_with (handler_for (\<lambda>_. None) id None) [sample_route]
     [Wrap ''app bad: decode settings'' (Msg ''invalid JSON'')] sample_manager new_server"

lemma sample_apps_ok: "world_ok sample_apps_world"
  by (simp add: sample_apps_world_def world_ok_def db_ok_def empty_db_def user_ids_def)

lemma sample_manager_inv: "rm_inv sample_manager"
  by (simp add: sample_manager_def rm_reserve_def new_route_manager_def rm_inv_def managed_hosts_def)

lemma sample_manager_simps: "rm_base sample_manager = ''nas.example''" "rm_app_hosts sample_manager = []"
  "rm_reserved sample_manager = {''nas.example'', ''auth.nas.example''}"
  by code_simp+

lemma sample_rows: "resolve_rows ''nas.example'' (sort_key ap_name (filter (\<lambda>a. ap_enabled a = 1) (db_apps (w_db sample_apps_world))))
    = ([sample_route], [Wrap ''app bad: decode settings'' (Msg ''invalid JSON'')])"
  by code_simp

lemma sample_sync_run:
  "rm_sync (\<lambda>_. None) id None sample_manager new_server sample_apps_world =
     (Inr (fst sample_sync, fst (snd sample_sync), snd (snd sample_sync)), sample_apps_world)"
proof -
  have "w_faults sample_apps_world = []" by (simp add: sample_apps_world_def)
  then show ?thesis
    by (simp add: rm_sync_def load_enabled_parts_def run_simps run_eval sample_manager_simps sample_rows sample_sync_def)
qed

lemma sync_reconciles_witness:
  "sv_routes (snd (snd sample_sync)) ''auth.nas.example'' = None"
  using conjunct1 [OF conjunct2 [OF sync_reconciles [OF sample_sync_run sample_apps_ok sample_manager_inv,
      of "''auth.nas.example''"]]]
  by (simp add: sample_manager_simps new_server_def)

lemma sample_handler: "handler_for (\<lambda>_. None) id None sample_route =
    Inr (\<lambda>r w. ((Proxied (rewrite id \<lparr>u_scheme = ''http'', u_host = ''127.0.0.1:3000'', u_path = []\<rparr> False r), []), w))"
proof -
  have "parse_backend (\<lambda>_. None) ''http://127.0.0.1:3000'' = Inr \<lparr>u_scheme = ''http'', u_host = ''127.0.0.1:3000'', u_path = []\<rparr>"
    by code_simp
  then show ?thesis
    by (simp add: handler_for_def sample_route_def zero_settings_def new_reverse_proxy_def proxy_defaults_def)
qed

lemma valid_app_goes_live_witness:
  "sv_routes (snd (snd sample_sync)) ''blog.nas.example'' =
     Some (\<lambda>r w. ((Proxied (rewrite id \<lparr>u_scheme = ''http'', u_host = ''127.0.0.1:3000'', u_path = []\<rparr> False r), []), w))"
proof -
  define a where "a = \<lparr>ap_name = ''blog'', ap_enabled = 1, ap_settings = Json (zero_settings\<lparr>st_subdomain := ''Blog'',
         st_backend := ''http://127.0.0.1:3000''\<rparr>), ap_enabled_at = Some 0\<rparr>"
  have a: "a \<in> set (db_apps (w_db sample_apps_world))" "ap_enabled a = 1"
    by (simp_all add: a_def sample_apps_world_def)
  have r: "resolve_row (rm_base sample_manager) a = Inr sample_route"
    unfolding a_def by code_simp
  have e: "enabled_routes (rm_base sample_manager) (w_db sample_apps_world) = [sample_route]"
    using sample_rows by (simp add: enabled_routes_def enabled_rows_def sample_manager_simps)
  have h: "rte_host sample_route = ''blog.nas.example''" by (simp add: sample_route_def)
  have n: "rte_host sample_route \<notin> rm_reserved sample_manager" by (simp add: h sample_manager_simps)
  have q: "\<forall>q \<in> set (enabled_routes (rm_base sample_manager) (w_db sample_apps_world)).
      rte_host q = rte_host sample_route \<longrightarrow>
      eligible (handler_for (\<lambda>_. None) id None) (rm_reserved sample_manager) q \<longrightarrow> rte_name sample_route \<le> rte_name q"
    by (simp add: e)
  show ?thesis
    using conjunct1 [OF valid_app_goes_live [OF sample_sync_run sample_apps_ok sample_manager_inv a r sample_handler n q]]
    by (simp only: h)
qed

lemma every_app_live_or_reported_witness: "length (fst sample_sync) + length (managed_hosts (fst (snd sample_sync))) = 2"
  using every_app_live_or_reported [OF sample_sync_run sample_apps_ok sample_manager_inv]
  by (simp add: sample_apps_world_def)

lemma sync_idempotent_witness:
  "\<exists>probs m3 sv3 w3. rm_sync (\<lambda>_. None) id None (fst (snd sample_sync)) (snd (snd sample_sync)) sample_apps_world =
     (Inr (probs, m3, sv3), w3) \<and> sv_routes sv3 = sv_routes (snd (snd sample_sync))"
proof -
  have "w_faults sample_apps_world = []" by (simp add: sample_apps_world_def)
  then obtain probs m3 sv3 where s: "rm_sync (\<lambda>_. None) id None (fst (snd sample_sync)) (snd (snd sample_sync)) sample_apps_world =
      (Inr (probs, m3, sv3), sample_apps_world)"
    by (simp add: rm_sync_def load_enabled_parts_def run_simps run_eval case_prod_beta) (metis surj_pair)
  show ?thesis
    using sync_idempotent [OF sample_sync_run sample_apps_ok sample_manager_inv s refl refl refl] s by blast
qed

end
