(* ===== verification/Nass_Stores.thy ===== *)
theory Nass_Stores
  imports Nass_World
begin

text \<open>
  The interface between the components and their tables. A \<open>keyed_store\<close> promises what a lookup
  returns after an insertion and after a deletion; a \<open>token_store\<close> is one whose rows belong to a
  user that exists and expire at an instant. The clients' lemmas (a revocation leaves no row of
  the user, a purge leaves every live row) are proved once in the locales; the interpretations
  below discharge the laws for the tables of the schema.
\<close>

locale keyed_store =
  fixes wf :: "'d \<Rightarrow> bool"
    and key :: "'r \<Rightarrow> 'k"
    and find_row :: "'k \<Rightarrow> 'd \<Rightarrow> 'r option"
    and insert_row :: "'r \<Rightarrow> 'd \<Rightarrow> error + unit \<times> 'd"
    and delete_rows :: "('r \<Rightarrow> bool) \<Rightarrow> 'd \<Rightarrow> error + nat \<times> 'd"
  assumes find_key: "find_row k d = Some r \<Longrightarrow> key r = k"
    and insert_fresh: "insert_row r d = Inr (u, d') \<Longrightarrow> find_row (key r) d = None"
    and find_insert: "insert_row r d = Inr (u, d') \<Longrightarrow>
      find_row k d' = (if k = key r then Some r else find_row k d)"
    and delete_total: "\<exists>n d'. delete_rows P d = Inr (n, d')"
    and find_delete: "wf d \<Longrightarrow> delete_rows P d = Inr (n, d') \<Longrightarrow>
      find_row k d' = (case find_row k d of None \<Rightarrow> None | Some r \<Rightarrow> if P r then None else Some r)"
    and delete_count: "wf d \<Longrightarrow> delete_rows P d = Inr (n, d') \<Longrightarrow>
      n = 0 \<longleftrightarrow> (\<forall>k r. find_row k d = Some r \<longrightarrow> \<not> P r)"
begin

lemma inserted_found: "insert_row r d = Inr (u, d') \<Longrightarrow> find_row (key r) d' = Some r"
  by (simp add: find_insert)

lemma insert_keeps: "insert_row r d = Inr (u, d') \<Longrightarrow> find_row k d = Some x \<Longrightarrow> find_row k d' = Some x"
  by (metis find_insert insert_fresh option.discI)

lemma deleted_gone:
  "wf d \<Longrightarrow> delete_rows P d = Inr (n, d') \<Longrightarrow> find_row k d' = Some r \<Longrightarrow> \<not> P r \<and> find_row k d = Some r"
  by (auto simp: find_delete split: option.splits if_splits)

lemma delete_keeps:
  "wf d \<Longrightarrow> delete_rows P d = Inr (n, d') \<Longrightarrow> find_row k d = Some r \<Longrightarrow> \<not> P r \<Longrightarrow> find_row k d' = Some r"
  by (simp add: find_delete)

lemma delete_key:
  "wf d \<Longrightarrow> delete_rows (\<lambda>r. key r = k') d = Inr (n, d') \<Longrightarrow>
     find_row k d' = (if k = k' then None else find_row k d)"
  by (auto simp: find_delete split: option.splits dest: find_key)

end

locale owned_store = keyed_store wf key find_row insert_row delete_rows
  for wf :: "'d \<Rightarrow> bool" and key :: "'r \<Rightarrow> 'k" and find_row insert_row delete_rows +
  fixes owner :: "'r \<Rightarrow> 'u"
    and live :: "'u \<Rightarrow> 'd \<Rightarrow> bool"
  assumes owner_live: "wf d \<Longrightarrow> find_row k d = Some r \<Longrightarrow> live (owner r) d"
begin

lemma revoke_gone:
  "wf d \<Longrightarrow> delete_rows (\<lambda>r. owner r = u) d = Inr (n, d') \<Longrightarrow> find_row k d' = Some r \<Longrightarrow> owner r \<noteq> u"
  by (drule deleted_gone) auto

lemma revoke_others:
  "wf d \<Longrightarrow> delete_rows (\<lambda>r. owner r = u) d = Inr (n, d') \<Longrightarrow> find_row k d = Some r \<Longrightarrow> owner r \<noteq> u \<Longrightarrow>
     find_row k d' = Some r"
  by (rule delete_keeps)

lemma dead_owner: "wf d \<Longrightarrow> \<not> live u d \<Longrightarrow> find_row k d = Some r \<Longrightarrow> owner r \<noteq> u"
  by (metis owner_live)

end

locale expiring_store = keyed_store wf key find_row insert_row delete_rows
  for wf :: "'d \<Rightarrow> bool" and key :: "'r \<Rightarrow> 'k" and find_row insert_row delete_rows +
  fixes expires :: "'r \<Rightarrow> int"
begin

lemma purge_keeps_live:
  "wf d \<Longrightarrow> delete_rows (\<lambda>r. expires r < cutoff) d = Inr (n, d') \<Longrightarrow> cutoff \<le> t \<Longrightarrow> t < expires r \<Longrightarrow>
     find_row k d' = Some r \<longleftrightarrow> find_row k d = Some r"
  by (auto dest: deleted_gone intro: delete_keeps)

lemma purge_all_expired:
  "wf d \<Longrightarrow> delete_rows (\<lambda>r. expires r < cutoff) d = Inr (n, d') \<Longrightarrow> find_row k d' = Some r \<Longrightarrow>
     cutoff \<le> expires r"
  by (drule deleted_gone) auto

end

locale token_store =
  owned_store wf key find_row insert_row delete_rows owner live +
  expiring_store wf key find_row insert_row delete_rows expires
  for wf :: "'d \<Rightarrow> bool" and key :: "'r \<Rightarrow> 'k" and find_row insert_row delete_rows
    and owner :: "'r \<Rightarrow> 'u" and live and expires

subsection \<open>The tables of the schema\<close>

definition session_by :: "string \<Rightarrow> database \<Rightarrow> session_row option" where
  "session_by k d = row_by ss_id k (db_sessions d)"

definition access_by :: "string \<Rightarrow> database \<Rightarrow> access_row option" where
  "access_by k d = row_by at_id k (db_access d)"

definition refresh_by :: "string \<Rightarrow> database \<Rightarrow> refresh_row option" where
  "refresh_by k d = row_by rt_id k (db_refresh d)"

definition authreq_by :: "string \<Rightarrow> database \<Rightarrow> authreq_row option" where
  "authreq_by k d = row_by ar_id k (db_authreqs d)"

definition code_by :: "string \<Rightarrow> database \<Rightarrow> code_row option" where
  "code_by k d = row_by co_code k (db_codes d)"

definition client_by :: "string \<Rightarrow> database \<Rightarrow> client_row option" where
  "client_by k d = row_by cl_id k (db_clients d)"

definition user_by :: "int \<Rightarrow> database \<Rightarrow> user_row option" where
  "user_by i d = row_by usr_id i (db_users d)"

definition user_named :: "string \<Rightarrow> database \<Rightarrow> user_row option" where
  "user_named n d = row_by usr_name n (db_users d)"

definition app_by :: "string \<Rightarrow> database \<Rightarrow> app_row option" where
  "app_by n d = row_by ap_name n (db_apps d)"

lemmas by_defs = session_by_def access_by_def refresh_by_def authreq_by_def code_by_def client_by_def
  user_by_def user_named_def app_by_def

lemma row_by_all: "distinct (map key rs) \<Longrightarrow> (\<forall>k r. row_by key k rs = Some r \<longrightarrow> \<not> P r) \<longleftrightarrow> (\<forall>r \<in> set rs. \<not> P r)"
  by (metis row_by_Some row_by_member)

lemma row_by_not_in: "k \<notin> key ` set rs \<Longrightarrow> row_by key k rs = None"
  by (simp add: row_by_None)

lemma row_by_field: "row_by key k rs = Some r \<Longrightarrow> f ` set rs \<subseteq> S \<Longrightarrow> f r \<in> S"
  by (auto dest: row_by_Some)

lemma user_by_live: "user_by i d \<noteq> None \<longleftrightarrow> i \<in> user_ids d"
  by (simp add: user_by_def row_by_None user_ids_def)

lemmas store_laws = stmt_defs by_defs row_by_not_in row_by_append row_by_filter row_by_all filter_empty_conv
  db_ok_def Let_def

interpretation sessions: token_store db_ok ss_id session_by ins_session del_sessions ss_user "\<lambda>u d. u \<in> user_ids d" ss_expires
  by unfold_locales (auto simp: store_laws split: if_splits option.splits dest: row_by_Some intro: row_by_field)

interpretation accesses: token_store db_ok at_id access_by ins_access del_access at_user "\<lambda>u d. u \<in> user_ids d" at_expires
  by unfold_locales (auto simp: store_laws split: if_splits option.splits dest: row_by_Some intro: row_by_field)

interpretation refreshes: token_store db_ok rt_id refresh_by ins_refresh del_refresh rt_user "\<lambda>u d. u \<in> user_ids d" rt_expires
  by unfold_locales (auto simp: store_laws split: if_splits option.splits dest: row_by_Some intro: row_by_field)

interpretation codes: expiring_store db_ok co_code code_by ins_code del_codes co_expires
  by unfold_locales (auto simp: store_laws split: if_splits option.splits dest: row_by_Some intro: row_by_field)

interpretation authreqs: expiring_store db_ok ar_id authreq_by ins_authreq del_authreqs ar_expires
  by unfold_locales (auto simp: store_laws split: if_splits option.splits dest: row_by_Some intro: row_by_field)

interpretation clients: keyed_store db_ok cl_id client_by ins_client del_clients
  by unfold_locales (auto simp: store_laws split: if_splits option.splits dest: row_by_Some)

end
