(* ===== verification/Auth_Users.thy ===== *)
theory Auth_Users
  imports Nass_Stores
begin

text \<open>
  The user store (\<^verbatim>\<open>internal/auth/users.go\<close>): creation, lookup, password verification, and the
  changes of e-mail, role and password. Hashing is bcrypt (\<^verbatim>\<open>golang.org/x/crypto\<close>, not part of the
  repository): the record \<open>bcrypt\<close> holds its two functions, \<open>bc_gen\<close> of a salt and a password
  (\<open>None\<close> is its error) and \<open>bc_cmp\<close> of a hash and a password.
\<close>

record bcrypt =
  bc_gen :: "string \<Rightarrow> string \<Rightarrow> string option"
  bc_cmp :: "string \<Rightarrow> string \<Rightarrow> bool"

text \<open>What the documentation of bcrypt promises: a generated hash accepts its password.\<close>

definition bcrypt_accepts :: "bcrypt \<Rightarrow> bool" where
  "bcrypt_accepts bc \<longleftrightarrow> (\<forall>salt pw h. bc_gen bc salt pw = Some h \<longrightarrow> bc_cmp bc h pw)"

record user =
  us_id :: int
  us_name :: string
  us_email :: string
  us_admin :: bool
  us_created :: int
  us_updated :: int

definition bool_int :: "bool \<Rightarrow> int" where
  "bool_int b = (if b then 1 else 0)"

definition null_str :: "string \<Rightarrow> string option" where
  "null_str s = (if s = [] then None else Some s)"

definition scan_user :: "user_row option \<Rightarrow> error + user" where
  "scan_user r = (case r of
       None \<Rightarrow> Inl ErrUserNotFound
     | Some u \<Rightarrow> Inr \<lparr>us_id = usr_id u, us_name = usr_name u,
         us_email = (case usr_email u of None \<Rightarrow> [] | Some e \<Rightarrow> e), us_admin = (usr_admin u \<noteq> 0),
         us_created = usr_created u, us_updated = usr_updated u\<rparr>)"

definition users_get :: "int \<Rightarrow> ('r world_scheme, user) run" where
  "users_get i = bindR (query (user_by i)) (\<lambda>r. lift_result (scan_user r))"

definition users_get_by_username :: "string \<Rightarrow> ('r world_scheme, user) run" where
  "users_get_by_username n = bindR (query (user_named n)) (\<lambda>r. lift_result (scan_user r))"

text \<open>\<open>bcrypt.GenerateFromPassword\<close>: draws a salt, may refuse the password.\<close>

definition hash_password :: "bcrypt \<Rightarrow> string \<Rightarrow> ('r world_scheme, string) run" where
  "hash_password bc pw = bindR draw (\<lambda>salt.
     case bc_gen bc salt pw of None \<Rightarrow> throw HashFault | Some h \<Rightarrow> ret h)"

definition users_create :: "bcrypt \<Rightarrow> string \<Rightarrow> string \<Rightarrow> string \<Rightarrow> bool \<Rightarrow> ('r world_scheme, user) run" where
  "users_create bc username0 email password is_admin =
     (let username = trim_space username0 in
      if username = [] then throw (Msg ''username required'')
      else if length password < 8 then throw (Msg ''password must be at least 8 characters'')
      else bindR (hash_password bc password) (\<lambda>hash.
           bindR now (\<lambda>t.
           bindR (map_error (\<lambda>e. if contains_str (error_text e) ''UNIQUE'' then ErrUserExists else e)
                   (exec (ins_user username (null_str email) hash (bool_int is_admin) t)))
             (\<lambda>i. users_get i))))"

definition users_verify :: "bcrypt \<Rightarrow> string \<Rightarrow> string \<Rightarrow> ('r world_scheme, user) run" where
  "users_verify bc username password =
     bindR (query (\<lambda>d. map_option usr_hash (user_named username d))) (\<lambda>h.
       case h of
         None \<Rightarrow> throw ErrUserNotFound
       | Some hash \<Rightarrow> if bc_cmp bc hash password then users_get_by_username username
                       else throw ErrBadPassword)"

definition users_set_email :: "int \<Rightarrow> string \<Rightarrow> ('r world_scheme, unit) run" where
  "users_set_email i email =
     bindR now (\<lambda>t.
     bindR (exec (upd_users (\<lambda>u. usr_id u = i)
              (\<lambda>u. u\<lparr>usr_email := null_str (trim_space email), usr_updated := t\<rparr>))) (\<lambda>n.
     if n = 0 then throw ErrUserNotFound else ret ()))"

text \<open>The three tables that hang off a user, in the order of the source's loop.\<close>

definition revoke_sessions :: "int \<Rightarrow> ('r world_scheme, unit) run" where
  "revoke_sessions i =
     bindR (map_error (Wrap ''revoke portal_sessions'') (exec (del_sessions (\<lambda>r. ss_user r = i)))) (\<lambda>_.
     bindR (map_error (Wrap ''revoke oidc_access_tokens'') (exec (del_access (\<lambda>r. at_user r = i)))) (\<lambda>_.
     bindR (map_error (Wrap ''revoke oidc_refresh_tokens'') (exec (del_refresh (\<lambda>r. rt_user r = i)))) (\<lambda>_.
     ret ())))"

definition users_set_admin :: "int \<Rightarrow> bool \<Rightarrow> ('r world_scheme, unit) run" where
  "users_set_admin i is_admin = in_tx (
     bindR (query (\<lambda>d. map_option usr_admin (user_by i d))) (\<lambda>was.
     case was of
       None \<Rightarrow> throw ErrUserNotFound
     | Some was_admin \<Rightarrow>
         bindR now (\<lambda>t.
         bindR (exec (upd_users (\<lambda>u. usr_id u = i)
                  (\<lambda>u. u\<lparr>usr_admin := bool_int is_admin, usr_updated := t\<rparr>))) (\<lambda>_.
         if was_admin \<noteq> 0 \<and> \<not> is_admin then revoke_sessions i else ret ()))))"

definition users_set_password :: "bcrypt \<Rightarrow> int \<Rightarrow> string \<Rightarrow> ('r world_scheme, unit) run" where
  "users_set_password bc i password =
     (if length password < 8 then throw (Msg ''password must be at least 8 characters'')
      else bindR (hash_password bc password) (\<lambda>hash. in_tx (
           bindR now (\<lambda>t.
           bindR (exec (upd_users (\<lambda>u. usr_id u = i)
                    (\<lambda>u. u\<lparr>usr_hash := hash, usr_updated := t\<rparr>))) (\<lambda>n.
           if n = 0 then throw ErrUserNotFound else revoke_sessions i)))))"

definition users_delete :: "int \<Rightarrow> ('r world_scheme, unit) run" where
  "users_delete i =
     bindR (exec (del_users (\<lambda>u. usr_id u = i))) (\<lambda>n.
     if n = 0 then throw ErrUserNotFound else ret ())"

text \<open>\<open>ORDER BY id\<close>.\<close>

definition users_list :: "('r world_scheme, user list) run" where
  "users_list = bindR (query (\<lambda>d. sort_key usr_id (db_users d))) (\<lambda>rs.
     ret (List.map_filter (\<lambda>r. case scan_user (Some r) of Inr u \<Rightarrow> Some u | Inl _ \<Rightarrow> None) rs))"

subsection \<open>Invariant and frames\<close>

lemma preserves_hash_password [preserves_intro]: "preserves world_ok (hash_password bc pw)"
  unfolding hash_password_def by (intro preserves_intro)

lemma preserves_users_get [preserves_intro]:
  "preserves world_ok (users_get i)" "preserves world_ok (users_get_by_username n)"
  unfolding users_get_def users_get_by_username_def by (intro preserves_intro)+

lemma preserves_users_create [preserves_intro]: "preserves world_ok (users_create bc n e p a)"
  unfolding users_create_def Let_def by (intro preserves_intro)

lemma preserves_users_verify [preserves_intro]: "preserves world_ok (users_verify bc n p)"
  unfolding users_verify_def by (intro preserves_intro)

lemma preserves_users_set_email [preserves_intro]: "preserves world_ok (users_set_email i e)"
  unfolding users_set_email_def by (intro preserves_intro upd_users_ok) auto

lemma preserves_revoke_sessions [preserves_intro]: "preserves world_ok (revoke_sessions i)"
  unfolding revoke_sessions_def by (intro preserves_intro)

lemma preserves_users_set_admin [preserves_intro]: "preserves world_ok (users_set_admin i b)"
  unfolding users_set_admin_def by (intro preserves_intro upd_users_ok) auto

lemma preserves_users_set_password [preserves_intro]: "preserves world_ok (users_set_password bc i p)"
  unfolding users_set_password_def by (intro preserves_intro upd_users_ok) auto

lemma preserves_users_delete [preserves_intro]: "preserves world_ok (users_delete i)"
  unfolding users_delete_def by (intro preserves_intro)

lemma preserves_users_list [preserves_intro]: "preserves world_ok users_list"
  unfolding users_list_def by (intro preserves_intro)

lemma frame_users_read [preserves_intro]:
  "frame w_db (hash_password bc pw)" "frame w_db (users_get i)" "frame w_db (users_get_by_username n)"
  "frame w_db (users_verify bc n p)" "frame w_db users_list"
  unfolding hash_password_def users_get_def users_get_by_username_def users_verify_def users_list_def
  by ((intro preserves_intro; simp)+)

subsection \<open>What the operations do\<close>

text \<open>The specification of a revocation: the three tables lose exactly the user's rows.\<close>

definition revoked :: "int \<Rightarrow> database \<Rightarrow> database" where
  "revoked i d = d\<lparr>db_sessions := filter (\<lambda>r. ss_user r \<noteq> i) (db_sessions d),
     db_access := filter (\<lambda>r. at_user r \<noteq> i) (db_access d),
     db_refresh := filter (\<lambda>r. rt_user r \<noteq> i) (db_refresh d)\<rparr>"

definition logged_out :: "int \<Rightarrow> database \<Rightarrow> bool" where
  "logged_out i d \<longleftrightarrow> (\<forall>r \<in> set (db_sessions d). ss_user r \<noteq> i) \<and>
     (\<forall>r \<in> set (db_access d). at_user r \<noteq> i) \<and> (\<forall>r \<in> set (db_refresh d). rt_user r \<noteq> i)"

lemma revoked_logged_out: "logged_out i (revoked i d)"
  by (simp add: logged_out_def revoked_def)

lemma revoke_sessions_Inr:
  "revoke_sessions i w = (Inr u, w') \<Longrightarrow> w_db w' = revoked i (w_db w)"
  by (auto simp: revoke_sessions_def bindR_Inr_iff ret_run revoked_def del_sessions_def del_access_def
      del_refresh_def dest!: exec_InrD)

lemma revoke_sessions_none:
  "w_faults w = [] \<Longrightarrow> revoke_sessions i w = (Inr (), w\<lparr>w_db := revoked i (w_db w)\<rparr>)"
  by (simp add: revoke_sessions_def run_simps run_eval del_sessions_def del_access_def del_refresh_def
      revoked_def)

lemma user_by_map:
  "(\<And>u. usr_id (f u) = usr_id u) \<Longrightarrow>
     row_by usr_id i (map (\<lambda>u. if P u then f u else u) us) =
     map_option (\<lambda>u. if P u then f u else u) (row_by usr_id i us)"
  by (rule row_by_map) simp

lemma filter_id_empty: "filter (\<lambda>u. usr_id u = i) us = [] \<longleftrightarrow> row_by usr_id i us = None"
  by (auto simp: row_by_None filter_empty_conv)

lemma scan_user_id: "scan_user r = Inr u \<Longrightarrow> \<exists>x. r = Some x \<and> us_id u = usr_id x \<and> us_name u = usr_name x"
  by (auto simp: scan_user_def split: option.splits)

lemma hash_password_keeps:
  "hash_password bc pw w = (r, w') \<Longrightarrow> w_db w' = w_db w \<and> w_clock w' = w_clock w"
  by (auto simp: hash_password_def bindR_def draw_def run_simps split: list.splits option.splits)

lemma hash_password_Inr:
  "hash_password bc pw w = (Inr h, w') \<Longrightarrow> \<exists>salt xs. bc_gen bc salt pw = Some h \<and> w' = w\<lparr>w_rand := xs\<rparr>"
  by (auto simp: hash_password_def bindR_Inr_iff draw_def run_simps split: list.splits option.splits)

definition rehashed :: "int \<Rightarrow> string \<Rightarrow> int \<Rightarrow> database \<Rightarrow> database" where
  "rehashed i h t d = d\<lparr>db_users := map (\<lambda>u. if usr_id u = i
     then u\<lparr>usr_hash := h, usr_updated := t\<rparr> else u) (db_users d)\<rparr>"

lemma users_set_password_Inr:
  "users_set_password bc i pw w = (Inr u, w') \<Longrightarrow> user_by i (w_db w) \<noteq> None \<and>
     (\<exists>salt h. bc_gen bc salt pw = Some h \<and> w_db w' = revoked i (rehashed i h (w_clock w) (w_db w)))"
  by (auto simp: users_set_password_def bindR_Inr_iff throw_run now_run upd_users_def by_defs rehashed_def
      filter_id_empty dest!: in_tx_InrD exec_InrD hash_password_Inr revoke_sessions_Inr split: if_splits)
    blast

text \<open>C5: Resetting a password replaces exactly that user's hash with a hash of the new password and,
  in the same transaction, removes every portal session, access token and refresh token the user
  holds and no other row; if the operation fails, the database is as it was.\<close>

theorem set_password_revokes:
  "case users_set_password bc i pw w of
     (Inl e, w') \<Rightarrow> w_db w' = w_db w
   | (Inr u, w') \<Rightarrow> logged_out i (w_db w') \<and> user_by i (w_db w) \<noteq> None \<and>
       (\<exists>salt h. bc_gen bc salt pw = Some h \<and>
         w_db w' = revoked i ((w_db w)\<lparr>db_users := map (\<lambda>u. if usr_id u = i
           then u\<lparr>usr_hash := h, usr_updated := w_clock w\<rparr> else u) (db_users (w_db w))\<rparr>))"
proof -
  obtain r w' where run: "users_set_password bc i pw w = (r, w')" by fastforce
  show ?thesis
  proof (cases r)
    case (Inl e)
    then show ?thesis using run
      by (auto simp: users_set_password_def bindR_Inl_iff throw_run
          dest!: in_tx_atomic hash_password_keeps split: if_splits)
  next
    case (Inr u)
    then show ?thesis
      using run users_set_password_Inr [of bc i pw w u w'] by (auto simp: rehashed_def revoked_logged_out)
  qed
qed

text \<open>Changing the admin flag is one transaction: on success the flag is the one asked for and a
  demotion signs the user out everywhere, while a promotion or a change that changes nothing leaves
  every session and token; a failure changes nothing.\<close>

theorem set_admin_revokes_on_demotion:
  "case users_set_admin i b w of
     (Inl e, w') \<Rightarrow> w_db w' = w_db w
   | (Inr u, w') \<Rightarrow> (\<exists>r. user_by i (w_db w) = Some r \<and>
       user_by i (w_db w') = Some (r\<lparr>usr_admin := bool_int b, usr_updated := w_clock w\<rparr>) \<and>
       (if usr_admin r \<noteq> 0 \<and> \<not> b then w_db w' = revoked i ((w_db w)\<lparr>db_users := db_users (w_db w')\<rparr>)
        else w_db w' = (w_db w)\<lparr>db_users := db_users (w_db w')\<rparr>))"
proof -
  obtain r w' where run: "users_set_admin i b w = (r, w')" by fastforce
  show ?thesis
  proof (cases r)
    case (Inl e)
    then show ?thesis using run by (auto simp: users_set_admin_def dest!: in_tx_atomic)
  next
    case (Inr u)
    define upd where "upd = upd_users (\<lambda>u. usr_id u = i) (\<lambda>u. u\<lparr>usr_admin := bool_int b, usr_updated := w_clock w\<rparr>)"
    obtain fs w1 gs a w2 n w3 where step: "w' = w1\<lparr>w_faults := gs\<rparr>"
        "query (\<lambda>d. map_option usr_admin (user_by i d)) (w\<lparr>w_faults := fs\<rparr>) = (Inr (Some a), w2)"
        "w_clock w2 = w_clock w" "exec upd w2 = (Inr n, w3)"
        "(if a \<noteq> 0 \<and> \<not> b then revoke_sessions i else ret ()) w3 = (Inr (), w1)"
      using run Inr unfolding upd_def
      by (auto simp: users_set_admin_def bindR_Inr_iff throw_run now_run split: option.splits
          dest!: in_tx_InrD) (frule query_InrD; fastforce)+
    obtain x where x: "user_by i (w_db w) = Some x" "usr_admin x = a" and w2: "w_db w2 = w_db w"
      using query_InrD [OF step(2)] by (auto simp: map_option_case split: option.splits)
    have w3: "w_db w3 = (w_db w)\<lparr>db_users := map (\<lambda>u. if usr_id u = i
        then u\<lparr>usr_admin := bool_int b, usr_updated := w_clock w\<rparr> else u) (db_users (w_db w))\<rparr>"
      using exec_InrD [OF step(4)] w2 by (auto simp: upd_def upd_users_def)
    have "user_by i (w_db w3) = Some (x\<lparr>usr_admin := bool_int b, usr_updated := w_clock w\<rparr>)"
      using x w3 by (auto simp: by_defs user_by_map dest: row_by_Some)
    then show ?thesis
      using x step(1,5) w3 Inr run
      by (auto simp: ret_run revoked_def by_defs dest!: revoke_sessions_Inr split: if_splits)
  qed
qed

definition created_row :: "'r world_scheme \<Rightarrow> string \<Rightarrow> string \<Rightarrow> string \<Rightarrow> bool \<Rightarrow> user_row" where
  "created_row w n e h a = \<lparr>usr_id = db_user_seq (w_db w) + 1, usr_name = trim_space n,
     usr_email = null_str e, usr_hash = h, usr_admin = bool_int a,
     usr_created = w_clock w, usr_updated = w_clock w\<rparr>"

lemma users_create_Inr:
  assumes "users_create bc n e p a w = (Inr u, w')"
  shows "\<exists>salt h r. bc_gen bc salt p = Some h \<and> r = created_row w n e h a \<and>
    trim_space n \<notin> usr_name ` set (db_users (w_db w)) \<and>
    w_db w' = (w_db w)\<lparr>db_user_seq := usr_id r, db_users := db_users (w_db w) @ [r]\<rparr> \<and>
    scan_user (user_by (usr_id r) (w_db w')) = Inr u"
  using assms
  by (auto simp: users_create_def Let_def bindR_Inr_iff throw_run now_run lift_result_run ins_user_def
      users_get_def created_row_def dest!: hash_password_Inr exec_InrD query_InrD split: if_splits)
    blast

text \<open>An account that was created can be logged into, from any process with that database.\<close>

lemma created_user_verifies:
  assumes "users_create bc n e p a w = (Inr u, w')" and "bcrypt_accepts bc" and "world_ok w"
    and "w_db v = w_db w'" "w_faults v = []"
  shows "users_verify bc (trim_space n) p v = (Inr u, v) \<and> us_admin u = a"
proof -
  obtain salt h r where r: "bc_gen bc salt p = Some h" "r = created_row w n e h a"
      "trim_space n \<notin> usr_name ` set (db_users (w_db w))"
      "w_db w' = (w_db w)\<lparr>db_user_seq := usr_id r, db_users := db_users (w_db w) @ [r]\<rparr>"
      "scan_user (user_by (usr_id r) (w_db w')) = Inr u"
    using users_create_Inr [OF assms(1)] by blast
  then have r': "usr_name r = trim_space n" "usr_hash r = h" "usr_id r = db_user_seq (w_db w) + 1" "usr_admin r = bool_int a"
    by (simp_all add: created_row_def)
  have i: "usr_id r \<notin> usr_id ` set (db_users (w_db w))"
    using assms(3) r'(3) by (force simp: world_ok_def db_ok_def)
  have "user_named (trim_space n) (w_db v) = Some r" "user_by (usr_id r) (w_db v) = Some r"
    using r(3,4) r' i assms(4) by (simp_all add: by_defs row_by_append row_by_not_in)
  moreover have "bc_cmp bc h p" using assms(2) r(1) by (auto simp: bcrypt_accepts_def)
  ultimately show ?thesis
    using r(5) r' assms(4,5)
    by (auto simp: users_verify_def users_get_by_username_def run_simps run_eval scan_user_def bool_int_def split: if_splits)
qed

text \<open>An account that was created can be logged into: with the name as stored (trimmed) and the
  password it was created with, verification returns the user that the creation returned.\<close>

theorem create_then_verify:
  assumes "users_create bc n e p a w = (Inr u, w')" and "bcrypt_accepts bc"
    and "world_ok w" and "w_faults w' = []"
  shows "users_verify bc (trim_space n) p w' = (Inr u, w')"
  using created_user_verifies [OF assms(1-3) refl assms(4)] by simp

text \<open>A concrete hash and world, for the witnesses.\<close>

definition sample_bcrypt :: bcrypt where
  "sample_bcrypt = \<lparr>bc_gen = (\<lambda>salt pw. Some (CHR 0x24 # pw)), bc_cmp = (\<lambda>h pw. h = CHR 0x24 # pw)\<rparr>"

lemma sample_bcrypt_accepts: "bcrypt_accepts sample_bcrypt"
  by (simp add: bcrypt_accepts_def sample_bcrypt_def)

definition sample_world :: world where
  "sample_world = \<lparr>w_db = empty_db, w_faults = [], w_clock = 0, w_rand = [''aa'', ''bb'', ''cc'', ''dd'']\<rparr>"

lemma sample_world_ok: "world_ok sample_world" "w_faults sample_world = []"
  by (simp_all add: sample_world_def world_ok_def db_ok_empty)

lemma sample_create:
  "fst (users_create sample_bcrypt '' ana'' '''' ''password1'' True sample_world) =
     Inr \<lparr>us_id = 1, us_name = ''ana'', us_email = '''', us_admin = True, us_created = 0, us_updated = 0\<rparr>"
  "w_faults (snd (users_create sample_bcrypt '' ana'' '''' ''password1'' True sample_world)) = []"
  by code_simp+

lemma create_then_verify_witness:
  "users_verify sample_bcrypt (trim_space '' ana'') ''password1''
     (snd (users_create sample_bcrypt '' ana'' '''' ''password1'' True sample_world)) =
   (Inr \<lparr>us_id = 1, us_name = ''ana'', us_email = '''', us_admin = True, us_created = 0, us_updated = 0\<rparr>,
    snd (users_create sample_bcrypt '' ana'' '''' ''password1'' True sample_world))"
  by (rule create_then_verify [where e = "''''" and a = True,
        OF _ sample_bcrypt_accepts sample_world_ok(1) sample_create(2)])
    (simp only: prod_eq_iff fst_conv snd_conv sample_create(1) simp_thms)

end
