(* ===== verification/Portal_Sessions.thy ===== *)
theory Portal_Sessions
  imports Auth_Users Proxy_Server
begin

text \<open>
  Portal sessions (\<^verbatim>\<open>internal/portal/session.go\<close>): a row per session, its identifier in the
  \<^verbatim>\<open>nass_session\<close> cookie. An operation that writes a cookie returns it beside its result, since
  the cookie is sent whether or not a later step fails. \<open>session_holds\<close> is the specification of a
  lookup: an unexpired row for the request's cookie and an existing user.
\<close>

definition session_ttl :: int where
  "session_ttl = 7 * 24 * 3600 * second"

record session_store =
  sn_domain :: string
  sn_insecure :: bool

record portal_session =
  pn_id :: string
  pn_user :: user
  pn_expires :: int

definition session_cookie :: "session_store \<Rightarrow> string \<Rightarrow> int \<Rightarrow> cookie" where
  "session_cookie st i expires = \<lparr>ck_name = session_cookie_name, ck_value = i, ck_domain = sn_domain st,
     ck_expires = expires, ck_max_age = 0, ck_http_only = True, ck_secure = (\<not> sn_insecure st), ck_lax = True\<rparr>"

definition cleared_cookie :: "session_store \<Rightarrow> cookie" where
  "cleared_cookie st = \<lparr>ck_name = session_cookie_name, ck_value = [], ck_domain = sn_domain st,
     ck_expires = 0, ck_max_age = -1, ck_http_only = False, ck_secure = False, ck_lax = False\<rparr>"

definition session_insert :: "int \<Rightarrow> ('r world_scheme, string \<times> int) run" where
  "session_insert uid =
     bindR draw (\<lambda>i. bindR now (\<lambda>t.
     bindR (exec (ins_session \<lparr>ss_id = i, ss_user = uid, ss_expires = t + session_ttl\<rparr>)) (\<lambda>_.
     ret (i, t + session_ttl))))"

definition session_issue ::
  "session_store \<Rightarrow> int \<Rightarrow> ('r world_scheme, (error + portal_session) \<times> cookie list) run" where
  "session_issue st uid =
     bindR (attempt (session_insert uid)) (\<lambda>r. case r of
       Inl e \<Rightarrow> ret (Inl e, [])
     | Inr (i, expires) \<Rightarrow>
         bindR (attempt (users_get uid)) (\<lambda>u.
         ret (case u of Inl e \<Rightarrow> Inl e
              | Inr us \<Rightarrow> Inr \<lparr>pn_id = i, pn_user = us, pn_expires = expires\<rparr>,
              [session_cookie st i expires])))"

definition session_lookup :: "request \<Rightarrow> ('r world_scheme, portal_session option) run" where
  "session_lookup r = (case req_cookie r session_cookie_name of
       None \<Rightarrow> ret None
     | Some c \<Rightarrow>
         bindR (query (session_by c)) (\<lambda>row. case row of
           None \<Rightarrow> ret None
         | Some s \<Rightarrow>
             bindR now (\<lambda>t.
             if ss_expires s < t
             then bindR (attempt (exec (del_sessions (\<lambda>x. ss_id x = c)))) (\<lambda>_. ret None)
             else bindR (users_get (ss_user s)) (\<lambda>u.
               ret (Some \<lparr>pn_id = c, pn_user = u, pn_expires = ss_expires s\<rparr>)))))"

definition session_revoke ::
  "session_store \<Rightarrow> request \<Rightarrow> ('r world_scheme, (error + unit) \<times> cookie list) run" where
  "session_revoke st r = (case req_cookie r session_cookie_name of
       None \<Rightarrow> ret (Inr (), [])
     | Some c \<Rightarrow>
         bindR (attempt (exec (del_sessions (\<lambda>x. ss_id x = c)))) (\<lambda>res.
         ret (case res of Inl e \<Rightarrow> (Inl e, []) | Inr _ \<Rightarrow> (Inr (), [cleared_cookie st]))))"

definition session_purge :: "int \<Rightarrow> ('r world_scheme, unit) run" where
  "session_purge cutoff = bindR (exec (del_sessions (\<lambda>x. ss_expires x < cutoff))) (\<lambda>_. ret ())"

subsection \<open>Invariant\<close>

lemma preserves_session_insert [preserves_intro]: "preserves world_ok (session_insert uid)"
  unfolding session_insert_def by (intro preserves_intro)

lemma preserves_session_issue [preserves_intro]: "preserves world_ok (session_issue st uid)"
  unfolding session_issue_def prod.case_distrib case_prod_beta by (intro preserves_intro)

lemma preserves_session_lookup [preserves_intro]: "preserves world_ok (session_lookup r)"
  unfolding session_lookup_def by (intro preserves_intro)

lemma preserves_session_revoke [preserves_intro]: "preserves world_ok (session_revoke st r)"
  unfolding session_revoke_def by (intro preserves_intro)

lemma preserves_session_purge [preserves_intro]: "preserves world_ok (session_purge c)"
  unfolding session_purge_def by (intro preserves_intro)

subsection \<open>What a lookup returns\<close>

definition session_holds :: "'r world_scheme \<Rightarrow> string \<Rightarrow> portal_session \<Rightarrow> bool" where
  "session_holds w c s \<longleftrightarrow> (\<exists>row. session_by c (w_db w) = Some row \<and> w_clock w \<le> ss_expires row \<and>
     scan_user (user_by (ss_user row) (w_db w)) = Inr (pn_user s) \<and>
     pn_id s = c \<and> pn_expires s = ss_expires row)"

lemma users_get_Inr:
  "users_get i w = (Inr u, w') \<Longrightarrow> scan_user (user_by i (w_db w)) = Inr u \<and> w_db w' = w_db w"
  by (auto simp: users_get_def bindR_Inr_iff lift_result_run dest!: query_InrD)

lemma lookup_sound:
  assumes "session_lookup r w = (Inr (Some s), w')"
  shows "w_db w' = w_db w \<and> (\<exists>c. req_cookie r session_cookie_name = Some c \<and> session_holds w c s)"
  using assms
  by (auto simp: session_lookup_def session_holds_def bindR_Inr_iff ret_run now_run split: option.splits if_splits
      dest!: query_InrD users_get_Inr)

text \<open>A lookup leaves the database alone or removes the one session of the cookie, which has expired.\<close>

lemma lookup_db:
  assumes "session_lookup r w = (res, w')"
  shows "w_db w' = w_db w \<or> (\<exists>c s. session_by c (w_db w) = Some s \<and> ss_expires s < w_clock w \<and>
    w_db w' = (w_db w)\<lparr>db_sessions := filter (\<lambda>x. ss_id x \<noteq> c) (db_sessions (w_db w))\<rparr>)"
proof (cases "req_cookie r session_cookie_name")
  case None
  then show ?thesis using assms by (simp add: session_lookup_def ret_run)
next
  case (Some c)
  obtain q w1 where q: "query (session_by c) w = (q, w1)" by fastforce
  obtain fs where "w1 = w\<lparr>w_faults := fs\<rparr>"
    using q query_InrD [of "session_by c" w _ w1] query_InlD [of "session_by c" w _ w1] by (cases q) blast+
  then have w1: "w_db w1 = w_db w" "w_clock w1 = w_clock w" by simp_all
  show ?thesis
  proof (cases q)
    case (Inl e)
    then show ?thesis using assms Some q w1 by (simp add: session_lookup_def bindR_run)
  next
    case (Inr row)
    have row: "session_by c (w_db w) = row" using query_InrD [of "session_by c" w row w1] q Inr by simp
    show ?thesis
    proof (cases row)
      case None
      then show ?thesis using assms Some q Inr w1 by (simp add: session_lookup_def bindR_run ret_run)
    next
      case (Some s)
      note fixed = assms \<open>req_cookie r session_cookie_name = Some c\<close> q Inr Some w1
      show ?thesis
      proof (cases "ss_expires s < w_clock w")
        case True
        obtain d w2 where d: "exec (del_sessions (\<lambda>x. ss_id x = c)) w1 = (d, w2)" by fastforce
        have "w' = w2" using fixed True d by (simp add: session_lookup_def run_eval run_simps)
        then have "w_db w' = w_db w \<or> w_db w' = (w_db w)\<lparr>db_sessions := filter (\<lambda>x. ss_id x \<noteq> c) (db_sessions (w_db w))\<rparr>"
          using d w1 by (cases d) (auto dest!: exec_InrD exec_InlD simp: del_sessions_def)
        moreover have "session_by c (w_db w) = Some s" using row Some by simp
        ultimately show ?thesis using True by blast
      next
        case False
        obtain u w2 where u: "users_get (ss_user s) w1 = (u, w2)" by fastforce
        then have "w_db w2 = w_db w1"
          using frame_pair [OF frame_users_read(2) u] by simp
        moreover have "w' = w2" using fixed False u by (cases u) (simp_all add: session_lookup_def run_eval run_simps)
        ultimately show ?thesis using w1 by simp
      qed
    qed
  qed
qed

lemma lookup_none:
  assumes "w_faults w = []"
  shows "session_lookup r w = (case req_cookie r session_cookie_name of
      None \<Rightarrow> (Inr None, w)
    | Some c \<Rightarrow> (case session_by c (w_db w) of
        None \<Rightarrow> (Inr None, w)
      | Some row \<Rightarrow>
          if ss_expires row < w_clock w
          then (Inr None, w\<lparr>w_db := (w_db w)\<lparr>db_sessions := filter (\<lambda>x. ss_id x \<noteq> c) (db_sessions (w_db w))\<rparr>\<rparr>)
          else (case scan_user (user_by (ss_user row) (w_db w)) of
              Inl e \<Rightarrow> (Inl e, w)
            | Inr u \<Rightarrow> (Inr (Some \<lparr>pn_id = c, pn_user = u, pn_expires = ss_expires row\<rparr>), w))))"
  using assms
  by (simp add: session_lookup_def run_simps run_eval users_get_def del_sessions_def
      split: option.split sum.split)

text \<open>A session that was issued is found again: the cookie sent with it opens exactly that session
  until it expires, and no session afterwards (whatever else the request carries).\<close>

theorem issue_then_lookup:
  assumes "session_issue st uid w = ((Inr (Inr s, cks)), w')" and "world_ok w" and "w_faults w' = []"
    and "req_cookie r session_cookie_name = Some (pn_id s)"
  shows "cks = [session_cookie st (pn_id s) (pn_expires s)] \<and> pn_expires s = w_clock w + session_ttl \<and>
    us_id (pn_user s) = uid \<and>
    fst (session_lookup r (w'\<lparr>w_clock := t\<rparr>)) = Inr (if t \<le> pn_expires s then Some s else None)"
proof -
  obtain row d where d: "ins_session row (w_db w) = Inr ((), d)" "w_db w' = d"
      and row: "ss_id row = pn_id s" "ss_expires row = pn_expires s" "ss_user row = uid"
      and s: "pn_expires s = w_clock w + session_ttl" "cks = [session_cookie st (pn_id s) (pn_expires s)]"
      and u: "scan_user (user_by uid d) = Inr (pn_user s)"
    using assms(1)
    by (auto simp: session_issue_def session_insert_def split_sum_ex bindR_Inr_iff ret_run now_run draw_def
        split: list.splits dest!: exec_InrD users_get_Inr
        intro!: that [of "\<lparr>ss_id = pn_id s, ss_user = uid, ss_expires = pn_expires s\<rparr>"])
  have f: "session_by (pn_id s) d = Some row"
    using sessions.inserted_found [OF d(1)] row by simp
  have "us_id (pn_user s) = uid"
    using u by (auto simp: by_defs dest!: scan_user_id row_by_Some)
  with f d row s u assms(3,4) show ?thesis
    by (simp add: lookup_none)
qed

text \<open>Logging out is final: after a revocation that succeeded, no request with that cookie ever
  opens a session, as long as no session of that identifier is issued again.\<close>

theorem revoke_is_final:
  assumes "session_revoke st r w = (Inr (Inr (), cks), w')" and "req_cookie r session_cookie_name = Some c"
    and "req_cookie r2 session_cookie_name = Some c" and "w_db w2 = w_db w'"
  shows "fst (session_lookup r2 w2) \<noteq> Inr (Some s)"
proof
  assume "fst (session_lookup r2 w2) = Inr (Some s)"
  then obtain row where "session_by c (w_db w') = Some row"
    using lookup_sound [of r2 w2 s "snd (session_lookup r2 w2)"] assms(3,4)
    by (auto simp: session_holds_def prod_eq_iff)
  moreover have "session_by c (w_db w') = None"
    using assms(1,2)
    by (auto simp: session_revoke_def split_sum_ex bindR_Inr_iff ret_run del_sessions_def by_defs
        row_by_delete_key dest!: exec_InrD)
  ultimately show False by simp
qed

text \<open>C6: A password reset locks out whoever is signed in: afterwards, and at any later time until new
  sessions are issued, no cookie opens a session of that user.\<close>

theorem reset_closes_sessions:
  assumes "users_set_password bc i pw w = (Inr (), w')" and "w_db w2 = w_db w'"
    and "session_lookup r w2 = (Inr (Some s), w3)"
  shows "us_id (pn_user s) \<noteq> i"
proof
  assume i: "us_id (pn_user s) = i"
  have out: "logged_out i (w_db w2)"
    using users_set_password_Inr [OF assms(1)] assms(2) by (auto simp: revoked_logged_out)
  obtain row c where "session_by c (w_db w2) = Some row"
      "scan_user (user_by (ss_user row) (w_db w2)) = Inr (pn_user s)"
    using lookup_sound [OF assms(3)] by (auto simp: session_holds_def)
  then have "row \<in> set (db_sessions (w_db w2))" "ss_user row = i"
    using i by (auto simp: by_defs dest!: row_by_Some scan_user_id)
  with out show False by (simp add: logged_out_def)
qed

text \<open>The purge of expired sessions cannot be observed through the portal: whatever cut-off up to the
  present it is run with, every lookup answers what it would have answered without it.\<close>

theorem purge_unobservable:
  assumes "session_purge cutoff w = (Inr (), w')" and "world_ok w" and "w_faults w = []"
    and "cutoff \<le> t" and "w_clock w = t"
  shows "fst (session_lookup r w') = fst (session_lookup r w)"
proof -
  obtain n d where d: "del_sessions (\<lambda>x. ss_expires x < cutoff) (w_db w) = Inr (n, d)" "w' = w\<lparr>w_db := d\<rparr>"
    using assms(1,3) by (auto simp: session_purge_def bindR_Inr_iff ret_run exec_none split: sum.splits prod.splits)
  have ok: "db_ok (w_db w)" using assms(2) by (simp add: world_ok_def)
  have u: "db_users d = db_users (w_db w)" using d(1) by (auto simp: del_sessions_def)
  have f: "session_by c d = (case session_by c (w_db w) of None \<Rightarrow> None
      | Some s \<Rightarrow> if ss_expires s < cutoff then None else Some s)" for c
    using sessions.find_delete [OF ok d(1)] by simp
  show ?thesis
    using assms(3-5) d(2) by (auto simp: lookup_none f u user_by_def split: option.splits sum.splits)
qed

subsection \<open>Witnesses\<close>

definition sample_cookies :: "string \<Rightarrow> request" where
  "sample_cookies c = \<lparr>rq_host = ''nas.example'', rq_tls = True, rq_path = ''/'', rq_query = [], rq_uri = ''/'',
     rq_headers = no_headers (''Cookie'' := [''theme=dark; nass_session='' @ c]), rq_remote = ''10.0.0.7:4321'',
     rq_form = Some [], rq_vars = (\<lambda>_. []), rq_dest = ([], [])\<rparr>"

definition sample_user_world :: world where
  "sample_user_world = snd (users_create sample_bcrypt ''ana'' '''' ''password1'' True sample_world)"

definition sample_session_world :: world where
  "sample_session_world = snd (session_issue \<lparr>sn_domain = ''nas.example'', sn_insecure = False\<rparr> 1 sample_user_world)"

definition sample_session :: portal_session where
  "sample_session = \<lparr>pn_id = ''bb'', pn_user = \<lparr>us_id = 1, us_name = ''ana'', us_email = '''',
     us_admin = True, us_created = 0, us_updated = 0\<rparr>, pn_expires = session_ttl\<rparr>"

lemma sample_cookie: "req_cookie (sample_cookies ''bb'') session_cookie_name = Some ''bb''"
  by code_simp

lemma sample_user_world_ok: "world_ok sample_user_world"
  unfolding sample_user_world_def
  by (rule preservesD [OF preserves_users_create sample_world_ok(1)])

lemma sample_session_world_ok: "world_ok sample_session_world"
  unfolding sample_session_world_def
  by (rule preservesD [OF preserves_session_issue sample_user_world_ok])

lemma sample_user_world_eq:
  "sample_user_world = sample_world\<lparr>w_rand := [''bb'', ''cc'', ''dd''],
     w_db := empty_db\<lparr>db_user_seq := 1, db_users := [\<lparr>usr_id = 1, usr_name = ''ana'', usr_email = None,
       usr_hash = CHR 0x24 # ''password1'', usr_admin = 1, usr_created = 0, usr_updated = 0\<rparr>]\<rparr>\<rparr>"
  by code_simp

lemma sample_issue:
  "session_issue \<lparr>sn_domain = ''nas.example'', sn_insecure = False\<rparr> 1 sample_user_world =
     (Inr (Inr sample_session, [session_cookie \<lparr>sn_domain = ''nas.example'', sn_insecure = False\<rparr> ''bb'' session_ttl]),
      sample_session_world)"
  unfolding sample_session_world_def sample_user_world_eq by code_simp

lemma sample_session_faults: "w_faults sample_session_world = []"
  unfolding sample_session_world_def sample_user_world_eq by code_simp

lemma issue_then_lookup_witness:
  "fst (session_lookup (sample_cookies ''bb'') (sample_session_world\<lparr>w_clock := 5\<rparr>)) = Inr (Some sample_session)"
proof -
  have "5 \<le> pn_expires sample_session" by code_simp
  moreover have "req_cookie (sample_cookies ''bb'') session_cookie_name = Some (pn_id sample_session)"
    by (simp add: sample_cookie sample_session_def)
  ultimately show ?thesis
    using issue_then_lookup [OF sample_issue sample_user_world_ok sample_session_faults] by simp
qed

lemma sample_revoke:
  "session_revoke \<lparr>sn_domain = ''nas.example'', sn_insecure = False\<rparr> (sample_cookies ''bb'') sample_session_world =
     (Inr (Inr (), [cleared_cookie \<lparr>sn_domain = ''nas.example'', sn_insecure = False\<rparr>]),
      sample_session_world\<lparr>w_db := (w_db sample_session_world)\<lparr>db_sessions := []\<rparr>\<rparr>)"
  unfolding sample_session_world_def sample_user_world_eq by code_simp

lemma revoke_is_final_witness:
  "fst (session_lookup (sample_cookies ''bb'')
     (sample_session_world\<lparr>w_db := (w_db sample_session_world)\<lparr>db_sessions := []\<rparr>\<rparr>)) \<noteq> Inr (Some sample_session)"
  by (rule revoke_is_final [OF sample_revoke sample_cookie sample_cookie]) simp

definition sample_two_users :: world where
  "sample_two_users = sample_world\<lparr>w_rand := [''dd''], w_db := empty_db\<lparr>db_user_seq := 2,
     db_users := [\<lparr>usr_id = 1, usr_name = ''ana'', usr_email = None, usr_hash = ''x'', usr_admin = 1,
         usr_created = 0, usr_updated = 0\<rparr>,
       \<lparr>usr_id = 2, usr_name = ''bob'', usr_email = None, usr_hash = ''y'', usr_admin = 0,
         usr_created = 0, usr_updated = 0\<rparr>],
     db_sessions := [\<lparr>ss_id = ''aa'', ss_user = 1, ss_expires = 9\<rparr>, \<lparr>ss_id = ''bb'', ss_user = 2, ss_expires = 9\<rparr>]\<rparr>\<rparr>"

lemma sample_two_users_ok: "world_ok sample_two_users" "w_faults sample_two_users = []" "w_clock sample_two_users = 0"
  by (simp_all add: sample_two_users_def sample_world_def world_ok_def db_ok_def empty_db_def user_ids_def)

definition sample_reset :: world where
  "sample_reset = snd (users_set_password sample_bcrypt 1 ''password2'' sample_two_users)"

lemma sample_reset_run: "users_set_password sample_bcrypt 1 ''password2'' sample_two_users = (Inr (), sample_reset)"
  unfolding sample_reset_def by code_simp

lemma sample_reset_bob:
  "session_lookup (sample_cookies ''bb'') sample_reset = (Inr (Some \<lparr>pn_id = ''bb'', pn_user = \<lparr>us_id = 2, us_name = ''bob'',
     us_email = '''', us_admin = False, us_created = 0, us_updated = 0\<rparr>, pn_expires = 9\<rparr>), sample_reset)"
  unfolding sample_reset_def by code_simp

lemma reset_closes_sessions_witness: "(2 :: int) \<noteq> 1"
  using reset_closes_sessions [OF sample_reset_run refl sample_reset_bob] by simp

lemma sample_purge: "session_purge 0 sample_two_users = (Inr (), snd (session_purge 0 sample_two_users))"
  by code_simp

lemma purge_unobservable_witness:
  "fst (session_lookup (sample_cookies ''bb'') (snd (session_purge 0 sample_two_users))) =
   fst (session_lookup (sample_cookies ''bb'') sample_two_users)"
  by (rule purge_unobservable [OF sample_purge sample_two_users_ok(1,2) _ sample_two_users_ok(3)]) simp

end
