(* ===== verification/Portal_Gate.thy ===== *)
theory Portal_Gate
  imports Portal_Sessions
begin

text \<open>
  The gate in front of apps without a login of their own (\<^verbatim>\<open>internal/portal/gate.go\<close>): it wraps a
  handler with a session check, sends a visitor without a session to the portal's login with the
  address to come back to, and sets the identity headers from the session. The locale
  \<open>session_source\<close> is what the gate needs of a lookup; the portal's session store provides it.
\<close>

definition request_url :: "request \<Rightarrow> string" where
  "request_url r = (if rq_tls r then ''https'' else ''http'') @ ''://'' @ rq_host r @ rq_uri r"

definition set_identity :: "user \<Rightarrow> headers \<Rightarrow> headers" where
  "set_identity u h =
     (let h1 = hdr_set h ''Remote-User'' (us_name u);
          h2 = (if us_email u \<noteq> [] then hdr_set h1 ''Remote-Email'' (us_email u) else h1);
          h3 = hdr_set h2 ''Remote-Name'' (us_name u)
      in if us_admin u then hdr_set h3 ''Remote-Groups'' ''admin'' else h3)"

definition login_redirect :: "string \<Rightarrow> request \<Rightarrow> string" where
  "login_redirect portal_url r = portal_url @ ''/portal/login?next='' @ query_escape (request_url r)"

definition gate_wrap_with ::
  "(request \<Rightarrow> ('w, portal_session option) run) \<Rightarrow> string \<Rightarrow> 'w handler \<Rightarrow> 'w handler" where
  "gate_wrap_with lookup portal_url h r0 w =
     (let r = drop_identity r0 in
      case lookup r w of
        (Inl e, w1) \<Rightarrow> ((HttpError 500 (error_text e), []), w1)
      | (Inr None, w1) \<Rightarrow> ((Redirect 302 (login_redirect portal_url r), []), w1)
      | (Inr (Some sess), w1) \<Rightarrow> h (r\<lparr>rq_headers := set_identity (pn_user sess) (rq_headers r)\<rparr>) w1)"

definition gate_wrap :: "string \<Rightarrow> 'r world_scheme handler \<Rightarrow> 'r world_scheme handler" where
  "gate_wrap = gate_wrap_with session_lookup"

subsection \<open>Identity headers\<close>

definition identity_of :: "user \<Rightarrow> string \<Rightarrow> string list" where
  "identity_of u k =
     (if k = ''Remote-User'' \<or> k = ''Remote-Name'' then [us_name u]
      else if k = ''Remote-Email'' then (if us_email u = [] then [] else [us_email u])
      else if k = ''Remote-Groups'' then (if us_admin u then [''admin''] else [])
      else [])"

lemma drop_identity_simps [simp]:
  "k \<in> set identity_headers \<Longrightarrow> rq_headers (drop_identity r) k = []"
  "k \<notin> set identity_headers \<Longrightarrow> rq_headers (drop_identity r) k = rq_headers r k"
  "rq_host (drop_identity r) = rq_host r" "rq_tls (drop_identity r) = rq_tls r"
  "rq_uri (drop_identity r) = rq_uri r" "rq_path (drop_identity r) = rq_path r"
  by (simp_all add: drop_identity_def fold_del_gone fold_del_other)

lemma drop_identity_idem [simp]: "drop_identity (drop_identity r) = drop_identity r"
proof -
  have "rq_headers (drop_identity (drop_identity r)) = rq_headers (drop_identity r)"
    by (rule ext) (metis drop_identity_simps(1,2))
  then show ?thesis by (simp add: drop_identity_def)
qed

lemma req_cookie_drop_identity [simp]: "req_cookie (drop_identity r) n = req_cookie r n"
  by (rule req_cookie_cong) (simp add: identity_headers_def)

lemma set_identity_headers:
  "k \<in> set identity_headers \<Longrightarrow> (\<And>k. k \<in> set identity_headers \<Longrightarrow> h k = []) \<Longrightarrow> set_identity u h k = identity_of u k"
  by (auto simp: set_identity_def Let_def identity_of_def identity_headers_def)

definition identified :: "portal_session \<Rightarrow> request \<Rightarrow> request" where
  "identified s r = (drop_identity r)\<lparr>rq_headers := set_identity (pn_user s) (rq_headers (drop_identity r))\<rparr>"

lemma identified_headers:
  "k \<in> set identity_headers \<Longrightarrow> rq_headers (identified s r) k = identity_of (pn_user s) k"
  by (simp add: identified_def set_identity_headers)

subsection \<open>The gate over any source of sessions\<close>

locale session_source =
  fixes lookup :: "request \<Rightarrow> ('w, portal_session option) run"
    and valid :: "'w \<Rightarrow> request \<Rightarrow> portal_session \<Rightarrow> bool"
  assumes lookup_valid: "lookup r w = (Inr (Some s), w') \<Longrightarrow> valid w r s"
    and valid_identity: "valid w (drop_identity r) s = valid w r s"
begin

lemma gate_passes:
  assumes "gate_wrap_with lookup url h r w = ((resp, cks), w')"
  shows "(\<exists>s w1. valid w r s \<and> h (identified s r) w1 = ((resp, cks), w')) \<or>
    (\<exists>t. resp = Redirect 302 t) \<or> (\<exists>t. resp = HttpError 500 t)"
proof (cases "lookup (drop_identity r) w")
  case (Pair res w1)
  show ?thesis
  proof (cases res)
    case (Inr so)
    then show ?thesis
      using assms Pair lookup_valid [of "drop_identity r" w _ w1] valid_identity
      by (cases so) (auto simp: gate_wrap_with_def Let_def identified_def)
  qed (use assms Pair in \<open>auto simp: gate_wrap_with_def Let_def\<close>)
qed

lemma gate_stops:
  assumes "\<And>s. \<not> valid w r s"
  shows "\<exists>w1. (\<exists>e. gate_wrap_with lookup url h r w = ((HttpError 500 (error_text e), []), w1)) \<or>
    gate_wrap_with lookup url h r w = ((Redirect 302 (login_redirect url (drop_identity r)), []), w1)"
proof (cases "lookup (drop_identity r) w")
  case (Pair res w1)
  then show ?thesis
    using assms lookup_valid [of "drop_identity r" w _ w1] valid_identity
    by (cases res; cases "projr res") (auto simp: gate_wrap_with_def Let_def)
qed

end

definition session_valid :: "'r world_scheme \<Rightarrow> request \<Rightarrow> portal_session \<Rightarrow> bool" where
  "session_valid w r s \<longleftrightarrow> (\<exists>c. req_cookie r session_cookie_name = Some c \<and> session_holds w c s)"

interpretation portal_sessions: session_source session_lookup session_valid
  by unfold_locales (auto simp: session_valid_def dest!: lookup_sound)

text \<open>C4: Without a valid session a gated app is never reached: the reply does not depend on the app's
  handler at all, it is the redirect to the portal's login (or the report of a database failure).\<close>

theorem anonymous_never_reaches_app:
  assumes "\<forall>s. \<not> session_valid w r s"
  shows "\<exists>rep w1. (\<forall>h. gate_wrap url h r w = (rep, w1)) \<and>
    ((\<exists>e. rep = (HttpError 500 (error_text e), [])) \<or> rep = (Redirect 302 (login_redirect url r), []))"
proof -
  have url: "login_redirect url (drop_identity r) = login_redirect url r"
    by (simp add: login_redirect_def request_url_def)
  have indep: "gate_wrap url h r w = gate_wrap url h' r w" for h h'
  proof (cases "session_lookup (drop_identity r) w")
    case (Pair res w1)
    then show ?thesis
      using assms portal_sessions.lookup_valid [of "drop_identity r" w _ w1] portal_sessions.valid_identity [of w r]
      by (cases res; cases "projr res") (auto simp: gate_wrap_def gate_wrap_with_def Let_def)
  qed
  obtain w1 where "(\<exists>e. gate_wrap url undefined r w = ((HttpError 500 (error_text e), []), w1)) \<or>
      gate_wrap url undefined r w = ((Redirect 302 (login_redirect url r), []), w1)"
    using portal_sessions.gate_stops [of w r url undefined] assms unfolding gate_wrap_def url by blast
  with indep show ?thesis by metis
qed

lemma anonymous_never_reaches_app_witness:
  "\<exists>rep w1. (\<forall>h. gate_wrap ''https://nas.example'' h (sample_cookies ''zz'') sample_two_users = (rep, w1)) \<and>
    ((\<exists>e. rep = (HttpError 500 (error_text e), [])) \<or>
     rep = (Redirect 302 (login_redirect ''https://nas.example'' (sample_cookies ''zz'')), []))"
proof (rule anonymous_never_reaches_app)
  have "session_by ''zz'' (w_db sample_two_users) = None" by code_simp
  moreover have "req_cookie (sample_cookies ''zz'') session_cookie_name = Some ''zz''" by code_simp
  ultimately show "\<forall>s. \<not> session_valid sample_two_users (sample_cookies ''zz'') s"
    by (simp add: session_valid_def session_holds_def)
qed

text \<open>What the front door forwards: to a gated app only for the user of a valid session, under that user's name.\<close>

lemma forwarded_identity:
  fixes w :: "'r world_scheme"
  assumes "sv_routes sv (to_lower (strip_port (rq_host r))) = Some (if gated then gate_wrap url prx else prx)"
    and "new_reverse_proxy hop opts = Inr prx"
    and "serve_http sv r w = ((Proxied out, cks), w')"
    and "\<forall>h. \<forall>k \<in> set identity_headers. hop h k = h k \<or> hop h k = []"
  shows "if gated then \<exists>s. session_valid w r s \<and> (\<forall>k \<in> set identity_headers. rq_headers out k = [] \<or> rq_headers out k = identity_of (pn_user s) k)
    else \<forall>k \<in> set identity_headers. rq_headers out k = []"
proof -
  have prx: "rq_headers out k = [] \<or> rq_headers out k = rq_headers q k" if "prx q v = ((Proxied out, cks), w')" "k \<in> set identity_headers" for q v k
  proof -
    have "k \<notin> set (''Cookie'' # forwarded_headers)" using that(2) by (auto simp: identity_headers_def forwarded_headers_def)
    moreover have "hop (rq_headers q) k = rq_headers q k \<or> hop (rq_headers q) k = []" using assms(4) that(2) by blast
    ultimately show ?thesis
      using that(1) assms(2) rewrite_other_header [of k] by (auto simp: new_reverse_proxy_def Let_def split: option.splits)
  qed
  show ?thesis
  proof (cases gated)
    case False
    then show ?thesis
      using assms(1,3) prx [of "drop_identity r" w] by (auto simp: serve_http_def)
  next
    case True
    then have "gate_wrap url prx (drop_identity r) w = ((Proxied out, cks), w')"
      using assms(1,3) by (simp add: serve_http_def)
    then obtain s w1 where s: "session_valid w (drop_identity r) s"
        "prx (identified s (drop_identity r)) w1 = ((Proxied out, cks), w')"
      unfolding gate_wrap_def by (auto dest!: portal_sessions.gate_passes)
    then have "session_valid w r s" using portal_sessions.valid_identity by blast
    moreover have "rq_headers out k = [] \<or> rq_headers out k = identity_of (pn_user s) k" if "k \<in> set identity_headers" for k
      using prx [OF s(2) that] identified_headers [OF that] by simp
    ultimately show ?thesis using True by auto
  qed
qed

text \<open>The identity headers can be trusted: in a request that the front door forwards to a backend,
  gated or not, each of the four identity headers is absent, or the app is gated and it is the value
  for the user of a valid session whose cookie the request carried; what the client sent in them
  never gets through. (Before rewriting, the proxy's removal of hop-by-hop headers keeps or drops
  an identity header.)\<close>

theorem identity_headers_trustworthy:
  fixes w :: "'r world_scheme"
  assumes "sv_routes sv (to_lower (strip_port (rq_host r))) = Some (if gated then gate_wrap url prx else prx)"
    and "new_reverse_proxy hop opts = Inr prx"
    and "serve_http sv r w = ((Proxied out, cks), w')"
    and "\<forall>h. \<forall>k \<in> set identity_headers. hop h k = h k \<or> hop h k = []"
    and "k \<in> set identity_headers"
  shows "rq_headers out k = [] \<or>
    (gated \<and> (\<exists>s. session_valid w r s \<and> rq_headers out k = identity_of (pn_user s) k))"
  using forwarded_identity [OF assms(1-4)] assms(5) by (auto split: if_splits)

definition sample_proxy :: "'w handler" where
  "sample_proxy = (\<lambda>r w. ((Proxied (rewrite id sample_backend True r), []), w))"

definition sample_server :: "world handler server" where
  "sample_server = add_route ''nas.example'' (gate_wrap ''https://nas.example'' sample_proxy) new_server"

lemma identity_headers_trustworthy_witness:
  "\<exists>out cks w'. serve_http sample_server (sample_cookies ''bb'') sample_two_users = ((Proxied out, cks), w') \<and>
     (rq_headers out ''Remote-User'' = [] \<or> (\<exists>s. session_valid sample_two_users (sample_cookies ''bb'') s \<and>
       rq_headers out ''Remote-User'' = identity_of (pn_user s) ''Remote-User''))"
proof -
  have h: "to_lower (strip_port (rq_host (sample_cookies ''bb''))) = ''nas.example''" by code_simp
  have l: "to_lower ''nas.example'' = ''nas.example''" by code_simp
  have r: "sv_routes sample_server (to_lower (strip_port (rq_host (sample_cookies ''bb'')))) =
      Some (if True then gate_wrap ''https://nas.example'' sample_proxy else sample_proxy)"
    by (simp add: sample_server_def add_route_def h l)
  have p: "new_reverse_proxy id \<lparr>bo_backend = Some sample_backend, bo_flush = 0, bo_max_idle = 0, bo_timeout = 0,
      bo_preserve = True\<rparr> = Inr sample_proxy"
    by (simp add: new_reverse_proxy_def proxy_defaults_def sample_proxy_def)
  have c: "req_cookie (drop_identity (drop_identity (sample_cookies ''bb''))) session_cookie_name = Some ''bb''"
    by code_simp
  have "session_by ''bb'' (w_db sample_two_users) = Some \<lparr>ss_id = ''bb'', ss_user = 2, ss_expires = 9\<rparr>"
    "scan_user (user_by 2 (w_db sample_two_users)) = Inr \<lparr>us_id = 2, us_name = ''bob'', us_email = '''',
       us_admin = False, us_created = 0, us_updated = 0\<rparr>"
    by code_simp+
  then obtain out where s: "serve_http sample_server (sample_cookies ''bb'') sample_two_users = ((Proxied out, []), sample_two_users)"
    using r c sample_two_users_ok(2,3)
    by (simp add: serve_http_def gate_wrap_def gate_wrap_with_def Let_def lookup_none sample_proxy_def)
  have k: "''Remote-User'' \<in> set identity_headers" by (simp add: identity_headers_def)
  show ?thesis
    using identity_headers_trustworthy [OF r p s _ k] s by auto
qed

end
