(* ===== verification/Login_Throttle.thy ===== *)
theory Login_Throttle
  imports Go_Http
begin

text \<open>
  The login throttle (\<^verbatim>\<open>internal/auth/throttle.go\<close>): failures per IP and user name and per IP, kept
  as lists of instants in one map, with a sliding window. Every operation takes the instant
  \<open>now\<close> that its \<open>time.Now\<close> calls return (one reading per operation; the mutex makes an operation
  atomic). The zero \<open>lastSweep\<close> is \<open>None\<close>: \<open>now.Sub\<close> of the zero time saturates above every window.
  A nil receiver is the \<open>None\<close> of the exported operations.

  \<open>live\<close> abstracts the state to the failures that still count; the refinement lemmas state each
  operation on it, and \<open>throttle_refines_log\<close> relates a whole history of calls to the plain log
  of failures. The locale \<open>attempt_limiter\<close> is what the two login forms use.
\<close>

record login_throttle =
  th_max :: int
  th_ip_max :: int
  th_window :: int
  th_entries :: "string \<Rightarrow> int list option"
  th_last_sweep :: "int option"

definition minute_ns :: int where
  "minute_ns = 60 * 10 ^ 9"

definition new_login_throttle :: "int \<Rightarrow> int \<Rightarrow> int \<Rightarrow> login_throttle" where
  "new_login_throttle mx ip_max window =
     (let mx' = (if mx \<le> 0 then 10 else mx);
          ip' = (if ip_max \<le> 0 then 3 * mx' else ip_max);
          win' = (if window \<le> 0 then minute_ns else window)
      in \<lparr>th_max = mx', th_ip_max = ip', th_window = win', th_entries = (\<lambda>_. None), th_last_sweep = None\<rparr>)"

definition client_ip :: "request \<Rightarrow> string" where
  "client_ip r = (case split_host_port (rq_remote r) of None \<Rightarrow> rq_remote r | Some (h, _) \<Rightarrow> h)"

definition user_key :: "string \<Rightarrow> string \<Rightarrow> string" where
  "user_key ip username = ''u|'' @ ip @ ''|'' @ username"

definition ip_key :: "string \<Rightarrow> string" where
  "ip_key ip = ''ip|'' @ ip"

definition th_trim :: "int \<Rightarrow> string \<Rightarrow> login_throttle \<Rightarrow> login_throttle" where
  "th_trim now k t = (case th_entries t k of
       None \<Rightarrow> t
     | Some failures \<Rightarrow>
         (let keep = filter (\<lambda>ts. now - th_window t < ts) failures in
          t\<lparr>th_entries := (th_entries t)(k := (if keep = [] then None else Some keep))\<rparr>))"

definition th_sweep :: "int \<Rightarrow> login_throttle \<Rightarrow> login_throttle" where
  "th_sweep now t =
     (if (case th_last_sweep t of None \<Rightarrow> False | Some l \<Rightarrow> now - l < th_window t) then t
      else t\<lparr>th_last_sweep := Some now,
             th_entries := (\<lambda>k. th_entries (th_trim now k t) k)\<rparr>)"

definition entries_of :: "string \<Rightarrow> login_throttle \<Rightarrow> int list" where
  "entries_of k t = (case th_entries t k of None \<Rightarrow> [] | Some fs \<Rightarrow> fs)"

definition th_record :: "int \<Rightarrow> string \<Rightarrow> login_throttle \<Rightarrow> login_throttle" where
  "th_record now k t =
     th_trim now k (t\<lparr>th_entries := (th_entries t)(k := Some (entries_of k t @ [now]))\<rparr>)"

definition th_allow1 :: "int \<Rightarrow> string \<Rightarrow> string \<Rightarrow> login_throttle \<Rightarrow> bool \<times> login_throttle" where
  "th_allow1 now ip username t =
     (let uk = user_key ip username; ik = ip_key ip;
          t1 = th_trim now ik (th_trim now uk t)
      in (int (length (entries_of uk t1)) < th_max t1 \<and> int (length (entries_of ik t1)) < th_ip_max t1, t1))"

definition th_failed1 :: "int \<Rightarrow> string \<Rightarrow> string \<Rightarrow> login_throttle \<Rightarrow> login_throttle" where
  "th_failed1 now ip username t =
     th_sweep now (fold (th_record now) [user_key ip username, ip_key ip] t)"

definition th_success1 :: "string \<Rightarrow> string \<Rightarrow> login_throttle \<Rightarrow> login_throttle" where
  "th_success1 ip username t = t\<lparr>th_entries := (th_entries t)(user_key ip username := None)\<rparr>"

definition th_wait :: "int \<Rightarrow> string \<Rightarrow> int \<Rightarrow> login_throttle \<Rightarrow> int \<times> login_throttle" where
  "th_wait now k limit t =
     (let t1 = th_trim now k t; failures = entries_of k t1 in
      if int (length failures) < limit then (0, t1)
      else (max 0 (th_window t1 - (now - failures ! (length failures - nat limit))), t1))"

definition th_retry_after1 :: "int \<Rightarrow> string \<Rightarrow> string \<Rightarrow> login_throttle \<Rightarrow> int \<times> login_throttle" where
  "th_retry_after1 now ip username t =
     (case th_wait now (user_key ip username) (th_max t) t of (a, t1) \<Rightarrow>
      case th_wait now (ip_key ip) (th_ip_max t1) t1 of (b, t2) \<Rightarrow> (max a b, t2))"

text \<open>The exported operations, on a receiver that may be nil.\<close>

definition th_allow :: "int \<Rightarrow> string \<Rightarrow> string \<Rightarrow> login_throttle option \<Rightarrow> bool \<times> login_throttle option" where
  "th_allow now ip username t = (case t of
       None \<Rightarrow> (True, None)
     | Some t1 \<Rightarrow> (fst (th_allow1 now ip username t1), Some (snd (th_allow1 now ip username t1))))"

definition th_failed :: "int \<Rightarrow> string \<Rightarrow> string \<Rightarrow> login_throttle option \<Rightarrow> login_throttle option" where
  "th_failed now ip username t = map_option (th_failed1 now ip username) t"

definition th_success :: "string \<Rightarrow> string \<Rightarrow> login_throttle option \<Rightarrow> login_throttle option" where
  "th_success ip username t = map_option (th_success1 ip username) t"

definition th_retry_after :: "int \<Rightarrow> string \<Rightarrow> string \<Rightarrow> login_throttle option \<Rightarrow> int \<times> login_throttle option" where
  "th_retry_after now ip username t = (case t of
       None \<Rightarrow> (0, None)
     | Some t1 \<Rightarrow> (fst (th_retry_after1 now ip username t1), Some (snd (th_retry_after1 now ip username t1))))"

text \<open>The Retry-After header of both login forms: \<open>wait.Round(time.Second).Seconds()\<close> of a wait that is not
  negative, printed without decimals.\<close>

definition second_ns :: int where
  "second_ns = 10 ^ 9"

definition retry_after_text :: "int \<Rightarrow> string" where
  "retry_after_text wait = (let rest = wait mod second_ns; whole = wait - rest in
     format_int ((if rest + rest < second_ns then whole else whole + second_ns) div second_ns))"

subsection \<open>The two families of keys\<close>

lemma user_key_ip_key [simp]: "user_key ip u \<noteq> ip_key ip'" "ip_key ip' \<noteq> user_key ip u"
  by (auto simp: user_key_def ip_key_def)

lemma ip_key_inj [simp]: "ip_key a = ip_key b \<longleftrightarrow> a = b"
  by (simp add: ip_key_def)

lemma append_sep_inj:
  "c \<notin> set a \<Longrightarrow> c \<notin> set b \<Longrightarrow> a @ c # x = b @ c # y \<longleftrightarrow> a = b \<and> x = y"
proof (induction a arbitrary: b)
  case (Cons z a)
  then show ?case by (cases b) auto
qed (auto simp: Cons_eq_append_conv)

lemma user_key_inj [simp]:
  "CHR ''|'' \<notin> set a \<Longrightarrow> CHR ''|'' \<notin> set b \<Longrightarrow> user_key a x = user_key b y \<longleftrightarrow> a = b \<and> x = y"
  by (simp add: user_key_def append_sep_inj)

subsection \<open>The failures that still count\<close>

definition live :: "int \<Rightarrow> string \<Rightarrow> login_throttle \<Rightarrow> int list" where
  "live now k t = filter (\<lambda>ts. now - th_window t < ts) (entries_of k t)"

lemma trim_config [simp]:
  "th_max (th_trim now k t) = th_max t" "th_ip_max (th_trim now k t) = th_ip_max t"
  "th_window (th_trim now k t) = th_window t" "th_last_sweep (th_trim now k t) = th_last_sweep t"
  by (simp_all add: th_trim_def Let_def split: option.splits)

lemma entries_trim:
  "entries_of k' (th_trim now k t) = (if k' = k then live now k t else entries_of k' t)"
  by (auto simp: th_trim_def live_def entries_of_def Let_def split: option.splits)

lemma live_trim: "now \<le> now' \<Longrightarrow> live now' k' (th_trim now k t) = live now' k' t"
  by (auto simp: live_def entries_trim intro: filter_cong)

lemma record_config [simp]:
  "th_max (th_record now k t) = th_max t" "th_ip_max (th_record now k t) = th_ip_max t"
  "th_window (th_record now k t) = th_window t" "th_last_sweep (th_record now k t) = th_last_sweep t"
  by (simp_all add: th_record_def)

lemma live_record:
  "now \<le> now' \<Longrightarrow> live now' k' (th_record now k t) =
     live now' k' t @ (if k' = k \<and> now' - th_window t < now then [now] else [])"
  unfolding th_record_def by (subst live_trim) (auto simp: live_def entries_of_def)

lemma sweep_config [simp]:
  "th_max (th_sweep now t) = th_max t" "th_ip_max (th_sweep now t) = th_ip_max t"
  "th_window (th_sweep now t) = th_window t"
  by (simp_all add: th_sweep_def)

lemma live_sweep: "now \<le> now' \<Longrightarrow> live now' k (th_sweep now t) = live now' k t"
proof -
  assume le: "now \<le> now'"
  have "entries_of k (t\<lparr>th_last_sweep := Some now, th_entries := (\<lambda>k. th_entries (th_trim now k t) k)\<rparr>)
      = live now k t"
    using entries_trim [of k now k t] by (simp add: entries_of_def)
  with le show ?thesis by (auto simp: th_sweep_def live_def intro!: filter_cong)
qed

lemma allow_config [simp]:
  "th_max (snd (th_allow1 now ip u t)) = th_max t" "th_ip_max (snd (th_allow1 now ip u t)) = th_ip_max t"
  "th_window (snd (th_allow1 now ip u t)) = th_window t"
  by (simp_all add: th_allow1_def Let_def)

lemma failed_config [simp]:
  "th_max (th_failed1 now ip u t) = th_max t" "th_ip_max (th_failed1 now ip u t) = th_ip_max t"
  "th_window (th_failed1 now ip u t) = th_window t"
  by (simp_all add: th_failed1_def)

lemma success_config [simp]:
  "th_max (th_success1 ip u t) = th_max t" "th_ip_max (th_success1 ip u t) = th_ip_max t"
  "th_window (th_success1 ip u t) = th_window t"
  by (simp_all add: th_success1_def)

lemma live_allow: "now \<le> now' \<Longrightarrow> live now' k (snd (th_allow1 now ip u t)) = live now' k t"
  by (simp add: th_allow1_def Let_def live_trim)

lemma allow_iff:
  "fst (th_allow1 now ip u t) \<longleftrightarrow>
     int (length (live now (user_key ip u) t)) < th_max t \<and> int (length (live now (ip_key ip) t)) < th_ip_max t"
  by (simp add: th_allow1_def Let_def entries_trim live_trim)

lemma live_failed:
  "now \<le> now' \<Longrightarrow> live now' k (th_failed1 now ip u t) =
     live now' k t @ (if (k = user_key ip u \<or> k = ip_key ip) \<and> now' - th_window t < now then [now] else [])"
  by (simp add: th_failed1_def live_sweep live_record)

lemma live_success:
  "live now' k (th_success1 ip u t) = (if k = user_key ip u then [] else live now' k t)"
  by (simp add: live_def th_success1_def entries_of_def)

lemma live_antimono: "now \<le> now' \<Longrightarrow> length (live now' k t) \<le> length (live now k t)"
proof -
  assume "now \<le> now'"
  then have "live now' k t = filter (\<lambda>ts. now' - th_window t < ts) (live now k t)"
    by (auto simp: live_def intro: filter_cong)
  then show ?thesis by simp
qed

subsection \<open>Histories of calls\<close>

datatype th_event =
    EvAllow int string string
  | EvFailed int string string
  | EvSuccess int string string
  | EvRetry int string string

fun ev_time :: "th_event \<Rightarrow> int" where
  "ev_time (EvAllow t _ _) = t"
| "ev_time (EvFailed t _ _) = t"
| "ev_time (EvSuccess t _ _) = t"
| "ev_time (EvRetry t _ _) = t"

fun ev_ip :: "th_event \<Rightarrow> string" where
  "ev_ip (EvAllow _ ip _) = ip"
| "ev_ip (EvFailed _ ip _) = ip"
| "ev_ip (EvSuccess _ ip _) = ip"
| "ev_ip (EvRetry _ ip _) = ip"

fun th_step :: "th_event \<Rightarrow> login_throttle \<Rightarrow> login_throttle" where
  "th_step (EvAllow t ip u) s = snd (th_allow1 t ip u s)"
| "th_step (EvFailed t ip u) s = th_failed1 t ip u s"
| "th_step (EvSuccess t ip u) s = th_success1 ip u s"
| "th_step (EvRetry t ip u) s = snd (th_retry_after1 t ip u s)"

text \<open>The specification: the instants of the failures that count against a user of an IP (those
  since the last success) and against an IP (all of them), read off the history.\<close>

fun user_log1 :: "string \<Rightarrow> string \<Rightarrow> th_event \<Rightarrow> int list \<Rightarrow> int list" where
  "user_log1 ip u (EvFailed t i v) l = (if i = ip \<and> v = u then l @ [t] else l)"
| "user_log1 ip u (EvSuccess t i v) l = (if i = ip \<and> v = u then [] else l)"
| "user_log1 ip u e l = l"

fun ip_log1 :: "string \<Rightarrow> th_event \<Rightarrow> int list \<Rightarrow> int list" where
  "ip_log1 ip (EvFailed t i v) l = (if i = ip then l @ [t] else l)"
| "ip_log1 ip e l = l"

definition user_log :: "string \<Rightarrow> string \<Rightarrow> th_event list \<Rightarrow> int list" where
  "user_log ip u evs = fold (user_log1 ip u) evs []"

definition ip_log :: "string \<Rightarrow> th_event list \<Rightarrow> int list" where
  "ip_log ip evs = fold (ip_log1 ip) evs []"

lemma wait_config [simp]:
  "th_max (snd (th_wait now k l t)) = th_max t" "th_ip_max (snd (th_wait now k l t)) = th_ip_max t"
  "th_window (snd (th_wait now k l t)) = th_window t"
  by (simp_all add: th_wait_def Let_def)

lemma retry_config [simp]:
  "th_max (snd (th_retry_after1 now ip u t)) = th_max t"
  "th_ip_max (snd (th_retry_after1 now ip u t)) = th_ip_max t"
  "th_window (snd (th_retry_after1 now ip u t)) = th_window t"
  by (simp_all add: th_retry_after1_def case_prod_beta)

lemma live_wait: "now \<le> now' \<Longrightarrow> live now' k' (snd (th_wait now k l t)) = live now' k' t"
  by (simp add: th_wait_def Let_def live_trim)

lemma live_retry: "now \<le> now' \<Longrightarrow> live now' k (snd (th_retry_after1 now ip u t)) = live now' k t"
  by (simp add: th_retry_after1_def case_prod_beta live_wait)

lemma step_config [simp]:
  "th_max (th_step e t) = th_max t" "th_ip_max (th_step e t) = th_ip_max t" "th_window (th_step e t) = th_window t"
  by (cases e; simp)+

lemma run_config [simp]:
  "th_max (fold th_step evs t) = th_max t" "th_ip_max (fold th_step evs t) = th_ip_max t"
  "th_window (fold th_step evs t) = th_window t"
  by (induction evs arbitrary: t) simp_all

lemma live_run_user:
  assumes "\<forall>e \<in> set evs. ev_time e \<le> now \<and> CHR ''|'' \<notin> set (ev_ip e)" "CHR ''|'' \<notin> set ip"
    and "th_entries t = (\<lambda>_. None)"
  shows "live now (user_key ip u) (fold th_step evs t) = filter (\<lambda>x. now - th_window t < x) (user_log ip u evs)"
  using assms
proof (induction evs rule: rev_induct)
  case Nil
  then show ?case by (simp add: live_def entries_of_def user_log_def)
next
  case (snoc e evs)
  then show ?case
    by (cases e) (auto simp: live_allow live_failed live_success live_retry user_log_def)
qed

lemma live_run_ip:
  assumes "\<forall>e \<in> set evs. ev_time e \<le> now" "th_entries t = (\<lambda>_. None)"
  shows "live now (ip_key ip) (fold th_step evs t) = filter (\<lambda>x. now - th_window t < x) (ip_log ip evs)"
  using assms
proof (induction evs rule: rev_induct)
  case Nil
  then show ?case by (simp add: live_def entries_of_def ip_log_def)
next
  case (snoc e evs)
  then show ?case
    by (cases e) (auto simp: live_allow live_failed live_success live_retry ip_log_def)
qed

text \<open>C12: The throttle's map, its trimming and its sweeping are an implementation of the plain log of
  failures: after any history of calls, a login is allowed exactly when the failures of the last
  window since the last success of that user from that IP stay below \<open>max\<close> and all failures of the
  last window from that IP stay below \<open>ipMax\<close>. (IPs have no vertical bar, so the keys of two
  users never collide.)\<close>

theorem throttle_refines_log:
  assumes "\<forall>e \<in> set evs. ev_time e \<le> now \<and> CHR ''|'' \<notin> set (ev_ip e)" and "CHR ''|'' \<notin> set ip"
    and "0 < mx" "0 < ip_max" "0 < window"
  shows "fst (th_allow1 now ip u (fold th_step evs (new_login_throttle mx ip_max window))) \<longleftrightarrow>
    int (length (filter (\<lambda>x. now - window < x) (user_log ip u evs))) < mx \<and>
    int (length (filter (\<lambda>x. now - window < x) (ip_log ip evs))) < ip_max"
  using assms by (simp add: allow_iff live_run_user live_run_ip new_login_throttle_def)

lemma throttle_refines_log_witness:
  "\<not> fst (th_allow1 9 ''10.0.0.7'' ''ana'' (fold th_step
      [EvFailed 1 ''10.0.0.7'' ''ana'', EvAllow 2 ''10.0.0.7'' ''ana'', EvFailed 3 ''10.0.0.7'' ''ana'']
      (new_login_throttle 2 6 20)))"
  by (subst throttle_refines_log) (simp_all add: user_log_def ip_log_def)

subsection \<open>The invariant of the map\<close>

definition th_inv :: "int \<Rightarrow> login_throttle \<Rightarrow> bool" where
  "th_inv now t \<longleftrightarrow> 0 < th_max t \<and> 0 < th_ip_max t \<and> 0 < th_window t \<and>
     (\<forall>k. sorted (entries_of k t) \<and> (\<forall>x \<in> set (entries_of k t). x \<le> now) \<and> th_entries t k \<noteq> Some [])"

lemma inv_new: "th_inv now (new_login_throttle mx ip_max window)"
  by (simp add: th_inv_def new_login_throttle_def Let_def entries_of_def minute_ns_def)

lemma inv_later: "th_inv now t \<Longrightarrow> now \<le> now' \<Longrightarrow> th_inv now' t"
  by (fastforce simp: th_inv_def)

lemma trim_Some_Nil: "th_entries t k' \<noteq> Some [] \<Longrightarrow> th_entries (th_trim now k t) k' \<noteq> Some []"
  by (auto simp: th_trim_def Let_def split: option.splits if_splits)

lemma inv_trim: "th_inv now t \<Longrightarrow> th_inv now (th_trim now' k t)"
  by (auto simp: th_inv_def entries_trim live_def trim_Some_Nil sorted_wrt_filter)

lemma inv_record: "th_inv now t \<Longrightarrow> th_inv now (th_record now k t)"
  unfolding th_record_def
  by (rule inv_trim) (auto simp: th_inv_def entries_of_def sorted_append split: if_splits)

lemma inv_sweep: "th_inv now t \<Longrightarrow> th_inv now (th_sweep now t)"
proof -
  assume inv: "th_inv now t"
  have e: "entries_of k (t\<lparr>th_last_sweep := l, th_entries := (\<lambda>k. th_entries (th_trim now k t) k)\<rparr>)
      = live now k t" for k l
    using entries_trim [of k now k t] by (simp add: entries_of_def)
  show ?thesis
    using inv by (auto simp: th_sweep_def th_inv_def e live_def sorted_wrt_filter trim_Some_Nil)
qed

lemma inv_wait: "th_inv now t \<Longrightarrow> th_inv now (snd (th_wait now' k l t))"
  by (simp add: th_wait_def Let_def inv_trim)

lemma inv_allow: "th_inv now t \<Longrightarrow> th_inv now (snd (th_allow1 now' ip u t))"
  by (simp add: th_allow1_def Let_def inv_trim)

lemma inv_failed: "th_inv now t \<Longrightarrow> th_inv now (th_failed1 now ip u t)"
  by (simp add: th_failed1_def inv_sweep inv_record)

lemma inv_success: "th_inv now t \<Longrightarrow> th_inv now (th_success1 ip u t)"
  by (auto simp: th_inv_def th_success1_def entries_of_def)

lemma inv_retry: "th_inv now t \<Longrightarrow> th_inv now (snd (th_retry_after1 now' ip u t))"
  by (simp add: th_retry_after1_def case_prod_beta inv_wait)

lemma inv_step: "th_inv (ev_time e) t \<Longrightarrow> th_inv (ev_time e) (th_step e t)"
  by (cases e) (simp_all add: inv_allow inv_failed inv_success inv_retry)

text \<open>The keyed budget: with the failures in order, the oldest that must age out decides.\<close>

lemma budget_index:
  assumes s: "sorted fs" and l: "0 < l" "l \<le> length fs"
  shows "length (filter (\<lambda>x. c < x) fs) < l \<longleftrightarrow> fs ! (length fs - l) \<le> (c :: int)"
proof -
  let ?j = "length fs - l"
  have j: "?j < length fs" using l by simp
  have split: "filter P fs = filter P (take n fs) @ filter P (drop n fs)" for P n
    by (simp flip: filter_append)
  show ?thesis
  proof
    assume le: "fs ! ?j \<le> c"
    have "x \<le> c" if m: "x \<in> set (take (Suc ?j) fs)" for x
    proof -
      obtain i where "i < Suc ?j" "i < length fs" "x = fs ! i"
        using m by (force simp: in_set_conv_nth)
      then have "x \<le> fs ! ?j" using s j by (auto intro: sorted_nth_mono)
      with le show ?thesis by simp
    qed
    then have "filter (\<lambda>x. c < x) (take (Suc ?j) fs) = []" by (auto simp: filter_empty_conv not_less)
    then have "length (filter (\<lambda>x. c < x) fs) \<le> length (drop (Suc ?j) fs)"
      by (simp only: split [of _ "Suc ?j"] append_Nil length_filter_le)
    also have "\<dots> < l" using l by simp
    finally show "length (filter (\<lambda>x. c < x) fs) < l" .
  next
    assume less: "length (filter (\<lambda>x. c < x) fs) < l"
    show "fs ! ?j \<le> c"
    proof (rule ccontr)
      assume "\<not> fs ! ?j \<le> c"
      moreover have "fs ! ?j \<le> x" if "x \<in> set (drop ?j fs)" for x
        using that s j by (auto simp: in_set_conv_nth intro!: sorted_nth_mono)
      ultimately have "\<forall>x \<in> set (drop ?j fs). c < x" by fastforce
      then have "filter (\<lambda>x. c < x) (drop ?j fs) = drop ?j fs" by (simp add: filter_id_conv)
      then have "length (drop ?j fs) \<le> length (filter (\<lambda>x. c < x) fs)"
        by (simp add: split [of _ ?j])
      with less l show False by simp
    qed
  qed
qed

lemma wait_exact:
  assumes inv: "th_inv now t" and l: "0 < l" and d: "0 \<le> d"
  shows "fst (th_wait now k l t) \<le> d \<longleftrightarrow> int (length (live (now + d) k t)) < l"
proof -
  let ?F = "live now k t"
  have later: "live (now + d) k t = filter (\<lambda>x. now + d - th_window t < x) ?F"
    using d by (auto simp: live_def intro: filter_cong)
  have s: "sorted ?F" using inv by (auto simp: th_inv_def live_def sorted_wrt_filter)
  show ?thesis
  proof (cases "int (length ?F) < l")
    case True
    moreover have "length (live (now + d) k t) \<le> length ?F" using d by (simp add: live_antimono)
    ultimately show ?thesis using d by (simp add: th_wait_def Let_def entries_trim)
  next
    case False
    with l have "length (filter (\<lambda>x. now + d - th_window t < x) ?F) < nat l \<longleftrightarrow>
        ?F ! (length ?F - nat l) \<le> now + d - th_window t"
      by (intro budget_index [OF s]) auto
    then show ?thesis using False l d unfolding later
      by (auto simp: th_wait_def Let_def entries_trim)
  qed
qed

text \<open>\<open>RetryAfter\<close> is exact: if nobody fails or logs in meanwhile, the caller is allowed after a
  delay of \<open>d\<close> if and only if \<open>d\<close> is at least the value returned; in particular it is zero exactly
  when the caller is allowed now.\<close>

theorem retry_after_exact:
  assumes "th_inv now t" and "0 \<le> d"
  shows "fst (th_allow1 (now + d) ip u (snd (th_retry_after1 now ip u t))) \<longleftrightarrow>
    fst (th_retry_after1 now ip u t) \<le> d"
proof -
  let ?a = "th_wait now (user_key ip u) (th_max t) t"
  have lim: "0 < th_max t" "0 < th_ip_max t" using assms(1) by (simp_all add: th_inv_def)
  have inv1: "th_inv now (snd ?a)" using assms(1) by (simp add: th_wait_def Let_def inv_trim)
  have "fst (th_retry_after1 now ip u t) \<le> d \<longleftrightarrow>
      fst ?a \<le> d \<and> fst (th_wait now (ip_key ip) (th_ip_max t) (snd ?a)) \<le> d"
    by (simp add: th_retry_after1_def case_prod_beta)
  also have "\<dots> \<longleftrightarrow> int (length (live (now + d) (user_key ip u) t)) < th_max t \<and>
      int (length (live (now + d) (ip_key ip) t)) < th_ip_max t"
    using wait_exact [OF assms(1) lim(1) assms(2)] wait_exact [OF inv1 lim(2) assms(2)] assms(2)
    by (simp add: live_wait)
  finally show ?thesis using assms(2) by (simp add: allow_iff live_retry)
qed

lemma retry_after_exact_witness:
  "fst (th_allow1 (9 + 12) ''10.0.0.7'' ''ana''
     (snd (th_retry_after1 9 ''10.0.0.7'' ''ana'' (new_login_throttle 2 6 20))))"
  by (subst retry_after_exact [OF inv_new]) code_simp+

subsection \<open>What a login form relies on\<close>

text \<open>A limiter promises that an attempt it allows is below the budget, that only a recorded failure
  uses the budget, by one, and that the passing of time only frees it.\<close>

locale attempt_limiter =
  fixes allow :: "int \<Rightarrow> string \<Rightarrow> string \<Rightarrow> 't \<Rightarrow> bool \<times> 't"
    and failed :: "int \<Rightarrow> string \<Rightarrow> string \<Rightarrow> 't \<Rightarrow> 't"
    and success :: "string \<Rightarrow> string \<Rightarrow> 't \<Rightarrow> 't"
    and used :: "int \<Rightarrow> string \<Rightarrow> 't \<Rightarrow> nat"
    and budget :: "'t \<Rightarrow> int"
  assumes allow_used: "now \<le> now' \<Longrightarrow> used now' ip' (snd (allow now ip u t)) = used now' ip' t"
    and allow_below: "fst (allow now ip u t) \<Longrightarrow> int (used now ip t) < budget t"
    and failed_used: "now \<le> now' \<Longrightarrow>
      used now' ip' (failed now ip u t) \<le> used now' ip' t + (if ip' = ip then 1 else 0)"
    and success_used: "used now' ip' (success ip u t) = used now' ip' t"
    and allow_budget: "budget (snd (allow now ip u t)) = budget t"
    and failed_budget: "budget (failed now ip u t) = budget t"
    and success_budget: "budget (success ip u t) = budget t"
    and used_decays: "now \<le> now' \<Longrightarrow> used now' ip t \<le> used now ip t"
begin

text \<open>What the client keeps: the failures that count and the \<open>k\<close> attempts it has under way together.\<close>

lemma granted_keeps:
  "fst (allow now ip u t) \<Longrightarrow> Suc k \<le> p \<Longrightarrow>
     int (used now ip (snd (allow now ip u t)) + Suc k) \<le> budget (snd (allow now ip u t)) + int p - 1"
  using allow_below [of now ip u t] by (simp add: allow_used allow_budget)

lemma failed_keeps:
  "used now ip (failed now j u t) + k \<le> used now ip t + (if j = ip then Suc k else k)"
  using failed_used [of now now ip j u t] by (auto split: if_splits)

lemma later_keeps: "now \<le> now' \<Longrightarrow> used now ip t + k \<le> m \<Longrightarrow> used now' ip t + k \<le> m"
  using used_decays [of now now' ip t] by simp

end

interpretation by_ip: attempt_limiter th_allow1 th_failed1 th_success1
    "\<lambda>now ip t. length (live now (ip_key ip) t)" th_ip_max
  by unfold_locales (auto simp: live_allow allow_iff live_failed live_success live_antimono)

text \<open>
  The two login forms (\<open>postLogin\<close> of the portal, \<open>post\<close> of the OIDC login) share one throttle, and
  \<^verbatim>\<open>net/http\<close> runs every request in a goroutine of its own. A request touches the throttle twice: it asks
  \<open>Allow\<close> (and \<open>RetryAfter\<close> when it is refused), then compares the password without holding the lock,
  and only then reports \<open>Failed\<close> or \<open>Success\<close>. The two calls are therefore separate steps here, and any
  number of requests may be between them: \<open>lf_flying\<close> holds their IPs and user names. \<open>Checked now i good\<close>
  is the moment at which the \<open>i\<close>-th of them learns the outcome of its password check.
\<close>

record login_forms =
  lf_throttle :: login_throttle
  lf_flying :: "(string \<times> string) list"

datatype form_event =
    Asks int string string
  | Checked int nat bool

fun form_time :: "form_event \<Rightarrow> int" where
  "form_time (Asks now _ _) = now"
| "form_time (Checked now _ _) = now"

fun form_calls :: "form_event \<Rightarrow> login_forms \<Rightarrow> th_event list" where
  "form_calls (Asks now ip u) s =
     EvAllow now ip u # (if fst (th_allow1 now ip u (lf_throttle s)) then [] else [EvRetry now ip u])"
| "form_calls (Checked now i good) s = (if i < length (lf_flying s)
     then [(if good then EvSuccess else EvFailed) now (fst (lf_flying s ! i)) (snd (lf_flying s ! i))]
     else [])"

fun form_flying :: "form_event \<Rightarrow> login_forms \<Rightarrow> (string \<times> string) list" where
  "form_flying (Asks now ip u) s =
     (if fst (th_allow1 now ip u (lf_throttle s)) then lf_flying s @ [(ip, u)] else lf_flying s)"
| "form_flying (Checked now i good) s = take i (lf_flying s) @ drop (Suc i) (lf_flying s)"

definition form_step :: "form_event \<Rightarrow> login_forms \<Rightarrow> login_forms" where
  "form_step e s = \<lparr>lf_throttle = fold th_step (form_calls e s) (lf_throttle s), lf_flying = form_flying e s\<rparr>"

definition forms_start :: "int \<Rightarrow> int \<Rightarrow> int \<Rightarrow> login_forms" where
  "forms_start mx ip_max window = \<lparr>lf_throttle = new_login_throttle mx ip_max window, lf_flying = []\<rparr>"

definition in_flight :: "string \<Rightarrow> login_forms \<Rightarrow> nat" where
  "in_flight ip s = length (filter (\<lambda>f. fst f = ip) (lf_flying s))"

text \<open>The calls that a run makes on the throttle, and the largest number of logins of one IP that it
  has in flight at the same time.\<close>

fun forms_calls :: "form_event list \<Rightarrow> login_forms \<Rightarrow> th_event list" where
  "forms_calls [] s = []"
| "forms_calls (e # es) s = form_calls e s @ forms_calls es (form_step e s)"

fun peak :: "string \<Rightarrow> form_event list \<Rightarrow> login_forms \<Rightarrow> nat" where
  "peak ip [] s = in_flight ip s"
| "peak ip (e # es) s = max (in_flight ip s) (peak ip es (form_step e s))"

definition used :: "int \<Rightarrow> string \<Rightarrow> login_forms \<Rightarrow> nat" where
  "used now ip s = length (live now (ip_key ip) (lf_throttle s))"

lemma forms_throttle: "lf_throttle (fold form_step es s) = fold th_step (forms_calls es s) (lf_throttle s)"
  by (induction es arbitrary: s) (simp_all add: form_step_def)

lemma call_time: "\<forall>c \<in> set (form_calls e s). ev_time c = form_time e"
  by (cases e) simp_all

lemma calls_times:
  "\<forall>e \<in> set es. form_time e \<le> now \<Longrightarrow> \<forall>c \<in> set (forms_calls es s). ev_time c \<le> now"
  using call_time by (induction es arbitrary: s) fastforce+

lemma form_config [simp]: "th_ip_max (lf_throttle (form_step e s)) = th_ip_max (lf_throttle s)"
  by (simp add: form_step_def)

text \<open>A login in flight holds a place of the budget which the throttle does not know of: the sum of the
  failures that count and the logins in flight grows only when \<open>Allow\<close> grants a place.\<close>

lemma flying_removed:
  "i < length xs \<Longrightarrow> length (filter P xs) =
     length (filter P (take i xs @ drop (Suc i) xs)) + (if P (xs ! i) then 1 else 0)"
proof -
  assume "i < length xs"
  from arg_cong [OF id_take_nth_drop [OF this], of "\<lambda>ys. length (filter P ys)"] show ?thesis by simp
qed

lemma checked_keeps:
  "used now ip (form_step (Checked now i good) s) + in_flight ip (form_step (Checked now i good) s)
     \<le> used now ip s + in_flight ip s"
proof (cases "i < length (lf_flying s)")
  case True
  obtain j u where f: "lf_flying s ! i = (j, u)" by fastforce
  have "in_flight ip s = in_flight ip (form_step (Checked now i good) s) + (if j = ip then 1 else 0)"
    using flying_removed [OF True, of "\<lambda>f. fst f = ip"] f by (simp add: in_flight_def form_step_def)
  then show ?thesis
    using True f by_ip.failed_keeps [of now ip j u "lf_throttle s" "in_flight ip (form_step (Checked now i good) s)"]
    by (auto simp: used_def form_step_def by_ip.success_used split: if_splits)
qed (simp add: used_def in_flight_def form_step_def)

lemma asks_keeps:
  assumes "int (used now ip s + in_flight ip s) \<le> th_ip_max (lf_throttle s) + int p - 1"
    and "in_flight ip (form_step (Asks now j u) s) \<le> p"
  shows "int (used now ip (form_step (Asks now j u) s) + in_flight ip (form_step (Asks now j u) s))
    \<le> th_ip_max (lf_throttle s) + int p - 1"
proof (cases "j = ip \<and> fst (th_allow1 now j u (lf_throttle s))")
  case True
  then have fl: "in_flight ip (form_step (Asks now j u) s) = Suc (in_flight ip s)"
      and us: "used now ip (form_step (Asks now j u) s) = length (live now (ip_key ip) (snd (th_allow1 now ip u (lf_throttle s))))"
    by (auto simp: used_def in_flight_def form_step_def)
  show ?thesis using True assms(2) by_ip.granted_keeps [of now ip u "lf_throttle s" "in_flight ip s" p]
    unfolding fl us by auto
next
  case False
  then show ?thesis using assms(1) by (auto simp: used_def in_flight_def form_step_def live_allow live_retry)
qed

lemma forms_bound:
  assumes "int (used t0 ip s + in_flight ip s) \<le> th_ip_max (lf_throttle s) + int p - 1" and "peak ip es s \<le> p"
    and "sorted (map form_time es)" "\<forall>e \<in> set es. t0 \<le> form_time e \<and> form_time e \<le> now" "t0 \<le> now"
  shows "int (used now ip (fold form_step es s) + in_flight ip (fold form_step es s))
    \<le> th_ip_max (lf_throttle s) + int p - 1"
  using assms
proof (induction es arbitrary: s t0)
  case Nil
  then show ?case using by_ip.later_keeps [of t0 now ip "lf_throttle s" "in_flight ip s"]
    by (fastforce simp: used_def)
next
  case (Cons e es)
  let ?t = "form_time e"
  have times: "t0 \<le> ?t" "?t \<le> now" using Cons.prems(4) by auto
  have grow: "int (used ?t ip s + in_flight ip s) \<le> th_ip_max (lf_throttle s) + int p - 1"
    using Cons.prems(1) by_ip.later_keeps [OF times(1), of ip "lf_throttle s" "in_flight ip s"]
    by (fastforce simp: used_def)
  have high: "in_flight ip (form_step e s) \<le> p" using Cons.prems(2) by (cases es) auto
  have step: "int (used ?t ip (form_step e s) + in_flight ip (form_step e s))
      \<le> th_ip_max (lf_throttle (form_step e s)) + int p - 1"
  proof (cases e)
    case (Asks at j u)
    then show ?thesis using grow high
        asks_keeps [of at ip s p j u] by simp
  next
    case (Checked at i good)
    then show ?thesis using grow checked_keeps [of at ip i good s]
      by simp
  qed
  from step show ?case using Cons.IH [of ?t "form_step e s"] Cons.prems times by simp
qed

text \<open>C13: The cap per IP bounds online guessing, even though the password check runs outside the lock of
  the throttle: for every interleaving of login requests (asking for permission and reporting the
  outcome of the password check are separate steps, and any number of requests may be in between),
  the wrong passwords reported for one IP within a window and its logins still being checked
  together never exceed \<open>ipMax - 1\<close> plus the largest number of logins of that IP that the run had
  in flight at the same time. A client that sends one login after the other therefore gets at most
  \<open>ipMax\<close> wrong passwords per window; one that sends many at once gets as many more as it has in
  flight. The instants are the throttle's own readings of the clock, which do not go back.\<close>

theorem guesses_bounded:
  assumes "sorted (map form_time es)" and "\<forall>e \<in> set es. form_time e \<le> now"
    and "0 < mx" "0 < ip_max" "0 < window"
  shows "int (length (filter (\<lambda>x. now - window < x) (ip_log ip (forms_calls es (forms_start mx ip_max window)))) +
      in_flight ip (fold form_step es (forms_start mx ip_max window)))
    \<le> ip_max - 1 + int (peak ip es (forms_start mx ip_max window))"
proof -
  let ?s = "forms_start mx ip_max window"
  have cfg: "th_window (lf_throttle ?s) = window" "th_ip_max (lf_throttle ?s) = ip_max"
      "th_entries (lf_throttle ?s) = (\<lambda>_. None)" "lf_flying ?s = []"
    using assms(3-5) by (simp_all add: forms_start_def new_login_throttle_def)
  define t0 where "t0 = (if es = [] then now else form_time (hd es))"
  have t0: "\<forall>e \<in> set es. t0 \<le> form_time e \<and> form_time e \<le> now" "t0 \<le> now"
    using assms(1,2) by (cases es; auto simp: t0_def)+
  have "int (used now ip (fold form_step es ?s) + in_flight ip (fold form_step es ?s))
      \<le> ip_max + int (peak ip es ?s) - 1"
    using forms_bound [OF _ order_refl assms(1) t0, of ip ?s] assms(4) cfg
    by (simp add: used_def in_flight_def live_def entries_of_def)
  moreover have "used now ip (fold form_step es ?s) =
      length (filter (\<lambda>x. now - window < x) (ip_log ip (forms_calls es ?s)))"
    using live_run_ip [OF calls_times [OF assms(2)] cfg(3)] cfg(1) by (simp add: used_def forms_throttle)
  ultimately show ?thesis by simp
qed

lemma guesses_bounded_witness:
  "int (length (filter (\<lambda>x. 9 - 20 < x) (ip_log ''10.0.0.7'' (forms_calls
      [Asks 1 ''10.0.0.7'' ''ana'', Asks 2 ''10.0.0.7'' ''bob'', Checked 3 1 False, Checked 4 0 False,
       Asks 5 ''10.0.0.7'' ''eve''] (forms_start 5 2 20)))) +
     in_flight ''10.0.0.7'' (fold form_step
      [Asks 1 ''10.0.0.7'' ''ana'', Asks 2 ''10.0.0.7'' ''bob'', Checked 3 1 False, Checked 4 0 False,
       Asks 5 ''10.0.0.7'' ''eve''] (forms_start 5 2 20)))
   \<le> 2 - 1 + int (peak ''10.0.0.7''
      [Asks 1 ''10.0.0.7'' ''ana'', Asks 2 ''10.0.0.7'' ''bob'', Checked 3 1 False, Checked 4 0 False,
       Asks 5 ''10.0.0.7'' ''eve''] (forms_start 5 2 20))"
  by (rule guesses_bounded) simp_all

text \<open>The extra term is real: a burst of \<open>n\<close> logins that all ask before the first password is checked gets
  all \<open>n\<close> passwords checked, whatever the caps are. The comment in \<^verbatim>\<open>serve.go\<close> promises at most 30 guesses
  a minute per IP.\<close>

lemma forms_calls_append: "forms_calls (a @ b) s = forms_calls a s @ forms_calls b (fold form_step a s)"
  by (induction a arbitrary: s) simp_all

lemma burst_asks:
  assumes "\<forall>k. live now k (lf_throttle s) = []" "0 < th_max (lf_throttle s)" "0 < th_ip_max (lf_throttle s)"
  shows "lf_flying (fold form_step (replicate n (Asks now ip u)) s) = lf_flying s @ replicate n (ip, u) \<and>
    fold (ip_log1 ip) (forms_calls (replicate n (Asks now ip u)) s) l = l"
  using assms
proof (induction n arbitrary: s)
  case (Suc n)
  have ok: "fst (th_allow1 now ip u (lf_throttle s))" using Suc.prems by (simp add: allow_iff)
  let ?s = "form_step (Asks now ip u) s"
  have "\<forall>k. live now k (lf_throttle ?s) = []" "0 < th_max (lf_throttle ?s)" "0 < th_ip_max (lf_throttle ?s)"
    using Suc.prems ok by (simp_all add: form_step_def live_allow)
  from Suc.IH [OF this] show ?case using ok by (simp add: form_step_def)
qed simp

lemma burst_checks:
  "lf_flying s = replicate n (ip, u) \<Longrightarrow>
     fold (ip_log1 ip) (forms_calls (replicate n (Checked now 0 False)) s) l = l @ replicate n now"
proof (induction n arbitrary: s l)
  case (Suc n)
  from Suc.prems have "lf_flying (form_step (Checked now 0 False) s) = replicate n (ip, u)"
    by (simp add: form_step_def)
  from Suc.IH [OF this] show ?case using Suc.prems by simp
qed simp

theorem burst_beats_cap:
  assumes "0 < mx" "0 < ip_max" "0 < window"
  shows "ip_log ip (forms_calls (replicate n (Asks now ip u) @ replicate n (Checked now 0 False))
    (forms_start mx ip_max window)) = replicate n now"
proof -
  let ?s = "forms_start mx ip_max window"
  have "\<forall>k. live now k (lf_throttle ?s) = []" "0 < th_max (lf_throttle ?s)" "0 < th_ip_max (lf_throttle ?s)"
    "lf_flying ?s = []"
    using assms by (simp_all add: forms_start_def new_login_throttle_def live_def entries_of_def)
  with burst_asks [of now ?s n ip u "[]"]
    burst_checks [of "fold form_step (replicate n (Asks now ip u)) ?s" n ip u now "[]"]
  show ?thesis by (simp add: ip_log_def forms_calls_append)
qed

lemma burst_beats_cap_witness:
  "ip_log ''10.0.0.7'' (forms_calls (replicate 100 (Asks 5 ''10.0.0.7'' ''ana'') @ replicate 100 (Checked 5 0 False))
    (forms_start 10 30 minute_ns)) = replicate 100 5"
  by (rule burst_beats_cap) (simp_all add: minute_ns_def)

subsection \<open>The memory the throttle keeps\<close>

definition th_fresh :: "int \<Rightarrow> login_throttle \<Rightarrow> bool" where
  "th_fresh now t \<longleftrightarrow> 0 < th_window t \<and> (case th_last_sweep t of
       None \<Rightarrow> (\<forall>k. entries_of k t = [])
     | Some l \<Rightarrow> l \<le> now \<and> (\<forall>k. \<forall>x \<in> set (entries_of k t). l - th_window t < x))"

lemma fresh_later: "th_fresh now t \<Longrightarrow> now \<le> now' \<Longrightarrow> th_fresh now' t"
  by (auto simp: th_fresh_def split: option.splits)

lemma fresh_trim: "th_fresh now t \<Longrightarrow> th_fresh now (th_trim now' k t)"
  by (auto simp: th_fresh_def entries_trim live_def split: option.splits)

lemma entries_record: "x \<in> set (entries_of k' (th_record now k t)) \<Longrightarrow> x = now \<or> x \<in> set (entries_of k' t)"
  unfolding th_record_def
  by (auto simp: entries_trim live_def split: if_splits) (auto simp: entries_of_def split: if_splits)

lemma entries_sweep:
  "th_sweep now t = t \<and> (\<exists>l. th_last_sweep t = Some l \<and> now - l < th_window t) \<or>
   th_last_sweep (th_sweep now t) = Some now \<and> (\<forall>k. entries_of k (th_sweep now t) = live now k t)"
  using entries_trim [of _ now _ t]
  by (auto simp: th_sweep_def entries_of_def split: option.splits)

lemma failed_fresh:
  assumes "th_fresh now t"
  shows "th_fresh now (th_failed1 now ip u t) \<and>
    (\<forall>k. \<forall>x \<in> set (entries_of k (th_failed1 now ip u t)). now - 2 * th_window t < x)"
proof -
  let ?r = "th_record now (ip_key ip) (th_record now (user_key ip u) t)"
  have f: "th_failed1 now ip u t = th_sweep now ?r" by (simp add: th_failed1_def)
  have r: "x = now \<or> x \<in> set (entries_of k t)" if "x \<in> set (entries_of k ?r)" for x k
    using that entries_record by blast
  show ?thesis
    using entries_sweep [of now ?r]
  proof (elim disjE conjE exE)
    fix l
    assume s: "th_sweep now ?r = ?r" and l: "th_last_sweep ?r = Some l" "now - l < th_window ?r"
    have "l - th_window t < x" if "x \<in> set (entries_of k ?r)" for x k
      using r [OF that] l assms by (auto simp: th_fresh_def)
    then show ?thesis using assms l s f by (force simp: th_fresh_def)
  next
    assume "th_last_sweep (th_sweep now ?r) = Some now" "\<forall>k. entries_of k (th_sweep now ?r) = live now k ?r"
    then show ?thesis using assms f by (auto simp: th_fresh_def live_def)
  qed
qed

lemma fresh_step: "th_fresh (ev_time e) t \<Longrightarrow> th_fresh (ev_time e) (th_step e t)"
  by (cases e)
    (auto simp: th_allow1_def th_retry_after1_def th_wait_def Let_def case_prod_beta fresh_trim failed_fresh,
     auto simp: th_success1_def th_fresh_def entries_of_def split: option.splits)

lemma fresh_run:
  "sorted (map ev_time evs) \<Longrightarrow> \<forall>e \<in> set evs. ev_time e \<le> now \<Longrightarrow>
     th_fresh now (fold th_step evs (new_login_throttle mx ip_max window))"
proof (induction evs arbitrary: now rule: rev_induct)
  case Nil
  then show ?case by (simp add: th_fresh_def new_login_throttle_def Let_def entries_of_def minute_ns_def)
next
  case (snoc e evs)
  have "th_fresh (ev_time e) (fold th_step evs (new_login_throttle mx ip_max window))"
    using snoc.prems by (intro snoc.IH) (simp_all add: sorted_append)
  from fresh_later [OF fresh_step [OF this], of now] show ?case using snoc.prems by simp
qed

text \<open>The map does not grow with names that are tried once and never again: right after a failure
  is recorded, whatever calls came before, every instant still remembered for any key is younger
  than two windows.\<close>

theorem memory_bounded:
  assumes "sorted (map ev_time evs)" and "\<forall>e \<in> set evs. ev_time e \<le> now" and "0 < window"
    and "x \<in> set (entries_of k (th_failed1 now ip u (fold th_step evs (new_login_throttle mx ip_max window))))"
  shows "now - 2 * window < x"
proof -
  have "th_window (fold th_step evs (new_login_throttle mx ip_max window)) = window"
    using assms(3) by (simp add: new_login_throttle_def Let_def)
  then show ?thesis using failed_fresh [OF fresh_run [OF assms(1,2)]] assms(4) by (metis (no_types))
qed

lemma memory_bounded_witness:
  "(5 :: int) \<in> set (entries_of (ip_key ''10.0.0.7'') (th_failed1 5 ''10.0.0.7'' ''ana''
     (fold th_step [] (new_login_throttle 5 15 20)))) \<and> 5 - 2 * 20 < (5 :: int)"
proof (rule context_conjI)
  show m: "(5 :: int) \<in> set (entries_of (ip_key ''10.0.0.7'') (th_failed1 5 ''10.0.0.7'' ''ana''
     (fold th_step [] (new_login_throttle 5 15 20))))"
    by (simp add: th_failed1_def th_sweep_def th_record_def th_trim_def new_login_throttle_def Let_def
        entries_of_def user_key_def ip_key_def)
  show "5 - 2 * 20 < (5 :: int)"
    by (rule memory_bounded [OF _ _ _ m]) simp_all
qed

end
