(* ===== verification/Go_Path.thy ===== *)
theory Go_Path
  imports Go_Strings
begin

text \<open>
  Go's \<^verbatim>\<open>path/filepath\<close> on Unix, as far as nass uses it: \<open>Clean\<close>, \<open>Join\<close>, \<open>Dir\<close>, \<open>Base\<close> and \<open>IsAbs\<close>.
  A path is taken apart into its components; \<open>clean_step\<close> is one round of the loop in \<open>Clean\<close>, with
  the components kept so far in reverse order.
\<close>

definition dotdot :: string where
  "dotdot = ''..''"

definition clean_step :: "bool \<Rightarrow> string \<Rightarrow> string list \<Rightarrow> string list" where
  "clean_step rooted c acc =
     (if c = [] \<or> c = ''.'' then acc
      else if c = dotdot then
        (case acc of
           [] \<Rightarrow> if rooted then [] else [dotdot]
         | prev # rest \<Rightarrow> if prev = dotdot then dotdot # acc else rest)
      else c # acc)"

definition clean_comps :: "bool \<Rightarrow> string list \<Rightarrow> string list" where
  "clean_comps rooted cs = rev (fold (clean_step rooted) cs [])"

definition is_abs :: "string \<Rightarrow> bool" where
  "is_abs p = has_prefix p ''/''"

definition path_comps :: "string \<Rightarrow> string list" where
  "path_comps p = clean_comps (is_abs p) (split_at (CHR ''/'') p)"

definition path_clean :: "string \<Rightarrow> string" where
  "path_clean p =
     (let body = join_with ''/'' (path_comps p) in
      if is_abs p then ''/'' @ body else if body = [] then ''.'' else body)"

definition path_join :: "string list \<Rightarrow> string" where
  "path_join es = (case dropWhile (\<lambda>e. e = []) es of [] \<Rightarrow> [] | es' \<Rightarrow> path_clean (join_with ''/'' es'))"

definition path_dir :: "string \<Rightarrow> string" where
  "path_dir p = (case last_index (CHR ''/'') p of
     None \<Rightarrow> path_clean [] | Some i \<Rightarrow> path_clean (take (Suc i) p))"

definition path_base :: "string \<Rightarrow> string" where
  "path_base p =
     (if p = [] then ''.''
      else let q = rev (dropWhile (\<lambda>c. c = CHR ''/'') (rev p)) in
        if q = [] then ''/''
        else (case last_index (CHR ''/'') q of None \<Rightarrow> q | Some i \<Rightarrow> drop (Suc i) q))"

subsection \<open>Cleaned components\<close>

definition plain_comp :: "string \<Rightarrow> bool" where
  "plain_comp c \<longleftrightarrow> c \<noteq> [] \<and> c \<noteq> ''.'' \<and> c \<noteq> dotdot \<and> CHR ''/'' \<notin> set c"

text \<open>The components a path is left with: in a rooted path all are plain names, in a relative one
  there may be leading parent steps.\<close>

definition clean_form :: "bool \<Rightarrow> string list \<Rightarrow> bool" where
  "clean_form rooted cs \<longleftrightarrow> (\<exists>n ps. cs = replicate n dotdot @ ps \<and> list_all plain_comp ps \<and> (rooted \<longrightarrow> n = 0))"

lemma clean_formI: "list_all plain_comp ps \<Longrightarrow> (rooted \<Longrightarrow> n = 0) \<Longrightarrow> clean_form rooted (replicate n dotdot @ ps)"
  by (auto simp: clean_form_def)

lemma clean_step_form:
  assumes "clean_form rooted (rev acc)" "CHR ''/'' \<notin> set c"
  shows "clean_form rooted (rev (clean_step rooted c acc))"
proof -
  obtain n ps where ps: "rev acc = replicate n dotdot @ ps" "list_all plain_comp ps" "rooted \<longrightarrow> n = 0"
    using assms(1) by (auto simp: clean_form_def)
  then have acc: "acc = rev ps @ replicate n dotdot" by (metis rev_append rev_replicate rev_rev_ident)
  show ?thesis
  proof (cases "c = [] \<or> c = ''.''")
    case True
    then show ?thesis using assms(1) by (simp add: clean_step_def)
  next
    case plain: False
    show ?thesis
    proof (cases "c = dotdot")
      case False
      then have "rev (clean_step rooted c acc) = replicate n dotdot @ (ps @ [c])" "plain_comp c"
        using plain assms(2) ps(1) by (simp_all add: clean_step_def plain_comp_def)
      then show ?thesis using ps(2,3) by (simp add: clean_formI)
    next
      case True
      show ?thesis
      proof (cases ps rule: rev_cases)
        case Nil
        then have "acc = replicate n dotdot" using acc by simp
        then have "clean_step rooted c acc = replicate (if rooted then 0 else Suc n) dotdot"
          using True ps(3) by (cases n) (simp_all add: clean_step_def dotdot_def)
        then show ?thesis
          using clean_formI [of "[]" rooted "if rooted then 0 else Suc n"] by simp
      next
        case (snoc qs q)
        then have "acc = q # rev (replicate n dotdot @ qs)" "q \<noteq> dotdot"
          using acc ps(2) by (auto simp: plain_comp_def)
        then have "rev (clean_step rooted c acc) = replicate n dotdot @ qs"
          using True by (simp add: clean_step_def dotdot_def)
        moreover have "list_all plain_comp qs" using ps(2) snoc by simp
        ultimately show ?thesis using ps(3) by (metis clean_formI)
      qed
    qed
  qed
qed

lemma clean_comps_form: "\<forall>c \<in> set cs. CHR ''/'' \<notin> set c \<Longrightarrow> clean_form rooted (clean_comps rooted cs)"
proof -
  have "clean_form rooted (rev (fold (clean_step rooted) cs acc))"
    if "\<forall>c \<in> set cs. CHR ''/'' \<notin> set c" "clean_form rooted (rev acc)" for acc
    using that by (induction cs arbitrary: acc) (simp_all add: clean_step_form)
  moreover have "clean_form rooted (rev [])" unfolding clean_form_def by (intro exI [of _ 0] exI [of _ "[]"]) simp
  ultimately show "\<forall>c \<in> set cs. CHR ''/'' \<notin> set c \<Longrightarrow> clean_form rooted (clean_comps rooted cs)"
    unfolding clean_comps_def by blast
qed

lemma path_comps_form: "clean_form (is_abs p) (path_comps p)"
  unfolding path_comps_def by (rule clean_comps_form) (auto dest: split_at_no_sep)

lemma fold_plain: "list_all plain_comp ps \<Longrightarrow> fold (clean_step r) ps acc = rev ps @ acc"
  by (induction ps arbitrary: acc) (simp_all add: clean_step_def plain_comp_def)

lemma fold_dotdots: "fold (clean_step False) (replicate n dotdot) (replicate k dotdot) = replicate (n + k) dotdot"
proof (induction n arbitrary: k)
  case (Suc n)
  have "clean_step False dotdot (replicate k dotdot) = replicate (Suc k) dotdot"
    by (cases k) (simp_all add: clean_step_def dotdot_def)
  with Suc.IH [of "Suc k"] show ?case by simp
qed simp

lemma clean_comps_clean: "clean_form rooted cs \<Longrightarrow> clean_comps rooted cs = cs"
proof -
  assume "clean_form rooted cs"
  then obtain n ps where cs: "cs = replicate n dotdot @ ps" "list_all plain_comp ps" "rooted \<longrightarrow> n = 0"
    by (auto simp: clean_form_def)
  have "fold (clean_step rooted) (replicate n dotdot) [] = replicate n dotdot"
    using cs(3) fold_dotdots [of n 0] by (cases rooted) simp_all
  then show ?thesis using cs by (simp add: clean_comps_def fold_plain)
qed

lemma clean_form_nonempty: "clean_form r cs \<Longrightarrow> c \<in> set cs \<Longrightarrow> c \<noteq> [] \<and> CHR ''/'' \<notin> set c"
proof -
  assume "clean_form r cs" and c: "c \<in> set cs"
  then obtain n ps where cs: "cs = replicate n dotdot @ ps" "list_all plain_comp ps"
    unfolding clean_form_def by blast
  then have "c = dotdot \<or> plain_comp c" using c by (auto simp: list_all_iff split: if_splits)
  then show ?thesis by (auto simp: plain_comp_def dotdot_def)
qed

text \<open>Cleaning keeps whether a path is absolute, and a cleaned path has the same components again.\<close>

lemma clean_step_skip: "clean_step r [] acc = acc"
  by (simp add: clean_step_def)

lemma join_clean_hd:
  assumes "clean_form r cs" "cs \<noteq> []"
  shows "join_with ''/'' cs \<noteq> [] \<and> \<not> has_prefix (join_with ''/'' cs) ''/''"
proof -
  obtain c ds where cs: "cs = c # ds" using assms(2) by (cases cs) auto
  have "c \<noteq> [] \<and> CHR ''/'' \<notin> set c" using clean_form_nonempty [OF assms(1)] cs by simp
  then obtain x xs where "c = x # xs" "x \<noteq> CHR ''/''" by (cases c) auto
  then show ?thesis using cs by (cases ds) (auto simp: has_prefix_def)
qed

lemma path_clean_abs: "is_abs (path_clean p) = is_abs p"
proof (cases "is_abs p")
  case True
  then show ?thesis by (simp add: path_clean_def Let_def is_abs_def has_prefix_def)
next
  case False
  then show ?thesis
    using join_clean_hd [OF path_comps_form [of p]]
    by (cases "path_comps p = []") (auto simp: path_clean_def Let_def is_abs_def has_prefix_def)
qed

lemma path_comps_clean: "path_comps (path_clean p) = path_comps p"
proof -
  let ?cs = "path_comps p"
  have form: "clean_form (is_abs p) ?cs" by (rule path_comps_form)
  have split: "split_at (CHR ''/'') (join_with ''/'' ?cs) = (if ?cs = [] then [[]] else ?cs)"
    using clean_form_nonempty [OF form] by (auto simp: split_join)
  have cc: "clean_comps (is_abs p) ?cs = ?cs" using form by (rule clean_comps_clean)
  show ?thesis
  proof (cases "is_abs p")
    case True
    have "split_at (CHR ''/'') (path_clean p) = [] # split_at (CHR ''/'') (join_with ''/'' ?cs)"
      using True by (simp add: path_clean_def Let_def)
    with split cc True show ?thesis
      unfolding path_comps_def [of "path_clean p"] path_clean_abs
      by (auto simp: clean_comps_def clean_step_skip split: if_splits)
  next
    case False
    show ?thesis
    proof (cases "?cs = []")
      case True
      then show ?thesis using False unfolding path_comps_def [of "path_clean p"] path_clean_abs
        by (simp add: path_clean_def Let_def clean_comps_def clean_step_def)
    next
      case ne: False
      then have "path_clean p = join_with ''/'' ?cs"
        using False join_clean_hd [OF form] by (simp add: path_clean_def Let_def)
      then show ?thesis
        unfolding path_comps_def [of "path_clean p"] path_clean_abs using split ne cc by simp
    qed
  qed
qed

lemma path_clean_idem: "path_clean (path_clean p) = path_clean p"
  unfolding path_clean_def [of "path_clean p"] path_comps_clean path_clean_abs by (simp add: path_clean_def)

end
