(* ===== verification/Host_World.thy ===== *)
theory Host_World
  imports Nass_World Go_Path
begin

text \<open>
  The host nass runs on: files and directories, external commands, TCP ports and the cancellation
  of a context. The file system is a list of cleaned absolute paths with their nodes; \<open>os.MkdirAll\<close>,
  \<open>os.WriteFile\<close>, \<open>os.ReadFile\<close>, \<open>os.Remove\<close> and \<open>os.RemoveAll\<close> work on it. There are no symbolic
  links and no permissions, and nass's own database is not among the files (it is \<open>w_db\<close>). Every file operation can fail
  (\<open>hs_disk_faults\<close>, one Boolean per operation). A command is recorded in \<open>hs_cmds\<close>; its outcome is the
  next of \<open>hs_outs\<close> (success and its combined output, success without output when the list is over),
  so that whatever docker does is a behaviour of the model.
\<close>

datatype fs_node = FsDir | FsFile string

text \<open>What an HTTP request from nass to an app or to the network meets: no answer, or a status, the
  Content-Type and the body.\<close>

datatype net_reply = NetFail | NetReply int string string

record host = world +
  hs_fs :: "(string \<times> fs_node) list"
  hs_disk_faults :: "bool list"
  hs_cmds :: "string list list"
  hs_outs :: "(bool \<times> string) list"
  hs_busy :: "int set"
  hs_polls :: "nat option"
  hs_net :: "net_reply list"
  hs_reqs :: "(string \<times> string \<times> string) list"

definition disk_fault :: "('r host_scheme, unit) run" where
  "disk_fault w = (case hs_disk_faults w of
       [] \<Rightarrow> (Inr (), w)
     | True # fs \<Rightarrow> (Inl (Msg ''input/output error''), w\<lparr>hs_disk_faults := fs\<rparr>)
     | False # fs \<Rightarrow> (Inr (), w\<lparr>hs_disk_faults := fs\<rparr>))"

definition fs_put :: "string \<Rightarrow> fs_node \<Rightarrow> (string \<times> fs_node) list \<Rightarrow> (string \<times> fs_node) list" where
  "fs_put p n fs = (p, n) # filter (\<lambda>e. fst e \<noteq> p) fs"

definition under :: "string \<Rightarrow> string \<Rightarrow> bool" where
  "under p q \<longleftrightarrow> q = p \<or> has_prefix q (p @ ''/'')"

text \<open>The path and its parents, the topmost first.\<close>

definition path_chain :: "string \<Rightarrow> string list" where
  "path_chain p = map (\<lambda>i. (if is_abs p then ''/'' else []) @ join_with ''/'' (take i (path_comps p)))
     [1..<Suc (length (path_comps p))]"

definition mkdir_all :: "string \<Rightarrow> ('r host_scheme, unit) run" where
  "mkdir_all p = bindR disk_fault (\<lambda>_ w.
     if list_ex (\<lambda>q. case map_of (hs_fs w) q of Some (FsFile _) \<Rightarrow> True | _ \<Rightarrow> False) (path_chain p)
     then (Inl (Msg (''mkdir '' @ p @ '': not a directory'')), w)
     else (Inr (), w\<lparr>hs_fs := fold (\<lambda>q fs. fs_put q FsDir fs) (path_chain p) (hs_fs w)\<rparr>))"

definition write_file :: "string \<Rightarrow> string \<Rightarrow> ('r host_scheme, unit) run" where
  "write_file p0 s = bindR disk_fault (\<lambda>_ w.
     let p = path_clean p0 in
     if map_of (hs_fs w) p = Some FsDir then (Inl (Msg (''open '' @ p @ '': is a directory'')), w)
     else if path_dir p \<noteq> ''/'' \<and> map_of (hs_fs w) (path_dir p) \<noteq> Some FsDir then (Inl ErrNotExist, w)
     else (Inr (), w\<lparr>hs_fs := fs_put p (FsFile s) (hs_fs w)\<rparr>))"

definition read_file :: "string \<Rightarrow> ('r host_scheme, string) run" where
  "read_file p = bindR disk_fault (\<lambda>_ w.
     case map_of (hs_fs w) (path_clean p) of
       None \<Rightarrow> (Inl ErrNotExist, w)
     | Some FsDir \<Rightarrow> (Inl (Msg (''read '' @ p @ '': is a directory'')), w)
     | Some (FsFile s) \<Rightarrow> (Inr s, w))"

definition remove_file :: "string \<Rightarrow> ('r host_scheme, unit) run" where
  "remove_file p0 = bindR disk_fault (\<lambda>_ w.
     let p = path_clean p0 in
     case map_of (hs_fs w) p of
       None \<Rightarrow> (Inl ErrNotExist, w)
     | Some n \<Rightarrow>
         if n = FsDir \<and> list_ex (\<lambda>e. fst e \<noteq> p \<and> under p (fst e)) (hs_fs w)
         then (Inl (Msg (''remove '' @ p @ '': directory not empty'')), w)
         else (Inr (), w\<lparr>hs_fs := filter (\<lambda>e. fst e \<noteq> p) (hs_fs w)\<rparr>))"

definition remove_all :: "string \<Rightarrow> ('r host_scheme, unit) run" where
  "remove_all p = bindR disk_fault (\<lambda>_ w.
     (Inr (), w\<lparr>hs_fs := filter (\<lambda>e. \<not> under (path_clean p) (fst e)) (hs_fs w)\<rparr>))"

text \<open>\<open>exec.CommandContext(...).CombinedOutput()\<close>: whether it succeeded, and the output.\<close>

definition run_command :: "string list \<Rightarrow> ('r host_scheme, bool \<times> string) run" where
  "run_command argv w = (case hs_outs w of
       [] \<Rightarrow> (Inr (True, []), w\<lparr>hs_cmds := hs_cmds w @ [argv]\<rparr>)
     | out # outs \<Rightarrow> (Inr out, w\<lparr>hs_cmds := hs_cmds w @ [argv], hs_outs := outs\<rparr>))"

text \<open>A poll of \<open>ctx.Done()\<close>: \<open>hs_polls\<close> polls remain before the context is cancelled.\<close>

definition ctx_done :: "('r host_scheme, bool) run" where
  "ctx_done w = (case hs_polls w of
       None \<Rightarrow> (Inr False, w)
     | Some 0 \<Rightarrow> (Inr True, w)
     | Some (Suc n) \<Rightarrow> (Inr False, w\<lparr>hs_polls := Some n\<rparr>))"

text \<open>\<open>http.Client.Do\<close>: the request (method, URL, body) is recorded in \<open>hs_reqs\<close>, the answer is the next of
  \<open>hs_net\<close>; nobody answers when the list is over.\<close>

definition http_do :: "string \<Rightarrow> string \<Rightarrow> string \<Rightarrow> ('r host_scheme, net_reply) run" where
  "http_do meth target body w = (case hs_net w of
       [] \<Rightarrow> (Inr NetFail, w\<lparr>hs_reqs := hs_reqs w @ [(meth, target, body)]\<rparr>)
     | x # xs \<Rightarrow> (Inr x, w\<lparr>hs_reqs := hs_reqs w @ [(meth, target, body)], hs_net := xs\<rparr>))"

text \<open>\<open>os.Stat\<close>: whether the path exists, or an error.\<close>

definition file_exists :: "string \<Rightarrow> ('r host_scheme, bool) run" where
  "file_exists p = bindR disk_fault (\<lambda>_. reading (\<lambda>w. map_of (hs_fs w) (path_clean p) \<noteq> None))"

definition port_available :: "int \<Rightarrow> ('r host_scheme, bool) run" where
  "port_available p = reading (\<lambda>w. p \<notin> hs_busy w)"

lemma disk_fault_none [run_simps]: "hs_disk_faults w = [] \<Longrightarrow> disk_fault w = (Inr (), w)"
  by (simp add: disk_fault_def)

lemma disk_fault_cases:
  "disk_fault w = (r, w') \<Longrightarrow> (r = Inr () \<or> r = Inl (Msg ''input/output error'')) \<and> (\<exists>fs. w' = w\<lparr>hs_disk_faults := fs\<rparr>)"
  by (auto simp: disk_fault_def split: list.splits bool.splits intro: exI [of _ "hs_disk_faults w"])

lemma fs_put_lookup [simp]: "map_of (fs_put p n fs) q = (if q = p then Some n else map_of fs q)"
  by (induction fs) (auto simp: fs_put_def)

lemma fs_filter_lookup: "map_of (filter (\<lambda>e. P (fst e)) fs) q = (if P q then map_of fs q else None)"
  by (induction fs) auto

subsection \<open>Frames: an operation on the host leaves the database alone\<close>

lemma frame_host_db [preserves_intro]:
  "frame w_db disk_fault" "frame w_db (run_command argv)" "frame w_db ctx_done" "frame w_db (port_available p)"
  "frame w_db (http_do m u b)"
  by (auto simp: frame_def disk_fault_def run_command_def ctx_done_def port_available_def http_do_def run_simps
      split: list.splits bool.splits option.splits nat.splits)

lemma frame_files_db [preserves_intro]:
  "frame w_db (mkdir_all p)" "frame w_db (write_file p s)" "frame w_db (read_file p)"
  "frame w_db (remove_file p)" "frame w_db (remove_all p)" "frame w_db (file_exists p)"
  unfolding file_exists_def mkdir_all_def write_file_def read_file_def remove_file_def remove_all_def
  by (intro frame_bindR frame_host_db; auto simp: frame_def Let_def run_simps split: option.splits fs_node.splits)+

lemma preserves_host [preserves_intro]:
  "preserves world_ok disk_fault" "preserves world_ok (run_command argv)" "preserves world_ok ctx_done"
  "preserves world_ok (port_available i)" "preserves world_ok (mkdir_all p)" "preserves world_ok (write_file p s)"
  "preserves world_ok (read_file p)" "preserves world_ok (remove_file p)" "preserves world_ok (remove_all p)"
  "preserves world_ok (file_exists p)" "preserves world_ok (http_do m u b)"
  unfolding world_ok_def by (intro frame_preserves preserves_intro)+

end
