(* ===== verification/Portal_Login.thy ===== *)
theory Portal_Login
  imports Portal_Gate Login_Throttle Host_World
begin

text \<open>
  Logging in to the portal (\<^verbatim>\<open>internal/portal/login.go\<close>, and of \<^verbatim>\<open>portal.go\<close> the session guards, the
  portal's URLs and \<open>safeNext\<close>; of \<^verbatim>\<open>admin.go\<close> the origin check). The portal's own state, the login
  throttle and the list of jobs (each with the pointer under which its goroutine knows it), extends the world
  of the host. A page is the name of its template
  with the values the handlers put in (\<open>html/template\<close> renders it). What \<open>netip.ParseAddr\<close> makes of a
  bracketed host is the configuration's \<open>pc_ip6\<close>.
\<close>

datatype job_status = JobRunning | JobError | JobDone

record app_job =
  jb_id :: int
  jb_action :: string
  jb_app :: string
  jb_status :: job_status
  jb_message :: string
  jb_started :: int
  jb_finished :: int

record portal = host +
  pt_throttle :: "login_throttle option"
  pt_jobs :: "(nat \<times> app_job) list"

record portal_config =
  pc_base :: string
  pc_title :: string
  pc_https :: bool
  pc_store :: session_store
  pc_bcrypt :: bcrypt
  pc_ip6 :: "string \<Rightarrow> string option"

definition portal_scheme :: "portal_config \<Rightarrow> string" where
  "portal_scheme p = (if pc_https p then ''https'' else ''http'')"

definition portal_url :: "portal_config \<Rightarrow> string" where
  "portal_url p = portal_scheme p @ ''://'' @ pc_base p"

definition app_host_url :: "portal_config \<Rightarrow> string \<Rightarrow> string" where
  "app_host_url p sub = portal_scheme p @ ''://'' @ sub @ ''.'' @ pc_base p"

definition login_url :: "portal_config \<Rightarrow> string \<Rightarrow> string" where
  "login_url p next = portal_url p @ ''/portal/login?next='' @ query_escape next"

definition safe_next :: "portal_config \<Rightarrow> string \<Rightarrow> string" where
  "safe_next p raw =
     (if raw = [] \<or> contains_str raw [CHR 0x5C] then ''/''
      else (case url_parse (pc_ip6 p) raw of
          None \<Rightarrow> ''/''
        | Some u \<Rightarrow>
            if u_scheme u = [] \<and> u_host u = [] then
              (if \<not> has_prefix (u_path u) ''/'' \<or> has_prefix raw ''//'' then ''/'' else raw)
            else if u_scheme u \<noteq> ''https'' \<and> (u_scheme u \<noteq> ''http'' \<or> pc_https p) then ''/''
            else (let host = to_lower (url_hostname u); base = to_lower (pc_base p) in
              if host = [] \<or> (host \<noteq> base \<and> \<not> has_suffix host (''.'' @ base)) then ''/'' else raw)))"

definition same_origin :: "portal_config \<Rightarrow> request \<Rightarrow> bool" where
  "same_origin p r =
     (let origin0 = hdr_get (rq_headers r) ''Origin'';
          origin = (if origin0 = [] then hdr_get (rq_headers r) ''Referer'' else origin0)
      in if origin = [] then True
         else (case url_parse (pc_ip6 p) origin of None \<Rightarrow> False | Some u \<Rightarrow> u_host u = rq_host r))"

definition render :: "portal_config \<Rightarrow> string \<Rightarrow> portal_session option \<Rightarrow> (string \<times> string) list \<Rightarrow> response" where
  "render p name sess data = Page name (data @ [(''SiteTitle'', pc_title p), (''Title'', pc_title p)] @
     (case sess of None \<Rightarrow> [] | Some s \<Rightarrow> [(''User'', us_name (pn_user s))]))"

text \<open>\<open>requireSession\<close> and \<open>requireAdmin\<close>: the session, or the reply already written.\<close>

definition require_session :: "request \<Rightarrow> 'r world_scheme \<Rightarrow> (response + portal_session) \<times> 'r world_scheme" where
  "require_session r w = (case session_lookup r w of
       (Inl e, w1) \<Rightarrow> (Inl (HttpError 500 (error_text e)), w1)
     | (Inr None, w1) \<Rightarrow> (Inl (Redirect 302 (''/portal/login?next='' @ query_escape (rq_uri r))), w1)
     | (Inr (Some s), w1) \<Rightarrow> (Inr s, w1))"

definition require_admin :: "request \<Rightarrow> 'r world_scheme \<Rightarrow> (response + portal_session) \<times> 'r world_scheme" where
  "require_admin r w = (case require_session r w of
       (Inl rep, w1) \<Rightarrow> (Inl rep, w1)
     | (Inr s, w1) \<Rightarrow> if us_admin (pn_user s) then (Inr s, w1) else (Inl (HttpError 403 ''admin required''), w1))"

definition current_user_id :: "request \<Rightarrow> ('r world_scheme, int) run" where
  "current_user_id r = bindR (session_lookup r) (\<lambda>s. ret (case s of None \<Rightarrow> 0 | Some x \<Rightarrow> us_id (pn_user x)))"

definition verify_and_issue ::
  "portal_config \<Rightarrow> string \<Rightarrow> string \<Rightarrow> ('r world_scheme, (error + portal_session) \<times> cookie list) run" where
  "verify_and_issue p username password =
     bindR (attempt (users_verify (pc_bcrypt p) username password)) (\<lambda>u. case u of
       Inl e \<Rightarrow> ret (Inl e, [])
     | Inr us \<Rightarrow> session_issue (pc_store p) (us_id us))"

subsection \<open>The login form\<close>

definition get_login :: "portal_config \<Rightarrow> 'r world_scheme handler" where
  "get_login p r w =
     (let next = query_get (rq_query r) ''next'' in
      case session_lookup r w of
        (Inr (Some s), w1) \<Rightarrow> ((Redirect 302 (safe_next p next), []), w1)
      | (_, w1) \<Rightarrow> ((render p ''login.html'' None [(''Next'', next), (''BodyClass'', ''login-page'')], []), w1))"

definition login_page :: "portal_config \<Rightarrow> request \<Rightarrow> string \<Rightarrow> response" where
  "login_page p r msg = render p ''login.html'' None
     [(''Next'', form_value r ''next''), (''Error'', msg), (''BodyClass'', ''login-page'')]"

definition post_login :: "portal_config \<Rightarrow> 'r portal_scheme handler" where
  "post_login p r w =
     (if \<not> same_origin p r then ((HttpError 403 ''cross-origin request rejected'', []), w)
      else if rq_form r = None then ((HttpError 400 ''bad form'', []), w)
      else
        (let username = form_value r ''username''; password = form_value r ''password'';
             next = safe_next p (form_value r ''next''); ip = client_ip r; t = w_clock w
         in case th_allow t ip username (pt_throttle w) of (allowed, th1) \<Rightarrow>
           if \<not> allowed then
             (case th_retry_after t ip username th1 of (wait, th2) \<Rightarrow>
               ((page_header ''Retry-After'' (retry_after_text wait)
                   (login_page p r ''too many attempts; try again later''), []), w\<lparr>pt_throttle := th2\<rparr>))
           else
             (case users_verify (pc_bcrypt p) username password (w\<lparr>pt_throttle := th1\<rparr>) of
                (Inl e, w1) \<Rightarrow>
                  ((login_page p r ''invalid username or password'', []),
                   w1\<lparr>pt_throttle := th_failed t ip username (pt_throttle w1)\<rparr>)
              | (Inr u, w1) \<Rightarrow>
                  (case session_issue (pc_store p) (us_id u)
                          (w1\<lparr>pt_throttle := th_success ip username (pt_throttle w1)\<rparr>) of
                     (Inl e, w2) \<Rightarrow> ((HttpError 500 (error_text e), []), w2)
                   | (Inr (Inl e, cks), w2) \<Rightarrow> ((HttpError 500 (error_text e), cks), w2)
                   | (Inr (Inr s, cks), w2) \<Rightarrow> ((Redirect 302 next, cks), w2)))))"

definition post_logout :: "portal_config \<Rightarrow> 'r world_scheme handler" where
  "post_logout p r w = (case session_revoke (pc_store p) r w of
       (Inr (_, cks), w1) \<Rightarrow> ((Redirect 302 ''/portal/login'', cks), w1)
     | (Inl e, w1) \<Rightarrow> ((Redirect 302 ''/portal/login'', []), w1))"

subsection \<open>Where a login may send the browser\<close>

text \<open>The authority of an absolute URL, as a browser reads it off the text: up to the next slash,
  question mark or hash; the host is what stands between the last at sign and the last colon.\<close>

definition authority_text :: "string \<Rightarrow> string" where
  "authority_text rest = takeWhile (\<lambda>c. c \<notin> set ''/?#'') rest"

definition host_text :: "string \<Rightarrow> string" where
  "host_text a =
     (let h = (case last_index (CHR ''@'') a of None \<Rightarrow> a | Some i \<Rightarrow> drop (Suc i) a)
      in (case last_index (CHR '':'') h of None \<Rightarrow> h | Some i \<Rightarrow> take i h))"

definition plain_host :: "string \<Rightarrow> bool" where
  "plain_host h \<longleftrightarrow> (\<forall>c \<in> set h. byte_of c < 128 \<and> c \<noteq> CHR ''%'')"

lemma lower_plain:
  assumes "byte_of (lower_char c) < 128 \<and> lower_char c \<noteq> CHR ''%''"
  shows "byte_of c < 128 \<and> c \<noteq> CHR ''%''"
proof (cases "65 \<le> byte_of c \<and> byte_of c \<le> 90")
  case True
  then show ?thesis by auto
next
  case False
  then have "lower_char c = c" unfolding lower_char_def by (simp only: if_False)
  then show ?thesis using assms by simp
qed

lemma plain_lower: "plain_host (to_lower p) \<Longrightarrow> plain_host p"
  unfolding plain_host_def to_lower_def by (auto dest!: lower_plain)

lemma to_lower_split: "to_lower s = a @ b \<Longrightarrow> \<exists>x y. s = x @ y \<and> to_lower x = a \<and> to_lower y = b"
  by (auto simp: to_lower_def map_eq_append_conv)

lemma host_byte_colon: "host_byte (CHR '':'')"
  by (simp add: host_byte_def)

lemma unescape_host_new_byte:
  "unescape_host s = Some t \<Longrightarrow> byte_of b < 128 \<Longrightarrow> b \<noteq> CHR ''%'' \<Longrightarrow> b \<notin> set s \<Longrightarrow> b \<notin> set t"
proof (induction t arbitrary: s)
  case (Cons d t)
  then obtain c cs where s: "s = c # cs" by (cases s) auto
  with Cons.prems obtain pre rest where r: "c # cs = pre @ rest" "unescape_host rest = Some t"
    "byte_of d < 128 \<and> d \<noteq> CHR ''%'' \<longrightarrow> pre = [d]"
    using unescape_host_step [of c cs d t] by blast
  have sets: "set s = set pre \<union> set rest" using s r(1) by (metis set_append)
  then have "b \<notin> set t" using Cons r(2) by auto
  moreover have "b \<noteq> d"
  proof
    assume "b = d"
    then have "pre = [b]" using r(3) Cons.prems(2,3) by blast
    then show False using sets Cons.prems(4) by simp
  qed
  ultimately show ?case by simp
qed simp

lemma unescape_host_colon_append:
  "unescape_host (a @ CHR '':'' # b) = Some t \<Longrightarrow>
     \<exists>x y. unescape_host a = Some x \<and> unescape_host b = Some y \<and> t = x @ CHR '':'' # y"
proof (induction a arbitrary: t rule: length_induct)
  case (1 a)
  have colon: "unhex (CHR '':'') = None" by (simp add: unhex_def)
  show ?case
  proof (cases a)
    case Nil
    then show ?thesis using 1(2) by (auto split: if_splits)
  next
    case (Cons c cs)
    show ?thesis
    proof (cases "c = CHR ''%''")
      case False
      with Cons 1(2) obtain z where z: "host_byte c" "unescape_host (cs @ CHR '':'' # b) = Some z" "t = c # z"
        by (auto split: if_splits)
      with 1(1) Cons obtain x y where "unescape_host cs = Some x" "unescape_host b = Some y" "z = x @ CHR '':'' # y"
        by (metis length_Cons lessI)
      with z False Cons show ?thesis by simp
    next
      case True
      consider "cs = []" | x where "cs = [x]" | x y ds where "cs = x # y # ds" by (metis list.exhaust)
      then show ?thesis
      proof cases
        case one: 1
        then show ?thesis using 1(2) Cons True colon by (cases b) auto
      next
        case two: 2
        then show ?thesis using 1(2) Cons True colon by (auto split: option.splits)
      next
        case (3 x y ds)
        with 1(2) Cons True obtain n m z where z: "unhex x = Some n" "unhex y = Some m"
            "\<not> (n < 8 \<and> \<not> (x = CHR ''2'' \<and> y = CHR ''5''))"
            "unescape_host (ds @ CHR '':'' # b) = Some z" "t = char_of (16 * n + m) # z"
          by (auto split: option.splits if_splits)
        moreover have "length ds < length a" using 3 Cons by simp
        ultimately obtain u v where "unescape_host ds = Some u" "unescape_host b = Some v" "z = u @ CHR '':'' # v"
          using 1(1) by blast
        with z 3 Cons True show ?thesis by auto
      qed
    qed
  qed
qed

lemma digits_plain: "list_all (\<lambda>c. 48 \<le> byte_of c \<and> byte_of c \<le> 57) b \<Longrightarrow> CHR ''%'' \<notin> set b"
  by (auto simp: list_all_iff)

lemma hostname_text:
  assumes "parse_host ip6 h = Some hh" "CHR ''['' \<notin> set h"
  shows "unescape_host (case last_index (CHR '':'') h of None \<Rightarrow> h | Some i \<Rightarrow> take i h) =
    Some (url_hostname \<lparr>u_scheme = sch, u_host = hh, u_path = p\<rparr>)"
proof -
  have dec: "unescape_host h = Some hh" using assms by (auto simp: parse_host_def split: option.splits if_splits)
  have nb: "CHR ''['' \<notin> set hh" using unescape_host_new_byte [OF dec _ _ assms(2)] by simp
  have strip: "url_hostname \<lparr>u_scheme = sch, u_host = hh, u_path = p\<rparr> = (case last_index (CHR '':'') hh of
      None \<Rightarrow> hh | Some i \<Rightarrow> if valid_opt_port (drop i hh) then take i hh else hh)"
  proof -
    have "\<not> has_prefix x ''[''" if "set x \<subseteq> set hh" for x
      using that nb by (auto simp: has_prefix_iff)
    moreover have "set (take i hh) \<subseteq> set hh" for i by (rule set_take_subset)
    ultimately show ?thesis by (auto simp: url_hostname_def Let_def split: option.split)
  qed
  show ?thesis
  proof (cases "last_index (CHR '':'') h")
    case None
    then have "CHR '':'' \<notin> set hh" using unescape_host_new_byte [OF dec, of "CHR '':''"] by simp
    then have "last_index (CHR '':'') hh = None" by simp
    then show ?thesis using None dec strip by (simp del: last_index_None)
  next
    case (Some i)
    define a b where "a = take i h" and "b = drop (Suc i) h"
    have h: "h = a @ CHR '':'' # b" and i: "i = length a"
      using last_index_Some [OF Some] id_take_nth_drop [of i h] by (simp_all add: a_def b_def)
    have "valid_opt_port (drop i h)"
      using assms Some by (auto simp: parse_host_def split: if_splits)
    then have v: "valid_opt_port (CHR '':'' # b)" "list_all (\<lambda>c. 48 \<le> byte_of c \<and> byte_of c \<le> 57) b"
      by (auto simp: h i valid_opt_port_def)
    then have nc: "CHR '':'' \<notin> set b" by (auto simp: list_all_iff)
    obtain x y where x: "unescape_host a = Some x" "unescape_host b = Some y" "hh = x @ CHR '':'' # y"
      using unescape_host_colon_append dec h by blast
    have "y = b" using unescape_host_plain [OF digits_plain [OF v(2)] x(2)] .
    then have "last_index (CHR '':'') hh = Some (length x)" using x(3) nc last_index_append by simp
    then show ?thesis using Some strip x \<open>y = b\<close> v(1) by (simp add: a_def)
  qed
qed

lemma parse_authority_text:
  assumes "parse_authority ip6 a = Some hh" "CHR ''['' \<notin> set a"
  shows "unescape_host (host_text a) = Some (url_hostname \<lparr>u_scheme = sch, u_host = hh, u_path = p\<rparr>)"
proof (cases "last_index (CHR ''@'') a")
  case None
  then show ?thesis using assms hostname_text [of ip6 a hh]
    by (simp add: parse_authority_def host_text_def Let_def del: last_index_None)
next
  case (Some i)
  then have "parse_host ip6 (drop (Suc i) a) = Some hh"
    using assms(1) by (auto simp: parse_authority_def split: option.splits if_splits)
  moreover have "CHR ''['' \<notin> set (drop (Suc i) a)" using assms(2) by (auto dest: in_set_dropD)
  ultimately show ?thesis using hostname_text [of ip6 "drop (Suc i) a" hh] Some by (simp add: host_text_def Let_def)
qed

lemma decoded_suffix:
  assumes "unescape_host t = Some hn" "to_lower hn = b \<or> has_suffix (to_lower hn) (CHR ''.'' # b)"
    and "plain_host b"
  shows "to_lower t = b \<or> has_suffix (to_lower t) (CHR ''.'' # b)"
proof (cases "to_lower hn = b")
  case True
  then have "plain_host hn" using assms(3) plain_lower by simp
  then have "t = hn" using unescape_host_exact [OF assms(1)] by (auto simp: plain_host_def)
  with True show ?thesis by simp
next
  case False
  then obtain u where "to_lower hn = u @ CHR ''.'' # b" using assms(2) by (auto simp: has_suffix_iff)
  then obtain x y where y: "hn = x @ y" "to_lower y = CHR ''.'' # b" using to_lower_split by blast
  have "plain_host (CHR ''.'' # b)" using assms(3) by (simp add: plain_host_def)
  then have "plain_host y" using y(2) plain_lower by simp
  then obtain s' where "t = s' @ y"
    using unescape_host_suffix [of t x y] assms(1) y(1) by (auto simp: plain_host_def)
  then have "to_lower t = to_lower s' @ CHR ''.'' # b" using y(2) by (simp add: to_lower_append)
  then show ?thesis by (auto simp: has_suffix_iff)
qed

lemma takeWhile_prefix_stop:
  "(\<forall>c \<in> set xs. P c) \<Longrightarrow> ys = [] \<or> \<not> P (hd ys) \<Longrightarrow> takeWhile P (xs @ ys) = xs"
  by (cases ys) (auto simp: takeWhile_append)

text \<open>The text of a URL whose parse has a host.\<close>

lemma url_parse_host_text:
  assumes "url_parse ip6 raw = Some u" "u_host u \<noteq> []" "CHR ''['' \<notin> set raw" "u_scheme u \<noteq> []"
  shows "\<exists>sch rest. raw = sch @ ''://'' @ rest \<and> to_lower sch = u_scheme u \<and>
    unescape_host (host_text (authority_text rest)) = Some (url_hostname u)"
proof -
  obtain body frag f where cut: "cut_at (CHR ''#'') raw = (body, frag, f)" by (metis prod_cases3)
  have body: "url_parse_body ip6 body = Some u"
    using assms(1) cut by (auto simp: url_parse_def split: option.splits if_splits)
  have raw: "raw = body @ (if f then CHR ''#'' # frag else [])" "CHR ''#'' \<notin> set body"
    using cut_at_spec [OF cut] by auto
  obtain sch rest0 where sch: "get_scheme body = Some (sch, rest0)"
    using body assms(2) by (auto simp: url_parse_body_def split: if_splits option.splits prod.splits)
  define rest where "rest = strip_query rest0"
  have us: "u_scheme u = to_lower sch" and "has_prefix rest ''//''"
    using body sch assms(2,4)
    by (auto simp: url_parse_body_def Let_def rest_def split: if_splits option.splits)
  have sne: "sch \<noteq> []" using assms(4) us by (auto simp: to_lower_def)
  have "body \<noteq> ''*''" using body assms(2) by (auto simp: url_parse_body_def split: if_splits)
  define auth where "auth = takeWhile (\<lambda>c. c \<noteq> CHR ''/'') (drop 2 rest)"
  obtain p where ph: "parse_authority ip6 auth = Some (u_host u)" "u = \<lparr>u_scheme = to_lower sch, u_host = u_host u, u_path = p\<rparr>"
    using body sch assms(2) \<open>has_prefix rest ''//''\<close> sne \<open>body \<noteq> ''*''\<close>
    by (auto simp: url_parse_body_def Let_def rest_def auth_def to_lower_def has_prefix_def split: if_splits option.splits)
  obtain q where q: "rest0 = rest @ q" and qh: "q = [] \<or> hd q = CHR ''?''" and nq: "CHR ''?'' \<notin> set rest"
  proof -
    obtain a b g where c: "cut_at (CHR ''?'') rest0 = (a, b, g)" by (metis prod_cases3)
    then have "rest0 = rest @ (if g then CHR ''?'' # b else [])" "CHR ''?'' \<notin> set rest"
      using cut_at_spec [OF c] by (auto simp: rest_def strip_query_def)
    then show ?thesis by (intro that [of "if g then CHR ''?'' # b else []"]) auto
  qed
  obtain r2 where r2: "rest = ''//'' @ r2" using \<open>has_prefix rest ''//''\<close> by (auto simp: has_prefix_iff)
  let ?tail = "q @ (if f then CHR ''#'' # frag else [])"
  have rawt: "raw = sch @ ''://'' @ (r2 @ ?tail)"
    using raw(1) get_scheme_Some [OF sch] sne q r2 by auto
  have "authority_text (r2 @ ?tail) = auth"
  proof -
    have r2s: "r2 = auth @ dropWhile (\<lambda>c. c \<noteq> CHR ''/'') r2" by (simp add: auth_def r2)
    have "\<forall>c \<in> set auth. c \<notin> set ''/?#''"
    proof
      fix c assume c: "c \<in> set auth"
      then have "c \<noteq> CHR ''/''" "c \<in> set rest" unfolding auth_def by (auto dest: set_takeWhileD simp: r2)
      moreover have "set rest \<subseteq> set body" using get_scheme_Some [OF sch] sne q by auto
      ultimately show "c \<notin> set ''/?#''" using nq raw(2) by auto
    qed
    moreover have "dropWhile (\<lambda>c. c \<noteq> CHR ''/'') r2 @ ?tail = [] \<or>
        hd (dropWhile (\<lambda>c. c \<noteq> CHR ''/'') r2 @ ?tail) \<in> set ''/?#''"
    proof (cases "dropWhile (\<lambda>c. c \<noteq> CHR ''/'') r2 = []")
      case True
      then show ?thesis using qh unfolding True by (cases q) simp_all
    next
      case False
      then have "hd (dropWhile (\<lambda>c. c \<noteq> CHR ''/'') r2) = CHR ''/''" using hd_dropWhile [OF False] by blast
      moreover have "hd (dropWhile (\<lambda>c. c \<noteq> CHR ''/'') r2 @ ?tail) = hd (dropWhile (\<lambda>c. c \<noteq> CHR ''/'') r2)"
        using False by (rule hd_append2)
      moreover have "CHR ''/'' \<in> set ''/?#''" by simp
      ultimately show ?thesis by metis
    qed
    ultimately have "authority_text (auth @ (dropWhile (\<lambda>c. c \<noteq> CHR ''/'') r2 @ ?tail)) = auth"
      unfolding authority_text_def by (intro takeWhile_prefix_stop) (assumption, blast)
    moreover have "r2 @ ?tail = auth @ (dropWhile (\<lambda>c. c \<noteq> CHR ''/'') r2 @ ?tail)"
      by (subst r2s) (simp only: append_assoc)
    ultimately show ?thesis by (simp only:)
  qed
  moreover have "CHR ''['' \<notin> set auth"
    using assms(3) rawt r2 unfolding auth_def by (auto dest: set_takeWhileD)
  ultimately show ?thesis
    using parse_authority_text [OF ph(1)] ph(2) rawt us by metis
qed

lemma cut_takeWhile: "fst (cut_at c s) = takeWhile (\<lambda>x. x \<noteq> c) s"
  by (induction s) (auto split: prod.splits)

lemma takeWhile_mono_set: "(\<And>x. P x \<Longrightarrow> Q x) \<Longrightarrow> set (takeWhile P xs) \<subseteq> set (takeWhile Q xs)"
  by (induction xs) auto

lemma relative_text:
  assumes "url_parse ip6 raw = Some u" "u_scheme u = []" "u_host u = []" "raw \<noteq> ''*''" "u_path u \<noteq> ''*''"
  shows "CHR '':'' \<notin> set (authority_text raw)"
proof -
  obtain body frag f where cut: "cut_at (CHR ''#'') raw = (body, frag, f)" by (metis prod_cases3)
  have body: "url_parse_body ip6 body = Some u"
    using assms(1) cut by (auto simp: url_parse_def split: option.splits if_splits)
  have raw: "raw = body @ (if f then CHR ''#'' # frag else [])" "CHR ''#'' \<notin> set body"
    using cut_at_spec [OF cut] by auto
  have ns: "body \<noteq> ''*''" using body assms(5) by (auto simp: url_parse_body_def split: if_splits)
  obtain sch rest0 where sch: "get_scheme body = Some (sch, rest0)"
    using body ns by (auto simp: url_parse_body_def split: if_splits option.splits prod.splits)
  define rest where "rest = strip_query rest0"
  have "to_lower sch = []"
    using body sch ns assms(2) by (auto simp: url_parse_body_def Let_def rest_def split: if_splits option.splits)
  then have rest0: "rest0 = body" using get_scheme_Some [OF sch] by (auto simp: to_lower_def)
  obtain a b g where c: "cut_at (CHR ''?'') rest0 = (a, b, g)" by (metis prod_cases3)
  then have q: "rest0 = rest @ (if g then CHR ''?'' # b else [])"
    using cut_at_spec [OF c] by (auto simp: rest_def strip_query_def)
  let ?tail = "(if g then CHR ''?'' # b else []) @ (if f then CHR ''#'' # frag else [])"
  have rawt: "raw = rest @ ?tail" using raw(1) q rest0 by simp
  have tail: "takeWhile (\<lambda>c. c \<notin> set ''/?#'') ?tail = []" by simp
  have sub: "set (authority_text raw) \<subseteq> set (takeWhile (\<lambda>c. c \<noteq> CHR ''/'') rest)"
  proof (cases "\<forall>c \<in> set rest. c \<notin> set ''/?#''")
    case True
    then have "takeWhile (\<lambda>c. c \<noteq> CHR ''/'') rest = rest" by (auto simp: takeWhile_eq_all_conv)
    moreover have "authority_text raw = rest"
      unfolding authority_text_def rawt using True tail by (subst takeWhile_append2) auto
    ultimately show ?thesis by (simp only: subset_refl)
  next
    case False
    then obtain x where x: "x \<in> set rest" "\<not> x \<notin> set ''/?#''" by blast
    have "authority_text raw = takeWhile (\<lambda>c. c \<notin> set ''/?#'') rest"
      unfolding authority_text_def rawt using x by (rule takeWhile_append1)
    then show ?thesis using takeWhile_mono_set [of "\<lambda>c. c \<notin> set ''/?#''" "\<lambda>c. c \<noteq> CHR ''/''" rest] by auto
  qed
  show ?thesis
  proof (cases "has_prefix rest ''/''")
    case True
    then show ?thesis using sub by (cases rest) (auto simp: has_prefix_def)
  next
    case False
    then have "CHR '':'' \<notin> set (fst (cut_at (CHR ''/'') rest))"
      using body sch ns \<open>to_lower sch = []\<close>
      by (auto simp: url_parse_body_def Let_def rest_def split: if_splits option.splits)
    then show ?thesis using sub by (auto simp: cut_takeWhile)
  qed
qed

text \<open>C15: Login is no open redirect: whatever \<open>next\<close> a link carries, the target a login sends the browser
  to is either a reference without scheme and without authority, so it stays on the portal, or an
  absolute URL (over TLS when the portal has it) whose host, read off the text as a browser reads
  it, is the base host or one of its subdomains. It never contains a backslash. (The base host is
  plain ASCII; addresses with an opening bracket, as IP literals have, are left out.)\<close>

theorem safe_next_stays_home:
  assumes "plain_host (to_lower (pc_base p))" and "CHR ''['' \<notin> set raw"
  shows "CHR 0x5C \<notin> set (safe_next p raw) \<and>
    ((\<not> has_prefix (safe_next p raw) ''//'' \<and> CHR '':'' \<notin> set (authority_text (safe_next p raw))) \<or>
     (\<exists>sch rest. safe_next p raw = sch @ ''://'' @ rest \<and>
        (to_lower sch = ''https'' \<or> (to_lower sch = ''http'' \<and> \<not> pc_https p)) \<and>
        (to_lower (host_text (authority_text rest)) = to_lower (pc_base p) \<or>
         has_suffix (to_lower (host_text (authority_text rest))) (CHR ''.'' # to_lower (pc_base p)))))"
proof (cases "safe_next p raw = ''/''")
  case True
  then show ?thesis by (simp add: authority_text_def has_prefix_def)
next
  case False
  then have t: "safe_next p raw = raw"
    by (auto simp: safe_next_def Let_def split: option.splits if_splits)
  have bs: "CHR 0x5C \<notin> set raw"
    using False contains_single [of raw "CHR 0x5C"] by (auto simp: safe_next_def split: if_splits)
  obtain u where u: "url_parse (pc_ip6 p) raw = Some u"
    using False by (auto simp: safe_next_def split: option.splits if_splits)
  show ?thesis
  proof (cases "u_scheme u = [] \<and> u_host u = []")
    case True
    then have "has_prefix (u_path u) ''/''" "\<not> has_prefix raw ''//''"
      using False u by (auto simp: safe_next_def split: if_splits)
    moreover have "raw \<noteq> ''*''"
    proof
      assume "raw = ''*''"
      then have "u_path u = ''*''" using u by (auto simp: url_parse_def url_parse_body_def split: if_splits)
      then show False using \<open>has_prefix (u_path u) ''/''\<close> by (simp add: has_prefix_def)
    qed
    moreover have "u_path u \<noteq> ''*''"
      using \<open>has_prefix (u_path u) ''/''\<close> by (auto simp: has_prefix_def)
    ultimately have "CHR '':'' \<notin> set (authority_text raw)"
      using relative_text [OF u] True by blast
    then show ?thesis using t bs \<open>\<not> has_prefix raw ''//''\<close> by simp
  next
    case abs: False
    have sch: "u_scheme u = ''https'' \<or> (u_scheme u = ''http'' \<and> \<not> pc_https p)"
      using False u abs by (auto simp: safe_next_def split: if_splits)
    have host: "to_lower (url_hostname u) \<noteq> []"
      "to_lower (url_hostname u) = to_lower (pc_base p) \<or> has_suffix (to_lower (url_hostname u)) (''.'' @ to_lower (pc_base p))"
      using False u abs sch by (auto simp: safe_next_def Let_def split: if_splits)
    have "u_host u \<noteq> []"
      using host(1) by (auto simp: url_hostname_def Let_def has_prefix_def to_lower_def)
    then obtain s rest where r: "raw = s @ ''://'' @ rest" "to_lower s = u_scheme u"
        "unescape_host (host_text (authority_text rest)) = Some (url_hostname u)"
      using url_parse_host_text [OF u _ assms(2)] sch by auto
    have "to_lower (host_text (authority_text rest)) = to_lower (pc_base p) \<or>
        has_suffix (to_lower (host_text (authority_text rest))) (CHR ''.'' # to_lower (pc_base p))"
      using decoded_suffix [OF r(3) _ assms(1)] host(2) by simp
    then show ?thesis using t bs r(1,2) sch by metis
  qed
qed

lemma safe_next_stays_home_witness:
  "CHR 0x5C \<notin> set (safe_next \<lparr>pc_base = ''nas.example'', pc_title = [], pc_https = True,
     pc_store = \<lparr>sn_domain = ''nas.example'', sn_insecure = False\<rparr>, pc_bcrypt = sample_bcrypt, pc_ip6 = (\<lambda>_. None)\<rparr>
     ''https://nas.example@evil.example/'')"
proof -
  have "plain_host (to_lower ''nas.example'')" by code_simp
  then show ?thesis
    using safe_next_stays_home [of "\<lparr>pc_base = ''nas.example'', pc_title = [], pc_https = True,
     pc_store = \<lparr>sn_domain = ''nas.example'', sn_insecure = False\<rparr>, pc_bcrypt = sample_bcrypt, pc_ip6 = (\<lambda>_. None)\<rparr>"
       "''https://nas.example@evil.example/''"]
    by simp
qed

subsection \<open>From a gated app to the login and back\<close>

definition name_byte :: "char \<Rightarrow> bool" where
  "name_byte c \<longleftrightarrow> is_alnum c \<or> c = CHR ''-'' \<or> c = CHR ''.''"

definition well_formed_uri :: "string \<Rightarrow> bool" where
  "well_formed_uri s \<longleftrightarrow> has_prefix s ''/'' \<and> \<not> list_ex ctl_byte s \<and> CHR 0x5C \<notin> set s \<and> CHR ''#'' \<notin> set s \<and>
     unescape_any (strip_query s) \<noteq> None"

definition port_text :: "string \<Rightarrow> bool" where
  "port_text s \<longleftrightarrow> s = [] \<or> (\<exists>ds. s = CHR '':'' # ds \<and> list_all (\<lambda>c. 48 \<le> byte_of c \<and> byte_of c \<le> 57) ds)"

lemma name_byte_props:
  "name_byte c \<Longrightarrow> host_byte c \<and> \<not> ctl_byte c \<and> c \<notin> set ''/?#@:[%'' \<and> c \<noteq> CHR 0x5C"
  by (auto simp: name_byte_def host_byte_def ctl_byte_def is_alnum_def)

lemma digit_byte_props:
  "48 \<le> byte_of c \<Longrightarrow> byte_of c \<le> 57 \<Longrightarrow> host_byte c \<and> \<not> ctl_byte c \<and> c \<notin> set ''/?#@:[%'' \<and> c \<noteq> CHR 0x5C"
  by (auto simp: host_byte_def ctl_byte_def is_alnum_def)

lemma get_scheme_https: "get_scheme (''https:'' @ x) = Some (''https'', x)"
  by (simp add: get_scheme_def is_alpha_def)

lemma host_bytes:
  assumes "list_all name_byte h" "port_text port" "c \<in> set (h @ port)"
  shows "host_byte c \<and> \<not> ctl_byte c \<and> c \<notin> set ''/?#@[%'' \<and> c \<noteq> CHR 0x5C"
proof -
  consider "name_byte c" | "c = CHR '':''" | "48 \<le> byte_of c" "byte_of c \<le> 57"
    using assms by (auto simp: port_text_def list_all_iff)
  then show ?thesis
  proof cases
    case 1
    then show ?thesis using name_byte_props [of c] by simp
  next
    case 2
    then show ?thesis by (simp add: host_byte_def ctl_byte_def)
  next
    case 3
    then show ?thesis using digit_byte_props [of c] by simp
  qed
qed

lemma parse_plain_host:
  assumes "list_all name_byte h" "port_text port"
  shows "parse_authority ip6 (h @ port) = Some (h @ port)"
    and "has_prefix h ''['' = False" "url_hostname \<lparr>u_scheme = s, u_host = h @ port, u_path = p\<rparr> = h"
proof -
  note hb = host_bytes [OF assms]
  have nc: "CHR '':'' \<notin> set h" using assms(1) name_byte_props by (fastforce simp: list_all_iff)
  have np: "CHR '':'' \<notin> set ds" if "list_all (\<lambda>c. 48 \<le> byte_of c \<and> byte_of c \<le> 57) ds" for ds
    using that by (auto simp: list_all_iff)
  have li: "last_index (CHR '':'') (h @ port) = (if port = [] then None else Some (length h))"
  proof (cases "port = []")
    case True
    then have "last_index (CHR '':'') (h @ port) = None" using nc by simp
    with True show ?thesis by (simp del: last_index_None)
  next
    case False
    then obtain ds where "port = CHR '':'' # ds" "list_all (\<lambda>c. 48 \<le> byte_of c \<and> byte_of c \<le> 57) ds"
      using assms(2) by (auto simp: port_text_def)
    then show ?thesis using np last_index_append by simp
  qed
  have vp: "valid_opt_port port" using assms(2) by (auto simp: port_text_def valid_opt_port_def)
  have "last_index (CHR ''@'') (h @ port) = None" using hb by fastforce
  moreover have "CHR ''['' \<notin> set (h @ port)" "CHR ''%'' \<notin> set (h @ port)" using hb by fastforce+
  moreover have "unescape_host (h @ port) = Some (h @ port)"
    using hb \<open>CHR ''%'' \<notin> set (h @ port)\<close> by (intro unescape_host_bytes) (auto simp: list_all_iff)
  ultimately show "parse_authority ip6 (h @ port) = Some (h @ port)"
    using li vp by (cases "port = []") (simp_all add: parse_authority_def parse_host_def del: last_index_None)
  show pf: "has_prefix h ''['' = False"
    using \<open>CHR ''['' \<notin> set (h @ port)\<close> by (auto simp: has_prefix_iff)
  show "url_hostname \<lparr>u_scheme = s, u_host = h @ port, u_path = p\<rparr> = h"
    using li vp pf by (simp add: url_hostname_def Let_def del: last_index_None)
qed

lemma url_parse_https:
  assumes "list_all name_byte h" "port_text port" "well_formed_uri uri"
  shows "\<exists>p. url_parse ip6 (''https://'' @ h @ port @ uri) = Some \<lparr>u_scheme = ''https'', u_host = h @ port, u_path = p\<rparr>"
proof -
  let ?raw = "''https://'' @ (h @ port) @ uri"
  note hb = host_bytes [OF assms(1,2)]
  have nh: "CHR ''#'' \<notin> set ?raw" using hb assms(3) by (fastforce simp: well_formed_uri_def)
  then have c: "cut_at (CHR ''#'') ?raw = (?raw, [], False)" by (rule cut_at_missing)
  have ctl: "\<not> list_ex ctl_byte ?raw"
    using hb assms(3) by (auto simp: well_formed_uri_def list_ex_iff ctl_byte_def)
  have gs: "get_scheme ?raw = Some (''https'', ''//'' @ (h @ port) @ uri)"
    using get_scheme_https [of "''//'' @ (h @ port) @ uri"] by simp
  have "strip_query (x @ y) = x @ strip_query y" if "CHR ''?'' \<notin> set x" for x y
    unfolding strip_query_def cut_takeWhile using that by (induction x) auto
  moreover have "CHR ''?'' \<notin> set (''//'' @ (h @ port))" using hb by fastforce
  ultimately have sq: "strip_query (''//'' @ (h @ port) @ uri) = ''//'' @ (h @ port) @ strip_query uri"
    by (metis append_assoc)
  obtain x where x: "strip_query uri = CHR ''/'' # x"
    using assms(3) by (cases uri) (auto simp: well_formed_uri_def strip_query_def has_prefix_def case_prod_beta)
  have tw: "takeWhile (\<lambda>c. c \<noteq> CHR ''/'') ((h @ port) @ CHR ''/'' # x) = h @ port"
    "dropWhile (\<lambda>c. c \<noteq> CHR ''/'') ((h @ port) @ CHR ''/'' # x) = CHR ''/'' # x"
    using hb by (auto intro!: takeWhile_prefix_stop simp: dropWhile_append)
  obtain z where z: "unescape_any x = Some z" using assms(3) x by (auto simp: well_formed_uri_def)
  have low: "to_lower ''https'' = ''https''" by code_simp
  have body: "url_parse_body ip6 ?raw = Some \<lparr>u_scheme = ''https'', u_host = h @ port, u_path = CHR ''/'' # z\<rparr>"
    unfolding url_parse_body_def gs
    using ctl sq x tw z parse_plain_host(1) [OF assms(1,2), of ip6]
    by (simp add: Let_def has_prefix_def low)
  show ?thesis
    using c body by (simp add: url_parse_def)
qed

lemma safe_next_own_host:
  assumes "list_all name_byte h" "h \<noteq> []" "port_text port" "well_formed_uri uri"
    and "to_lower h = to_lower (pc_base p) \<or> has_suffix (to_lower h) (''.'' @ to_lower (pc_base p))"
  shows "safe_next p (''https://'' @ h @ port @ uri) = ''https://'' @ h @ port @ uri"
proof -
  let ?url = "''https://'' @ h @ port @ uri"
  obtain path where path: "url_parse (pc_ip6 p) ?url = Some \<lparr>u_scheme = ''https'', u_host = h @ port, u_path = path\<rparr>"
    using url_parse_https [OF assms(1,3,4)] by metis
  have "CHR 0x5C \<notin> set ?url"
    using host_bytes [OF assms(1,3)] assms(4) by (fastforce simp: well_formed_uri_def)
  then have "\<not> contains_str ?url [CHR 0x5C]" by (simp add: contains_single)
  moreover have "url_hostname \<lparr>u_scheme = ''https'', u_host = h @ port, u_path = path\<rparr> = h"
    using parse_plain_host(3) [OF assms(1,3)] .
  moreover have "to_lower h \<noteq> []" using assms(2) by (simp add: to_lower_def)
  ultimately show ?thesis using path assms(5) by (simp add: safe_next_def Let_def)
qed

text \<open>The replies of the login form: the only redirect of a login is the one to its destination, and a
  reply that is a page sets no cookie.\<close>

lemma session_issue_never_Inl: "session_issue st uid w \<noteq> (Inl e, w')"
  by (auto simp: session_issue_def bindR_Inl_iff ret_run split: sum.splits prod.splits)

definition login_reply :: "string \<Rightarrow> response \<Rightarrow> cookie list \<Rightarrow> bool" where
  "login_reply dest resp cks \<longleftrightarrow> (case resp of
       Redirect c loc \<Rightarrow> c = 302 \<and> loc = dest
     | HttpError c m \<Rightarrow> c \<in> {400, 403, 500}
     | _ \<Rightarrow> cks = [])"

lemma post_login_reply: "post_login p r w = ((resp, cks), w') \<Longrightarrow> login_reply (safe_next p (form_value r ''next'')) resp cks"
  unfolding post_login_def
  by (auto simp: Let_def login_reply_def login_page_def render_def page_header_def
      split: if_splits prod.splits sum.splits)

text \<open>C23: A visitor stopped by the gate of an app gets back to where they were going: the address that the
  gate puts into the query of the login page arrives there unchanged and is accepted as a
  destination; the login page carries it on in its form; a visitor who has a session is sent there
  at once, and a login posted with that form is either refused without a cookie, fails with an
  error status, or redirects exactly there. The conditions: the app is asked for over TLS under the
  base host or a subdomain, its host is letters, digits, dashes and dots with an optional port of
  digits, and the URI begins with a slash, holds no control byte, no backslash and no hash sign,
  and its path unescapes. (A URI with a backslash or an escape that does not parse falls back
  to the portal's root.)\<close>

theorem gate_login_roundtrip:
  assumes "rq_tls r" "rq_host r = h @ port" "list_all name_byte h" "h \<noteq> []" "port_text port" "well_formed_uri (rq_uri r)"
    and "to_lower h = to_lower (pc_base p) \<or> has_suffix (to_lower h) (''.'' @ to_lower (pc_base p))"
    and "\<forall>s. \<not> session_valid w r s"
    and "gate_wrap (portal_url p) app r w = ((Redirect 302 t, cks), w1)"
    and "t = portal_url p @ ''/portal/login?'' @ rq_query r2"
  shows "safe_next p (query_get (rq_query r2) ''next'') = request_url r \<and>
    (get_login p r2 w2 = ((resp, cks2), w3) \<longrightarrow>
       (case resp of Page n vs \<Rightarrow> (''Next'', request_url r) \<in> set vs \<and> (\<forall>s. fst (session_lookup r2 w2) \<noteq> Inr (Some s))
        | _ \<Rightarrow> resp = Redirect 302 (request_url r) \<and> (\<exists>s. session_lookup r2 w2 = (Inr (Some s), w3)))) \<and>
    (form_value r3 ''next'' = request_url r \<and> post_login p r3 w4 = ((resp3, cks3), w5) \<longrightarrow>
       login_reply (request_url r) resp3 cks3)"
proof -
  have "t = login_redirect (portal_url p) r"
    using portal_sessions.gate_stops [of w r "portal_url p" app] assms(8,9)
    by (auto simp: gate_wrap_def login_redirect_def request_url_def)
  then have "rq_query r2 = ''next='' @ query_escape (request_url r)"
    using assms(10) by (simp add: login_redirect_def)
  then have q: "query_get (rq_query r2) ''next'' = request_url r"
    using query_get_escaped [of "request_url r"] by (simp only:)
  have url: "request_url r = ''https://'' @ h @ port @ rq_uri r"
    using assms(1,2) by (simp add: request_url_def)
  have sn: "safe_next p (request_url r) = request_url r"
    unfolding url using safe_next_own_host [OF assms(3-7)] .
  have "login_reply (request_url r) resp3 cks3"
    if "form_value r3 ''next'' = request_url r" "post_login p r3 w4 = ((resp3, cks3), w5)"
    using post_login_reply [OF that(2)] that(1) sn by simp
  then show ?thesis using q sn
    by (auto simp: get_login_def Let_def render_def split: prod.splits sum.splits option.splits)
qed

definition sample_portal :: portal_config where
  "sample_portal = \<lparr>pc_base = ''nas.example'', pc_title = ''nass'', pc_https = True,
     pc_store = \<lparr>sn_domain = ''nas.example'', sn_insecure = False\<rparr>, pc_bcrypt = sample_bcrypt, pc_ip6 = (\<lambda>_. None)\<rparr>"

lemma gate_login_roundtrip_witness:
  "\<exists>r2 :: request. safe_next sample_portal (query_get (rq_query r2) ''next'') = request_url (sample_request ''theme=dark'')"
proof -
  let ?r = "sample_request ''theme=dark''"
  have c: "req_cookie ?r session_cookie_name = None" by code_simp
  then have n: "\<forall>s. \<not> session_valid sample_two_users ?r s" by (simp add: session_valid_def)
  have g: "gate_wrap (portal_url sample_portal) undefined ?r sample_two_users =
      ((Redirect 302 (login_redirect (portal_url sample_portal) (drop_identity ?r)), []), sample_two_users)"
    using c by (simp add: gate_wrap_def gate_wrap_with_def Let_def session_lookup_def ret_run)
  have t: "login_redirect (portal_url sample_portal) (drop_identity ?r) = portal_url sample_portal @ ''/portal/login?'' @
      rq_query (?r\<lparr>rq_query := ''next='' @ query_escape (request_url (drop_identity ?r))\<rparr>)"
    by (simp add: login_redirect_def)
  have h: "rq_tls ?r" "rq_host ?r = ''app.nas.example'' @ '':8443''" by (simp_all add: sample_request_def)
  have x: "list_all name_byte ''app.nas.example''" "well_formed_uri (rq_uri ?r)"
    "to_lower ''app.nas.example'' = to_lower (pc_base sample_portal) \<or>
      has_suffix (to_lower ''app.nas.example'') (''.'' @ to_lower (pc_base sample_portal))"
    by code_simp+
  have p: "port_text '':8443''" by (simp add: port_text_def)
  show ?thesis
    using gate_login_roundtrip [OF h x(1) _ p x(2,3) n g t] by blast
qed

subsection \<open>What a login does\<close>

lemma users_verify_Inr:
  "users_verify bc n pw w = (Inr u, w') \<Longrightarrow> w_db w' = w_db w \<and> (\<exists>row. user_named n (w_db w) = Some row \<and>
     bc_cmp bc (usr_hash row) pw \<and> scan_user (Some row) = Inr u)"
  by (auto simp: users_verify_def users_get_by_username_def bindR_Inr_iff throw_run lift_result_run
      split: option.splits if_splits dest!: query_InrD)

lemma session_issue_cookies:
  assumes "session_issue st uid w = (Inr (res, cks), w')"
  shows "(cks = [] \<and> w_db w' = w_db w) \<or>
    (\<exists>i d. cks = [session_cookie st i (w_clock w + session_ttl)] \<and> w_db w' = d \<and>
       ins_session \<lparr>ss_id = i, ss_user = uid, ss_expires = w_clock w + session_ttl\<rparr> (w_db w) = Inr ((), d))"
proof -
  obtain r w1 where r: "session_insert uid w = (r, w1)" by fastforce
  show ?thesis
  proof (cases r)
    case (Inl e)
    then have "w_db w1 = w_db w"
      using r by (auto simp: session_insert_def bindR_Inl_iff draw_def now_run ret_run split: list.splits dest!: exec_InlD)
    then show ?thesis using assms r Inl by (auto simp: session_issue_def bindR_Inr_iff ret_run)
  next
    case (Inr ie)
    obtain i e where ie: "ie = (i, e)" by fastforce
    then have ins: "e = w_clock w + session_ttl" "ins_session \<lparr>ss_id = i, ss_user = uid, ss_expires = e\<rparr> (w_db w) = Inr ((), w_db w1)"
      using r Inr by (auto simp: session_insert_def bindR_Inr_iff draw_def now_run ret_run split: list.splits dest!: exec_InrD)
    have "w_db (snd (users_get uid w1)) = w_db w1"
      by (rule frameD [OF frame_users_read(2)])
    then show ?thesis using assms r Inr ie ins by (auto simp: session_issue_def bindR_Inr_iff ret_run)
  qed
qed

lemma ins_session_db: "ins_session s d = Inr (u, d') \<Longrightarrow> d' = d\<lparr>db_sessions := db_sessions d'\<rparr>"
  by (auto simp: ins_session_def split: if_splits)

definition opens_session :: "portal_config \<Rightarrow> request \<Rightarrow> 'r portal_scheme \<Rightarrow> 'r portal_scheme \<Rightarrow> cookie list \<Rightarrow> bool" where
  "opens_session p r w w' cks \<longleftrightarrow> same_origin p r \<and>
     fst (th_allow (w_clock w) (client_ip r) (form_value r ''username'') (pt_throttle w)) \<and>
     (\<exists>row i. user_named (form_value r ''username'') (w_db w) = Some row \<and>
        bc_cmp (pc_bcrypt p) (usr_hash row) (form_value r ''password'') \<and>
        cks = [session_cookie (pc_store p) i (w_clock w + session_ttl)] \<and>
        session_by i (w_db w) = None \<and> w_db w' = (w_db w)\<lparr>db_sessions := db_sessions (w_db w')\<rparr> \<and>
        (\<forall>k. session_by k (w_db w') = (if k = i
           then Some \<lparr>ss_id = i, ss_user = usr_id row, ss_expires = w_clock w + session_ttl\<rparr>
           else session_by k (w_db w))))"

lemma frame_verify_clock: "frame w_clock (users_verify bc n pw)"
  unfolding users_verify_def users_get_by_username_def by ((intro preserves_intro); simp)

lemma post_login_cases:
  assumes "post_login p r w = ((resp, cks), w')"
  shows "(cks = [] \<and> w_db w' = w_db w) \<or> opens_session p r w w' cks"
proof (cases "same_origin p r \<and> rq_form r \<noteq> None")
  case False
  then show ?thesis using assms by (auto simp: post_login_def split: if_splits)
next
  case ok: True
  let ?u = "form_value r ''username''" and ?pw = "form_value r ''password''" and ?ip = "client_ip r"
  obtain allowed th1 where th: "th_allow (w_clock w) ?ip ?u (pt_throttle w) = (allowed, th1)" by fastforce
  show ?thesis
  proof (cases allowed)
    case False
    then show ?thesis using assms ok th by (auto simp: post_login_def Let_def split: prod.splits)
  next
    case True
    obtain v w1 where v: "users_verify (pc_bcrypt p) ?u ?pw (w\<lparr>pt_throttle := th1\<rparr>) = (v, w1)" by fastforce
    have w1: "w_db w1 = w_db w" "w_clock w1 = w_clock w"
      using frame_pair [OF frame_users_read(4) v] frame_pair [OF frame_verify_clock v] by simp_all
    show ?thesis
    proof (cases v)
      case (Inl e)
      then show ?thesis using assms ok th True v w1 by (auto simp: post_login_def Let_def)
    next
      case (Inr u)
      obtain row where row: "user_named ?u (w_db w) = Some row" "bc_cmp (pc_bcrypt p) (usr_hash row) ?pw"
          "us_id u = usr_id row"
        using users_verify_Inr [OF v [unfolded Inr]] by (auto dest!: scan_user_id)
      let ?w2 = "w1\<lparr>pt_throttle := th_success ?ip ?u (pt_throttle w1)\<rparr>"
      obtain rr w3 where si: "session_issue (pc_store p) (us_id u) ?w2 = (rr, w3)" by fastforce
      then obtain res c2 where rr: "rr = Inr (res, c2)"
        using session_issue_never_Inl by (cases rr) fastforce+
      have iss: "session_issue (pc_store p) (us_id u) ?w2 = (Inr (res, cks), w3)" "w' = w3"
        using assms ok th True v Inr si rr by (cases res; simp add: post_login_def Let_def)+
      from session_issue_cookies [OF iss(1)] show ?thesis
      proof
        assume "cks = [] \<and> w_db w3 = w_db ?w2"
        then show ?thesis using w1 iss(2) by simp
      next
        assume "\<exists>i d. cks = [session_cookie (pc_store p) i (w_clock ?w2 + session_ttl)] \<and> w_db w3 = d \<and>
          ins_session \<lparr>ss_id = i, ss_user = us_id u, ss_expires = w_clock ?w2 + session_ttl\<rparr> (w_db ?w2) = Inr ((), d)"
        then obtain i where i: "cks = [session_cookie (pc_store p) i (w_clock w + session_ttl)]"
            "ins_session \<lparr>ss_id = i, ss_user = usr_id row, ss_expires = w_clock w + session_ttl\<rparr> (w_db w) = Inr ((), w_db w')"
          using w1 iss(2) row(3) by auto
        then have "opens_session p r w w' cks"
          using ok th True row sessions.find_insert [OF i(2)] sessions.insert_fresh [OF i(2)] ins_session_db [OF i(2)]
          by (auto simp: opens_session_def)
        then show ?thesis ..
      qed
    qed
  qed
qed

text \<open>The form's use of the throttle: the two steps of \<open>login_forms\<close>, the second one only when the first
  one granted the attempt. (A handler runs to its end here; \<^verbatim>\<open>Login_Throttle\<close> interleaves the two steps of
  many handlers.)\<close>

lemma frame_throttle_verify: "frame pt_throttle (users_verify bc n pw)"
  unfolding users_verify_def users_get_by_username_def by ((intro preserves_intro); simp)

lemma frame_throttle_issue: "frame pt_throttle (session_issue st uid)"
  unfolding session_issue_def session_insert_def users_get_def by ((intro preserves_intro); simp)

theorem post_login_throttle:
  assumes "post_login p r w = (reply, w')" and "pt_throttle w = Some t"
    and "same_origin p r" "rq_form r \<noteq> None"
  defines "s \<equiv> form_step (Asks (w_clock w) (client_ip r) (form_value r ''username'')) \<lparr>lf_throttle = t, lf_flying = []\<rparr>"
  shows "\<exists>good. pt_throttle w' = Some (lf_throttle (form_step (Checked (w_clock w) 0 good) s))"
proof -
  let ?u = "form_value r ''username''" and ?ip = "client_ip r" and ?w = "w\<lparr>pt_throttle := Some (snd (th_allow1 (w_clock w) (client_ip r) (form_value r ''username'') t))\<rparr>"
  obtain v w1 where v: "users_verify (pc_bcrypt p) ?u (form_value r ''password'') ?w = (v, w1)" by fastforce
  have th: "pt_throttle w1 = pt_throttle ?w" using frame_pair [OF frame_throttle_verify v] .
  have "pt_throttle w' = Some (lf_throttle (form_step (Checked (w_clock w) 0 (case v of Inl _ \<Rightarrow> False | Inr _ \<Rightarrow> True)) s))"
  proof (cases v)
    case (Inl e)
    then show ?thesis using assms(1-4) v th
      by (auto simp: post_login_def Let_def th_allow_def th_retry_after_def th_failed_def s_def form_step_def split: if_splits)
  next
    case (Inr u)
    obtain rr w2 where si: "session_issue (pc_store p) (us_id u) (w1\<lparr>pt_throttle := th_success ?ip ?u (pt_throttle w1)\<rparr>) = (rr, w2)"
      by fastforce
    have "pt_throttle w2 = th_success ?ip ?u (pt_throttle w1)" using frame_pair [OF frame_throttle_issue si] by simp
    then show ?thesis using assms(1-4) v th Inr si
      by (auto simp: post_login_def Let_def th_allow_def th_retry_after_def th_success_def s_def form_step_def
          split: if_splits sum.splits)
  qed
  then show ?thesis ..
qed

text \<open>C14: A login opens a session only for who proves to be the user: a reply sets a session cookie only if
  the request is not from another origin, the throttle allows the attempt and the password matches the
  stored hash of the named user, and then exactly one session is added, of that user, with the
  cookie's identifier, and nothing else changes; in every other case (throttled, wrong name or password, bad form, failures)
  there is no cookie and the database is as it was.\<close>

theorem login_only_with_password:
  assumes "post_login p r w = ((resp, cks), w')"
  shows "(cks = [] \<and> w_db w' = w_db w) \<or> opens_session p r w w' cks"
  by (rule post_login_cases [OF assms])

definition sample_login :: "string \<Rightarrow> request" where
  "sample_login pw = (sample_request ''theme=dark'')\<lparr>rq_host := ''nas.example'',
     rq_form := Some [(''username'', ''ana''), (''password'', pw), (''next'', ''/'')]\<rparr>"

definition sample_portal_world :: portal where
  "sample_portal_world = \<lparr>w_db = empty_db\<lparr>db_user_seq := 1, db_users := [\<lparr>usr_id = 1, usr_name = ''ana'',
       usr_email = None, usr_hash = CHR 0x24 # ''password1'', usr_admin = 1, usr_created = 0, usr_updated = 0\<rparr>]\<rparr>,
     w_faults = [], w_clock = 0, w_rand = [''tok''], hs_fs = [], hs_disk_faults = [], hs_cmds = [], hs_outs = [],
     hs_busy = {}, hs_polls = None, hs_net = [], hs_reqs = [], pt_throttle = Some (new_login_throttle 5 15 minute_ns), pt_jobs = []\<rparr>"

lemma login_only_with_password_witness:
  "\<exists>resp cks w'. post_login sample_portal (sample_login ''wrong'') sample_portal_world = ((resp, cks), w') \<and>
     ((cks = [] \<and> w_db w' = w_db sample_portal_world) \<or> opens_session sample_portal (sample_login ''wrong'') sample_portal_world w' cks)"
proof -
  obtain resp cks w' where "post_login sample_portal (sample_login ''wrong'') sample_portal_world = ((resp, cks), w')"
    by (metis surj_pair)
  then show ?thesis using login_only_with_password by blast
qed

end
