(* ===== verification/Oidc_Clients.thy ===== *)
theory Oidc_Clients
  imports Auth_Users
begin

text \<open>
  OIDC clients (\<^verbatim>\<open>internal/auth/oidc/clients.go\<close>): provisioning a client for an app, revoking it with
  its tokens, looking it up for the provider library and checking its secret. The secret's hash is
  bcrypt's, as for users. The main results: a provisioned secret verifies, and a revocation leaves no token of the
  client behind and touches no other client.
\<close>

datatype app_type = AppWeb | AppUserAgent | AppNative

record oidc_client =
  oc_id :: string
  oc_redirects :: "string list"
  oc_app_type :: app_type
  oc_auth_method :: string
  oc_responses :: "string list"
  oc_grants :: "string list"
  oc_dev :: bool

definition client_login_url :: "oidc_client \<Rightarrow> string \<Rightarrow> string" where
  "client_login_url c i = ''/login?authRequestID='' @ i"

definition parse_app_type :: "string \<Rightarrow> app_type" where
  "parse_app_type s = (if s = ''native'' then AppNative else if s = ''user_agent'' then AppUserAgent else AppWeb)"

record provision_result =
  pv_client :: string
  pv_secret :: string
  pv_app :: string

text \<open>The row of a new client, with the defaults of the schema.\<close>

definition new_client_row :: "string \<Rightarrow> string \<Rightarrow> string \<Rightarrow> string list \<Rightarrow> client_row" where
  "new_client_row cid app hash uris = \<lparr>cl_id = cid, cl_app = app, cl_secret_hash = hash, cl_redirects = Json uris,
     cl_scopes = Json [''openid'', ''profile'', ''email''], cl_app_type = ''web'', cl_auth_method = ''client_secret_basic'',
     cl_grants = Json [''authorization_code'', ''refresh_token''], cl_responses = Json [''code''], cl_dev = 0\<rparr>"

definition provision :: "bcrypt \<Rightarrow> string \<Rightarrow> string list \<Rightarrow> ('r world_scheme, provision_result) run" where
  "provision bc app uris =
     (if app = [] then throw (Msg ''app name required'')
      else if uris = [] then throw (Msg ''at least one redirect_uri required'')
      else
        bindR draw (\<lambda>cid. bindR draw (\<lambda>secret.
        bindR (hash_password bc secret) (\<lambda>hash.
        bindR (in_tx (
          bindR now (\<lambda>t.
          bindR (exec (upsert_app app None t)) (\<lambda>_.
          map_error (\<lambda>e. if contains_str (error_text e) ''UNIQUE''
              then Msg (''app '' @ app @ '' already has a client; revoke and re-provision'') else e)
            (exec (ins_client (new_client_row cid app hash uris))))))) (\<lambda>_.
        ret \<lparr>pv_client = cid, pv_secret = secret, pv_app = app\<rparr>)))))"

definition delete_client :: "string \<Rightarrow> ('r world_scheme, bool) run" where
  "delete_client app = in_tx_if (\<lambda>found. found) (
     bindR (query (\<lambda>d. map_option cl_id (row_by cl_app app (db_clients d)))) (\<lambda>c. case c of
       None \<Rightarrow> ret False
     | Some cid \<Rightarrow>
         bindR (exec (del_access (\<lambda>r. at_client r = cid))) (\<lambda>_.
         bindR (exec (del_refresh (\<lambda>r. rt_client r = cid))) (\<lambda>_.
         bindR (exec (del_clients (\<lambda>r. cl_id r = cid))) (\<lambda>_.
         ret True)))))"

definition revoke_client :: "string \<Rightarrow> ('r world_scheme, unit) run" where
  "revoke_client app = bindR (delete_client app) (\<lambda>found.
     if found then ret () else throw (Msg (''no client for app '' @ app)))"

definition cleanup_client :: "string \<Rightarrow> ('r world_scheme, unit) run" where
  "cleanup_client app = bindR (delete_client app) (\<lambda>_. ret ())"

definition decode_client :: "client_row \<Rightarrow> error + oidc_client" where
  "decode_client r = (case unmarshal (cl_redirects r) of
       None \<Rightarrow> Inl (Wrap ''decode redirect_uris'' (Msg ''invalid JSON''))
     | Some uris \<Rightarrow> (case unmarshal (cl_grants r) of
         None \<Rightarrow> Inl (Wrap ''decode grant_types'' (Msg ''invalid JSON''))
       | Some grants \<Rightarrow> (case unmarshal (cl_responses r) of
           None \<Rightarrow> Inl (Wrap ''decode response_types'' (Msg ''invalid JSON''))
         | Some resp \<Rightarrow> Inr \<lparr>oc_id = cl_id r, oc_redirects = uris, oc_app_type = parse_app_type (cl_app_type r),
             oc_auth_method = cl_auth_method r, oc_responses = resp, oc_grants = grants, oc_dev = (cl_dev r \<noteq> 0)\<rparr>)))"

definition lookup_client :: "string \<Rightarrow> ('r world_scheme, oidc_client) run" where
  "lookup_client cid = bindR (query (client_by cid)) (\<lambda>r. case r of
       None \<Rightarrow> throw (Msg (''client '' @ cid @ '' not found''))
     | Some row \<Rightarrow> lift_result (decode_client row))"

definition verify_client_secret :: "bcrypt \<Rightarrow> string \<Rightarrow> string \<Rightarrow> ('r world_scheme, unit) run" where
  "verify_client_secret bc cid secret =
     bindR (query (\<lambda>d. map_option cl_secret_hash (client_by cid d))) (\<lambda>h. case h of
       None \<Rightarrow> throw (Msg ''client not found'')
     | Some hash \<Rightarrow> if bc_cmp bc hash secret then ret () else throw (Msg ''invalid client secret''))"

subsection \<open>Invariant\<close>

lemma preserves_provision [preserves_intro]: "preserves world_ok (provision bc app uris)"
  unfolding provision_def by (intro preserves_intro)

lemma preserves_delete_client [preserves_intro]: "preserves world_ok (delete_client app)"
  unfolding delete_client_def by (intro preserves_intro)

lemma preserves_client_ops [preserves_intro]:
  "preserves world_ok (revoke_client app)" "preserves world_ok (cleanup_client app)"
  "preserves world_ok (lookup_client cid)" "preserves world_ok (verify_client_secret bc cid s)"
  unfolding revoke_client_def cleanup_client_def lookup_client_def verify_client_secret_def
  by (intro preserves_intro)+

subsection \<open>Provisioning\<close>

lemma draw_Inr: "draw w = (Inr x, w') \<Longrightarrow> \<exists>xs. w_rand w = x # xs \<and> w' = w\<lparr>w_rand := xs\<rparr>"
  by (auto simp: draw_def split: list.splits)

lemma provision_Inr:
  assumes "provision bc app uris w = (Inr pv, w')"
  shows "\<exists>salt h d. bc_gen bc salt (pv_secret pv) = Some h \<and> pv_app pv = app \<and> app \<noteq> [] \<and> uris \<noteq> [] \<and>
    upsert_app app None (w_clock w) (w_db w) = Inr ((), d) \<and>
    ins_client (new_client_row (pv_client pv) app h uris) d = Inr ((), w_db w')"
  using assms
  by (auto simp: provision_def bindR_Inr_iff ret_run throw_run now_run split: if_splits
      dest!: draw_Inr hash_password_Inr in_tx_InrD exec_InrD)
    blast

text \<open>A provisioned client works: right after its creation the secret that was handed out verifies, and
  the client is found with the redirect URIs it was given; no other client is changed.\<close>

theorem provision_then_verify:
  assumes "provision bc app uris w = (Inr pv, w')" and "bcrypt_accepts bc" and "w_faults w' = []"
  shows "verify_client_secret bc (pv_client pv) (pv_secret pv) w' = (Inr (), w') \<and>
    (\<exists>c. lookup_client (pv_client pv) w' = (Inr c, w') \<and> oc_id c = pv_client pv \<and> oc_redirects c = uris) \<and>
    (\<forall>cid. cid \<noteq> pv_client pv \<longrightarrow> client_by cid (w_db w') = client_by cid (w_db w))"
proof -
  obtain salt h d where pr: "bc_gen bc salt (pv_secret pv) = Some h"
      "upsert_app app None (w_clock w) (w_db w) = Inr ((), d)"
      "ins_client (new_client_row (pv_client pv) app h uris) d = Inr ((), w_db w')"
    using provision_Inr [OF assms(1)] by blast
  have cd: "client_by cid d = client_by cid (w_db w)" for cid
    using pr(2) by (auto simp: upsert_app_def client_by_def split: if_splits)
  have key: "cl_id (new_client_row (pv_client pv) app h uris) = pv_client pv" by (simp add: new_client_row_def)
  have found: "client_by cid (w_db w') = (if cid = pv_client pv then Some (new_client_row (pv_client pv) app h uris)
      else client_by cid d)" for cid
    using clients.find_insert [OF pr(3)] key by simp
  have "bc_cmp bc h (pv_secret pv)" using assms(2) pr(1) by (auto simp: bcrypt_accepts_def)
  then show ?thesis
    using found cd assms(3)
    by (simp add: verify_client_secret_def lookup_client_def run_simps run_eval new_client_row_def decode_client_def)
qed

lemma sample_provision:
  "provision sample_bcrypt ''blog'' [''https://blog.nas.example/cb''] sample_world =
     (Inr \<lparr>pv_client = ''aa'', pv_secret = ''bb'', pv_app = ''blog''\<rparr>,
      snd (provision sample_bcrypt ''blog'' [''https://blog.nas.example/cb''] sample_world))"
  "w_faults (snd (provision sample_bcrypt ''blog'' [''https://blog.nas.example/cb''] sample_world)) = []"
  by code_simp+

lemma provision_then_verify_witness:
  "fst (verify_client_secret sample_bcrypt ''aa'' ''bb''
     (snd (provision sample_bcrypt ''blog'' [''https://blog.nas.example/cb''] sample_world))) = Inr ()"
  using provision_then_verify [OF sample_provision(1) sample_bcrypt_accepts sample_provision(2)] by simp

subsection \<open>Revocation\<close>

definition client_gone :: "string \<Rightarrow> database \<Rightarrow> database" where
  "client_gone cid d = d\<lparr>db_access := filter (\<lambda>r. at_client r \<noteq> cid) (db_access d),
     db_refresh := filter (\<lambda>r. rt_client r \<noteq> cid) (db_refresh d),
     db_clients := filter (\<lambda>r. cl_id r \<noteq> cid) (db_clients d)\<rparr>"

definition no_client_tokens :: "string \<Rightarrow> database \<Rightarrow> bool" where
  "no_client_tokens cid d \<longleftrightarrow> (\<forall>r \<in> set (db_access d). at_client r \<noteq> cid) \<and> (\<forall>r \<in> set (db_refresh d). rt_client r \<noteq> cid)"

lemma client_gone_tokens: "no_client_tokens cid (client_gone cid d)"
  by (simp add: no_client_tokens_def client_gone_def)

lemma in_tx_if_InrD:
  assumes "in_tx_if c m w = (Inr x, w')"
  shows "\<exists>fs w1. m (w\<lparr>w_faults := fs\<rparr>) = (Inr x, w1) \<and> (if c x then \<exists>gs. w' = w1\<lparr>w_faults := gs\<rparr> else w_db w' = w_db w)"
proof -
  obtain r fs where p: "pop_fault w = (r, w\<lparr>w_faults := fs\<rparr>)" "r = Inr () \<or> r = Inl DbFault"
    by (rule pop_fault_obtain)
  obtain r2 w1 where m: "m (w\<lparr>w_faults := fs\<rparr>) = (r2, w1)" by fastforce
  obtain r3 gs where q: "pop_fault w1 = (r3, w1\<lparr>w_faults := gs\<rparr>)" "r3 = Inr () \<or> r3 = Inl DbFault"
    by (rule pop_fault_obtain)
  show ?thesis
    using assms p m q by (cases r2) (auto simp: in_tx_if_def run_eval split: if_splits, blast+)
qed

lemma delete_client_cases:
  "delete_client app w = (r, w') \<Longrightarrow> (case r of
     Inl e \<Rightarrow> w_db w' = w_db w
   | Inr found \<Rightarrow> (case row_by cl_app app (db_clients (w_db w)) of
       None \<Rightarrow> \<not> found \<and> w_db w' = w_db w
     | Some c \<Rightarrow> found \<and> w_db w' = client_gone (cl_id c) (w_db w)))"
proof (cases r)
  case (Inl e)
  then show "delete_client app w = (r, w') \<Longrightarrow> ?thesis"
    by (auto simp: delete_client_def dest!: in_tx_if_atomic)
next
  case (Inr found)
  assume "delete_client app w = (r, w')"
  with Inr show ?thesis
    by (auto simp: delete_client_def bindR_Inr_iff ret_run del_access_def del_refresh_def del_clients_def client_gone_def
        split: option.splits dest!: in_tx_if_InrD query_InrD exec_InrD)
qed

text \<open>C18: Revoking an app's client takes everything issued to it along, in one transaction: afterwards the
  client and its access and refresh tokens are gone and nothing else has changed; if there is no such
  client or a statement fails, an error is returned and the database is as it was.\<close>

theorem revoke_client_complete:
  "case revoke_client app w of
     (Inl e, w') \<Rightarrow> w_db w' = w_db w
   | (Inr u, w') \<Rightarrow> (\<exists>c. row_by cl_app app (db_clients (w_db w)) = Some c \<and> w_db w' = client_gone (cl_id c) (w_db w) \<and>
       client_by (cl_id c) (w_db w') = None \<and>
       no_client_tokens (cl_id c) (w_db w'))"
proof -
  obtain r w1 where d: "delete_client app w = (r, w1)" by fastforce
  have gone: "client_by c (client_gone c x) = None" for c x
    by (simp add: client_by_def client_gone_def row_by_delete_key)
  show ?thesis
    using delete_client_cases [OF d] d gone client_gone_tokens
    by (cases r) (auto simp: revoke_client_def run_eval run_simps split: option.splits)
qed

end
