(* ===== verification/Oidc_Storage.thy ===== *)
theory Oidc_Storage
  imports Oidc_Clients
begin

text \<open>
  The storage of the OIDC provider (\<^verbatim>\<open>internal/auth/oidc/authrequest.go\<close>, \<^verbatim>\<open>tokens.go\<close> and
  \<^verbatim>\<open>storage.go\<close>): authorization requests, codes, access and refresh tokens, as the operations the
  provider library (\<^verbatim>\<open>zitadel/oidc\<close>, not part of the repository) calls. The library's request is
  \<open>authz_params\<close>. \<open>CURRENT_TIMESTAMP\<close> has whole seconds, so \<open>sql_now\<close> is the clock cut to a second.
  A subject is the decimal text of a user's number.
\<close>

definition access_token_ttl :: int where
  "access_token_ttl = 3600 * second"

definition refresh_token_ttl :: int where
  "refresh_token_ttl = 30 * 24 * 3600 * second"

definition auth_request_ttl :: int where
  "auth_request_ttl = 30 * 60 * second"

definition auth_code_ttl :: int where
  "auth_code_ttl = 5 * 60 * second"

text \<open>\<open>CURRENT_TIMESTAMP\<close>: the clock cut to a second. SQLite compares it as text with the text of a stored instant,
  which has a fraction (when it is not zero) and a zone after the seconds; so \<open>expires_at > CURRENT_TIMESTAMP\<close> holds
  from the whole second on, that is, when the cut clock is at most the instant.\<close>

definition sql_now :: "('r world_scheme, int) run" where
  "sql_now = bindR now (\<lambda>t. ret (t - t mod second))"

subsection \<open>Authorization requests\<close>

record code_challenge =
  cc_challenge :: string
  cc_s256 :: bool

record authz_params =
  az_client :: string
  az_scopes :: "string list"
  az_redirect :: string
  az_state :: string
  az_nonce :: string
  az_resp_type :: string
  az_resp_mode :: string
  az_challenge :: string
  az_method :: string
  az_prompt :: "string list"

record auth_request =
  an_id :: string
  an_client :: string
  an_user :: string
  an_redirect :: string
  an_state :: string
  an_nonce :: string
  an_scopes :: "string list"
  an_resp_type :: string
  an_resp_mode :: string
  an_challenge :: "code_challenge option"
  an_auth_time :: "int option"
  an_done :: bool

definition request_amr :: "auth_request \<Rightarrow> string list" where
  "request_amr a = (if an_done a then [''pwd''] else [])"

definition make_challenge :: "string \<Rightarrow> string \<Rightarrow> code_challenge option" where
  "make_challenge ch m = (if ch = [] then None else Some \<lparr>cc_challenge = ch, cc_s256 = (m = ''S256'')\<rparr>)"

definition nullable :: "string \<Rightarrow> string option" where
  "nullable s = (if s = [] then None else Some s)"

definition insert_auth_request :: "authz_params \<Rightarrow> string \<Rightarrow> ('r world_scheme, auth_request) run" where
  "insert_auth_request src uid =
     bindR draw (\<lambda>i. bindR now (\<lambda>t.
     let ch = az_challenge src; m = (if az_challenge src \<noteq> [] then az_method src else []) in
     bindR (exec (ins_authreq \<lparr>ar_id = i, ar_client = az_client src, ar_user = nullable uid,
        ar_redirect = az_redirect src, ar_state = az_state src, ar_nonce = az_nonce src,
        ar_scopes = Json (az_scopes src), ar_resp_type = az_resp_type src, ar_resp_mode = az_resp_mode src,
        ar_challenge = ch, ar_method = m, ar_auth_time = None, ar_completed = 0,
        ar_expires = t + auth_request_ttl\<rparr>)) (\<lambda>_.
     ret \<lparr>an_id = i, an_client = az_client src, an_user = uid, an_redirect = az_redirect src,
       an_state = az_state src, an_nonce = az_nonce src, an_scopes = az_scopes src,
       an_resp_type = az_resp_type src, an_resp_mode = az_resp_mode src,
       an_challenge = make_challenge ch m, an_auth_time = None, an_done = False\<rparr>)))"

definition decode_auth_request :: "authreq_row \<Rightarrow> error + auth_request" where
  "decode_auth_request r =
     (case (case ar_user r of None \<Rightarrow> Some 0 | Some u \<Rightarrow> parse_int u) of
        None \<Rightarrow> Inl (Msg ''converting user_id to a int64'')
      | Some uid \<Rightarrow> (case unmarshal (ar_scopes r) of
          None \<Rightarrow> Inl (Wrap ''decode scopes'' (Msg ''invalid JSON''))
        | Some scopes \<Rightarrow> Inr \<lparr>an_id = ar_id r, an_client = ar_client r,
            an_user = (if uid \<noteq> 0 then format_int uid else []), an_redirect = ar_redirect r,
            an_state = ar_state r, an_nonce = ar_nonce r, an_scopes = scopes,
            an_resp_type = ar_resp_type r, an_resp_mode = ar_resp_mode r,
            an_challenge = make_challenge (ar_challenge r) (ar_method r),
            an_auth_time = ar_auth_time r, an_done = (ar_completed r \<noteq> 0)\<rparr>))"

definition load_auth_request :: "string \<Rightarrow> ('r world_scheme, auth_request) run" where
  "load_auth_request i =
     bindR sql_now (\<lambda>t.
     bindR (query (\<lambda>d. case authreq_by i d of None \<Rightarrow> None | Some r \<Rightarrow> if t \<le> ar_expires r then Some r else None)) (\<lambda>row.
     case row of
       None \<Rightarrow> throw (Msg (''auth request '' @ i @ '' not found''))
     | Some r \<Rightarrow> lift_result (decode_auth_request r)))"

definition mark_auth_request_complete :: "string \<Rightarrow> int \<Rightarrow> ('r world_scheme, unit) run" where
  "mark_auth_request_complete i uid =
     bindR sql_now (\<lambda>t.
     bindR (exec (upd_authreqs (\<lambda>r. ar_id r = i)
        (\<lambda>r. r\<lparr>ar_user := Some (format_int uid), ar_auth_time := Some t, ar_completed := 1\<rparr>))) (\<lambda>n.
     if n = 0 then throw (Msg (''auth request '' @ i @ '' not found'')) else ret ()))"

definition delete_auth_request :: "string \<Rightarrow> ('r world_scheme, unit) run" where
  "delete_auth_request i = bindR (exec (del_authreqs (\<lambda>r. ar_id r = i))) (\<lambda>_. ret ())"

definition create_auth_request :: "authz_params \<Rightarrow> string \<Rightarrow> ('r world_scheme, auth_request) run" where
  "create_auth_request src uid =
     (if az_prompt src = [''none''] then throw ErrLoginRequired else insert_auth_request src uid)"

definition save_auth_code :: "string \<Rightarrow> string \<Rightarrow> ('r world_scheme, unit) run" where
  "save_auth_code i code = bindR now (\<lambda>t.
     exec (ins_code \<lparr>co_code = code, co_request = i, co_expires = t + auth_code_ttl\<rparr>))"

definition auth_request_by_code :: "string \<Rightarrow> ('r world_scheme, auth_request) run" where
  "auth_request_by_code code =
     bindR sql_now (\<lambda>t.
     bindR (query (\<lambda>d. case code_by code d of None \<Rightarrow> None
        | Some c \<Rightarrow> if t \<le> co_expires c then Some (co_request c) else None)) (\<lambda>row.
     case row of None \<Rightarrow> throw (Msg ''code invalid or expired'') | Some i \<Rightarrow> load_auth_request i))"

subsection \<open>Tokens\<close>

record refresh_request =
  rr_id :: string
  rr_client :: string
  rr_user :: string
  rr_scopes :: "string list"
  rr_audience :: "string list"
  rr_auth_time :: int
  rr_amr :: "string list"

record access_token =
  tk_id :: string
  tk_client :: string
  tk_user :: string
  tk_refresh :: string
  tk_audience :: "string list"
  tk_scopes :: "string list"
  tk_expires :: int

text \<open>\<open>op.TokenRequest\<close>: one of this package's two implementations, or another of the library's.\<close>

datatype token_request =
    OfAuth auth_request
  | OfRefresh refresh_request
  | OfOther string "string list" "string list"

fun req_subject :: "token_request \<Rightarrow> string" where
  "req_subject (OfAuth a) = an_user a"
| "req_subject (OfRefresh r) = rr_user r"
| "req_subject (OfOther s aud sc) = s"

fun req_audience :: "token_request \<Rightarrow> string list" where
  "req_audience (OfAuth a) = [an_client a]"
| "req_audience (OfRefresh r) = rr_audience r"
| "req_audience (OfOther s aud sc) = aud"

fun req_scopes :: "token_request \<Rightarrow> string list" where
  "req_scopes (OfAuth a) = an_scopes a"
| "req_scopes (OfRefresh r) = rr_scopes r"
| "req_scopes (OfOther s aud sc) = sc"

fun client_id_from_request :: "token_request \<Rightarrow> string" where
  "client_id_from_request (OfAuth a) = an_client a"
| "client_id_from_request (OfRefresh r) = rr_client r"
| "client_id_from_request (OfOther s aud sc) = []"

fun info_from_request :: "token_request \<Rightarrow> string \<times> int option \<times> string list" where
  "info_from_request (OfAuth a) = (an_client a, an_auth_time a, request_amr a)"
| "info_from_request (OfRefresh r) = (rr_client r, Some (rr_auth_time r), rr_amr r)"
| "info_from_request (OfOther s aud sc) = ([], None, [])"

definition insert_access_token ::
  "string \<Rightarrow> string \<Rightarrow> string \<Rightarrow> string list \<Rightarrow> string list \<Rightarrow> ('r world_scheme, access_token) run" where
  "insert_access_token client refresh subject audience scopes =
     (case parse_int subject of
        None \<Rightarrow> throw (Msg (''invalid subject '' @ subject))
      | Some uid \<Rightarrow>
          bindR draw (\<lambda>i. bindR now (\<lambda>t.
          bindR (exec (ins_access \<lparr>at_id = i, at_client = client, at_user = uid, at_refresh = nullable refresh,
              at_audience = Json audience, at_scopes = Json scopes, at_expires = t + access_token_ttl\<rparr>)) (\<lambda>_.
          ret \<lparr>tk_id = i, tk_client = client, tk_user = subject, tk_refresh = refresh, tk_audience = audience,
            tk_scopes = scopes, tk_expires = t + access_token_ttl\<rparr>))))"

definition decode_access_token :: "access_row \<Rightarrow> error + access_token" where
  "decode_access_token r = (case (unmarshal (at_audience r), unmarshal (at_scopes r)) of
       (Some aud, Some sc) \<Rightarrow> Inr \<lparr>tk_id = at_id r, tk_client = at_client r, tk_user = format_int (at_user r),
          tk_refresh = (case at_refresh r of None \<Rightarrow> [] | Some x \<Rightarrow> x), tk_audience = aud, tk_scopes = sc,
          tk_expires = at_expires r\<rparr>
     | _ \<Rightarrow> Inl (Msg ''invalid JSON''))"

definition load_access_token :: "string \<Rightarrow> ('r world_scheme, access_token) run" where
  "load_access_token i = bindR (query (access_by i)) (\<lambda>r. case r of
       None \<Rightarrow> throw (Msg ''token is invalid or has expired'')
     | Some row \<Rightarrow> lift_result (decode_access_token row))"

definition insert_refresh_token ::
  "string \<Rightarrow> string \<Rightarrow> string \<Rightarrow> string list \<Rightarrow> string list \<Rightarrow> int option \<Rightarrow> ('r world_scheme, unit) run" where
  "insert_refresh_token i subject client scopes audience auth_time =
     (case parse_int subject of
        None \<Rightarrow> throw (Msg (''invalid subject '' @ subject))
      | Some uid \<Rightarrow> bindR now (\<lambda>t.
          exec (ins_refresh \<lparr>rt_id = i, rt_user = uid, rt_client = client, rt_scopes = Json scopes,
            rt_audience = Json audience, rt_auth_time = (case auth_time of None \<Rightarrow> t | Some a \<Rightarrow> a),
            rt_expires = t + refresh_token_ttl\<rparr>)))"

definition load_refresh_token :: "string \<Rightarrow> ('r world_scheme, refresh_request) run" where
  "load_refresh_token i = bindR (query (refresh_by i)) (\<lambda>r. case r of
       None \<Rightarrow> throw ErrInvalidRefreshToken
     | Some row \<Rightarrow> bindR now (\<lambda>t.
         if rt_expires row < t then throw ErrInvalidRefreshToken
         else (case (unmarshal (rt_scopes row), unmarshal (rt_audience row)) of
             (Some sc, Some aud) \<Rightarrow> ret \<lparr>rr_id = i, rr_client = rt_client row, rr_user = format_int (rt_user row),
                rr_scopes = sc, rr_audience = aud, rr_auth_time = rt_auth_time row, rr_amr = [''pwd'']\<rparr>
           | _ \<Rightarrow> throw (Msg ''invalid JSON''))))"

definition rotate_refresh_token :: "string \<Rightarrow> string \<Rightarrow> string \<Rightarrow> string list \<Rightarrow> ('r world_scheme, unit) run" where
  "rotate_refresh_token current new access scopes = in_tx (
     bindR (query (refresh_by current)) (\<lambda>r. case r of
       None \<Rightarrow> throw ErrInvalidRefreshToken
     | Some row \<Rightarrow> bindR now (\<lambda>t.
         if rt_expires row < t then throw (Msg ''refresh token expired'')
         else
           bindR (exec (del_refresh (\<lambda>x. rt_id x = current))) (\<lambda>_.
           bindR (exec (ins_refresh (row\<lparr>rt_id := new, rt_scopes := Json scopes, rt_expires := t + refresh_token_ttl\<rparr>))) (\<lambda>_.
           bindR (exec (del_access (\<lambda>x. at_refresh x = Some current \<and> at_id x \<noteq> access))) (\<lambda>_. ret ()))))))"

definition create_access_token :: "token_request \<Rightarrow> ('r world_scheme, string \<times> int) run" where
  "create_access_token req =
     bindR (insert_access_token (client_id_from_request req) [] (req_subject req) (req_audience req) (req_scopes req))
       (\<lambda>tok. ret (tk_id tok, tk_expires tok))"

definition create_access_and_refresh_tokens ::
  "token_request \<Rightarrow> string \<Rightarrow> ('r world_scheme, string \<times> string \<times> int) run" where
  "create_access_and_refresh_tokens req current =
     (case info_from_request req of (client, auth_time, amr) \<Rightarrow>
      bindR draw (\<lambda>new.
      bindR (insert_access_token client new (req_subject req) (req_audience req) (req_scopes req)) (\<lambda>tok.
      bindR (if current = []
             then insert_refresh_token new (req_subject req) client (req_scopes req) (req_audience req) auth_time
             else rotate_refresh_token current new (tk_id tok) (req_scopes req)) (\<lambda>_.
      ret (tk_id tok, new, tk_expires tok)))))"

definition terminate_session :: "string \<Rightarrow> string \<Rightarrow> ('r world_scheme, unit) run" where
  "terminate_session subject client =
     (case parse_int subject of
        None \<Rightarrow> throw (Msg (''parsing '' @ subject @ '': invalid syntax''))
      | Some uid \<Rightarrow>
          bindR (exec (del_access (\<lambda>r. at_user r = uid \<and> at_client r = client))) (\<lambda>_.
          bindR (exec (del_refresh (\<lambda>r. rt_user r = uid \<and> rt_client r = client))) (\<lambda>_. ret ())))"

text \<open>The driver's error becomes a server error of the protocol.\<close>

definition revoke_token :: "string \<Rightarrow> string \<Rightarrow> ('r world_scheme, unit) run" where
  "revoke_token tok client =
     bindR (map_error (Wrap ''server_error'') (query (access_by tok))) (\<lambda>a. case a of
       Some row \<Rightarrow>
         if at_client row \<noteq> client then throw ErrInvalidClient
         else bindR (attempt (exec (del_access (\<lambda>r. at_id r = tok)))) (\<lambda>_. ret ())
     | None \<Rightarrow>
         bindR (map_error (Wrap ''server_error'') (query (refresh_by tok))) (\<lambda>b. case b of
           None \<Rightarrow> ret ()
         | Some row \<Rightarrow>
             if rt_client row \<noteq> client then throw ErrInvalidClient
             else
               bindR (map_error (Wrap ''server_error'') (exec (del_refresh (\<lambda>r. rt_id r = tok)))) (\<lambda>_.
               bindR (map_error (Wrap ''server_error'') (exec (del_access (\<lambda>r. at_refresh r = Some tok)))) (\<lambda>_.
               ret ()))))"

definition get_refresh_token_info :: "string \<Rightarrow> string \<Rightarrow> ('r world_scheme, string \<times> string) run" where
  "get_refresh_token_info client token = bindR (query (refresh_by token)) (\<lambda>r. case r of
       None \<Rightarrow> throw ErrInvalidRefreshToken
     | Some row \<Rightarrow> if rt_client row \<noteq> client then throw ErrInvalidRefreshToken
                   else ret (format_int (rt_user row), token))"

subsection \<open>Claims\<close>

record userinfo =
  ui_subject :: string
  ui_email :: string
  ui_verified :: bool
  ui_username :: string
  ui_name :: string
  ui_groups :: "string list"

definition empty_userinfo :: userinfo where
  "empty_userinfo = \<lparr>ui_subject = [], ui_email = [], ui_verified = False, ui_username = [], ui_name = [], ui_groups = []\<rparr>"

definition add_scope :: "user \<Rightarrow> string \<Rightarrow> string \<Rightarrow> userinfo \<Rightarrow> userinfo" where
  "add_scope u subject sc i =
     (if sc = ''openid'' then i\<lparr>ui_subject := subject\<rparr>
      else if sc = ''email'' then i\<lparr>ui_email := us_email u, ui_verified := (us_email u \<noteq> [] \<or> ui_verified i)\<rparr>
      else if sc = ''profile'' then i\<lparr>ui_username := us_name u, ui_name := us_name u\<rparr>
      else i)"

definition fill_userinfo :: "userinfo \<Rightarrow> string \<Rightarrow> string list \<Rightarrow> ('r world_scheme, userinfo) run" where
  "fill_userinfo info subject scopes =
     (case parse_int subject of
        None \<Rightarrow> throw (Msg (''invalid subject '' @ subject))
      | Some uid \<Rightarrow> bindR (users_get uid) (\<lambda>u.
          let i1 = fold (add_scope u subject) scopes info;
              i2 = (if ui_subject i1 = [] then i1\<lparr>ui_subject := subject\<rparr> else i1)
          in ret (i2\<lparr>ui_groups := ''user'' # (if us_admin u then [''admin''] else [])\<rparr>)))"

definition set_userinfo_from_token :: "string \<Rightarrow> ('r world_scheme, userinfo) run" where
  "set_userinfo_from_token tok =
     bindR (load_access_token tok) (\<lambda>t. bindR now (\<lambda>n.
     if tk_expires t < n then throw (Msg ''token is expired'')
     else fill_userinfo empty_userinfo (tk_user t) (tk_scopes t)))"

record introspection =
  in_expires :: int
  in_user :: userinfo
  in_scope :: "string list"
  in_client :: string

definition set_introspection_from_token :: "string \<Rightarrow> string \<Rightarrow> ('r world_scheme, introspection) run" where
  "set_introspection_from_token tok client =
     bindR (load_access_token tok) (\<lambda>t. bindR now (\<lambda>n.
     if tk_expires t < n then throw (Msg ''token is expired'')
     else if client \<in> set (tk_audience t) then
       bindR (fill_userinfo empty_userinfo (tk_user t) (tk_scopes t)) (\<lambda>u.
       ret \<lparr>in_expires = tk_expires t, in_user = u, in_scope = tk_scopes t, in_client = tk_client t\<rparr>)
     else throw (Msg ''token is not valid for this client'')))"

definition validate_jwt_profile_scopes :: "string list \<Rightarrow> string list" where
  "validate_jwt_profile_scopes scopes = filter (\<lambda>s. s = ''openid'') scopes"

definition oidc_purge :: "int \<Rightarrow> ('r world_scheme, unit) run" where
  "oidc_purge cutoff =
     bindR (map_error (Wrap ''purge oidc_auth_requests'') (exec (del_authreqs (\<lambda>r. ar_expires r < cutoff)))) (\<lambda>_.
     bindR (map_error (Wrap ''purge oidc_auth_codes'') (exec (del_codes (\<lambda>r. co_expires r < cutoff)))) (\<lambda>_.
     bindR (map_error (Wrap ''purge oidc_access_tokens'') (exec (del_access (\<lambda>r. at_expires r < cutoff)))) (\<lambda>_.
     bindR (map_error (Wrap ''purge oidc_refresh_tokens'') (exec (del_refresh (\<lambda>r. rt_expires r < cutoff)))) (\<lambda>_.
     ret ()))))"

end
