(* ===== verification/Oidc_Flows.thy ===== *)
theory Oidc_Flows
  imports Oidc_Storage
begin

text \<open>
  What the storage of the OIDC provider promises to the protocol: a login that was completed comes
  out of its code with the parameters the app sent, a refresh token works once and its successor
  belongs to the same user and client, a client can revoke its own tokens and nobody else's, and
  neither a purge nor another client's business changes what a live token says.
\<close>

subsection \<open>Invariant\<close>

lemma preserves_sql_now [preserves_intro]: "preserves world_ok sql_now"
  unfolding sql_now_def by (intro preserves_intro)

lemma preserves_auth_requests [preserves_intro]:
  "preserves world_ok (insert_auth_request src u)" "preserves world_ok (load_auth_request i)"
  "preserves world_ok (mark_auth_request_complete i uid)" "preserves world_ok (delete_auth_request i)"
  "preserves world_ok (create_auth_request src u)" "preserves world_ok (save_auth_code i c)"
  unfolding insert_auth_request_def load_auth_request_def mark_auth_request_complete_def delete_auth_request_def
    create_auth_request_def save_auth_code_def Let_def
  by (intro preserves_intro upd_authreqs_ok; simp)+

lemma preserves_auth_request_by_code [preserves_intro]: "preserves world_ok (auth_request_by_code c)"
  unfolding auth_request_by_code_def by (intro preserves_intro)

lemma preserves_tokens [preserves_intro]:
  "preserves world_ok (insert_access_token client rid s aud sc)" "preserves world_ok (load_access_token i)"
  "preserves world_ok (insert_refresh_token i s client sc aud at)" "preserves world_ok (load_refresh_token i)"
  unfolding insert_access_token_def load_access_token_def insert_refresh_token_def load_refresh_token_def
  by (intro preserves_intro; auto split: option.splits intro!: preserves_intro)+

lemma preserves_rotate [preserves_intro]: "preserves world_ok (rotate_refresh_token c1 c2 a sc)"
  unfolding rotate_refresh_token_def by (intro preserves_intro)

lemma preserves_create_tokens [preserves_intro]:
  "preserves world_ok (create_access_token req)" "preserves world_ok (create_access_and_refresh_tokens req c1)"
  unfolding create_access_token_def create_access_and_refresh_tokens_def
  by (auto split: prod.splits intro!: preserves_intro)

lemma preserves_revocations [preserves_intro]:
  "preserves world_ok (terminate_session s c)" "preserves world_ok (revoke_token t c)" "preserves world_ok (oidc_purge cutoff)"
  unfolding terminate_session_def revoke_token_def oidc_purge_def
  by (auto split: option.splits intro!: preserves_intro)

lemma preserves_claims [preserves_intro]:
  "preserves world_ok (fill_userinfo i s sc)" "preserves world_ok (set_userinfo_from_token t)"
  "preserves world_ok (set_introspection_from_token t c)" "preserves world_ok (get_refresh_token_info c t)"
  unfolding fill_userinfo_def set_userinfo_from_token_def set_introspection_from_token_def get_refresh_token_info_def Let_def
  by (intro preserves_intro)+

subsection \<open>From the authorization request to the code\<close>

lemma sql_now_run [run_simps]: "sql_now w = (Inr (w_clock w - w_clock w mod second), w)"
  by (simp add: sql_now_def run_simps run_eval)

definition fresh_request_row :: "authz_params \<Rightarrow> string \<Rightarrow> string \<Rightarrow> int \<Rightarrow> authreq_row" where
  "fresh_request_row src i uid t = \<lparr>ar_id = i, ar_client = az_client src, ar_user = nullable uid,
     ar_redirect = az_redirect src, ar_state = az_state src, ar_nonce = az_nonce src,
     ar_scopes = Json (az_scopes src), ar_resp_type = az_resp_type src, ar_resp_mode = az_resp_mode src,
     ar_challenge = az_challenge src, ar_method = (if az_challenge src \<noteq> [] then az_method src else []),
     ar_auth_time = None, ar_completed = 0, ar_expires = t + auth_request_ttl\<rparr>"

lemma create_auth_request_Inr:
  assumes "create_auth_request src uid w = (Inr a, w')"
  shows "ins_authreq (fresh_request_row src (an_id a) uid (w_clock w)) (w_db w) = Inr ((), w_db w')"
  using assms
  by (auto simp: create_auth_request_def insert_auth_request_def bindR_Inr_iff ret_run throw_run now_run Let_def
      fresh_request_row_def dest!: draw_Inr exec_InrD split: if_splits)

lemma mark_complete_Inr:
  assumes "mark_auth_request_complete i uid w = (Inr u, w')"
  shows "authreq_by k (w_db w') = map_option (\<lambda>r. if ar_id r = i then r\<lparr>ar_user := Some (format_int uid),
      ar_auth_time := Some (w_clock w - w_clock w mod second), ar_completed := 1\<rparr> else r) (authreq_by k (w_db w)) \<and>
    db_codes (w_db w') = db_codes (w_db w)"
  using assms
  by (auto simp: mark_auth_request_complete_def bindR_Inr_iff run_simps upd_authreqs_def authreq_by_def row_by_map
      dest!: exec_InrD split: if_splits)

lemma save_auth_code_Inr:
  assumes "save_auth_code i code w = (Inr u, w')"
  shows "code_by code (w_db w') = Some \<lparr>co_code = code, co_request = i, co_expires = w_clock w + auth_code_ttl\<rparr> \<and>
    db_authreqs (w_db w') = db_authreqs (w_db w)"
  using assms
  by (auto simp: save_auth_code_def bindR_Inr_iff now_run ins_code_def by_defs row_by_append row_by_not_in
      dest!: exec_InrD split: if_splits)

text \<open>C11: A login survives the round trip through the database: the request an app sent, completed by the user
  who signed in and given a code, comes back from the code with the client, redirect URI, state,
  nonce, scopes and PKCE challenge that the app sent, done, with the user as its subject, as long as
  neither the code nor the request has expired. Between the four operations the clock may move.\<close>

theorem code_returns_request:
  assumes "create_auth_request src [] w0 = (Inr a, w1)"
    and "mark_auth_request_complete (an_id a) uid v1 = (Inr (), w2)" and "w_db v1 = w_db w1"
    and "save_auth_code (an_id a) code v2 = (Inr (), w3)" and "w_db v2 = w_db w2"
    and "w_db v3 = w_db w3" and "w_faults v3 = []"
    and "w_clock v3 < w_clock v2 + auth_code_ttl" and "w_clock v3 < w_clock w0 + auth_request_ttl"
    and "0 < uid" and "uid < 2 ^ 63"
  shows "auth_request_by_code code v3 = (Inr (a\<lparr>an_user := format_int uid,
    an_auth_time := Some (w_clock v1 - w_clock v1 mod second), an_done := True\<rparr>), v3) \<and>
    an_client a = az_client src \<and> an_redirect a = az_redirect src \<and> an_state a = az_state src \<and>
    an_nonce a = az_nonce src \<and> an_scopes a = az_scopes src \<and>
    an_challenge a = make_challenge (az_challenge src) (if az_challenge src \<noteq> [] then az_method src else [])"
proof -
  let ?row = "fresh_request_row src (an_id a) [] (w_clock w0)"
  let ?t = "w_clock v1 - w_clock v1 mod second"
  have a: "a = \<lparr>an_id = an_id a, an_client = az_client src, an_user = [], an_redirect = az_redirect src,
      an_state = az_state src, an_nonce = az_nonce src, an_scopes = az_scopes src,
      an_resp_type = az_resp_type src, an_resp_mode = az_resp_mode src,
      an_challenge = make_challenge (az_challenge src) (if az_challenge src \<noteq> [] then az_method src else []),
      an_auth_time = None, an_done = False\<rparr>"
    using assms(1) by (auto simp: create_auth_request_def insert_auth_request_def bindR_Inr_iff ret_run throw_run
        Let_def split: if_splits)
  have "authreq_by (an_id a) (w_db w1) = Some ?row"
    using authreqs.inserted_found [OF create_auth_request_Inr [OF assms(1)]] by (simp add: fresh_request_row_def)
  then have "authreq_by (an_id a) (w_db w2) = Some (?row\<lparr>ar_user := Some (format_int uid), ar_auth_time := Some ?t,
      ar_completed := 1\<rparr>)"
    using mark_complete_Inr [OF assms(2)] assms(3) by (simp add: fresh_request_row_def)
  then have row: "authreq_by (an_id a) (w_db v3) = Some (?row\<lparr>ar_user := Some (format_int uid), ar_auth_time := Some ?t,
      ar_completed := 1\<rparr>)"
    using save_auth_code_Inr [OF assms(4)] assms(5,6) by (simp add: authreq_by_def)
  have code: "code_by code (w_db v3) = Some \<lparr>co_code = code, co_request = an_id a, co_expires = w_clock v2 + auth_code_ttl\<rparr>"
    using save_auth_code_Inr [OF assms(4)] assms(6) by simp
  have "w_clock v3 mod second \<ge> 0" by (simp add: second_def)
  then have t: "w_clock v3 - w_clock v3 mod second < w_clock v2 + auth_code_ttl"
      "w_clock v3 - w_clock v3 mod second < w_clock w0 + auth_request_ttl"
    using assms(8,9) by linarith+
  have u: "parse_int (format_int uid) = Some uid" using assms(10,11) by (intro parse_format_int) auto
  have "auth_request_by_code code v3 = (decode_auth_request (?row\<lparr>ar_user := Some (format_int uid), ar_auth_time := Some ?t,
      ar_completed := 1\<rparr>), v3)"
    using row code t assms(7)
    by (simp add: auth_request_by_code_def load_auth_request_def run_simps run_eval fresh_request_row_def)
  also have "decode_auth_request (?row\<lparr>ar_user := Some (format_int uid), ar_auth_time := Some ?t,
      ar_completed := 1\<rparr>) = Inr (a\<lparr>an_user := format_int uid, an_auth_time := Some ?t, an_done := True\<rparr>)"
    using u assms(10) by (subst a) (simp add: decode_auth_request_def fresh_request_row_def)
  finally show ?thesis by (subst (2 3 4 5 6 7) a) simp
qed

definition sample_params :: authz_params where
  "sample_params = \<lparr>az_client = ''cc'', az_scopes = [''openid'', ''email''], az_redirect = ''https://blog.nas.example/cb'',
     az_state = ''st'', az_nonce = ''no'', az_resp_type = ''code'', az_resp_mode = [], az_challenge = ''xyz'',
     az_method = ''S256'', az_prompt = []\<rparr>"

definition sample_authreq_made :: "(error + auth_request) \<times> world" where
  "sample_authreq_made = create_auth_request sample_params [] (sample_world\<lparr>w_clock := 5 * second\<rparr>)"

definition sample_authreq :: auth_request where
  "sample_authreq = \<lparr>an_id = ''aa'', an_client = ''cc'', an_user = [], an_redirect = ''https://blog.nas.example/cb'',
     an_state = ''st'', an_nonce = ''no'', an_scopes = [''openid'', ''email''], an_resp_type = ''code'', an_resp_mode = [],
     an_challenge = Some \<lparr>cc_challenge = ''xyz'', cc_s256 = True\<rparr>, an_auth_time = None, an_done = False\<rparr>"

definition sample_completed :: "(error + unit) \<times> world" where
  "sample_completed = mark_auth_request_complete ''aa'' 7 ((snd sample_authreq_made)\<lparr>w_clock := 20 * second\<rparr>)"

definition sample_coded :: "(error + unit) \<times> world" where
  "sample_coded = save_auth_code ''aa'' ''code1'' ((snd sample_completed)\<lparr>w_clock := 21 * second\<rparr>)"

lemma sample_flow:
  "create_auth_request sample_params [] (sample_world\<lparr>w_clock := 5 * second\<rparr>) = (Inr sample_authreq, snd sample_authreq_made)"
  "mark_auth_request_complete (an_id sample_authreq) 7 ((snd sample_authreq_made)\<lparr>w_clock := 20 * second\<rparr>) = (Inr (), snd sample_completed)"
  "save_auth_code (an_id sample_authreq) ''code1'' ((snd sample_completed)\<lparr>w_clock := 21 * second\<rparr>) = (Inr (), snd sample_coded)"
  "w_faults (snd sample_coded) = []"
  by code_simp+

lemma code_returns_request_witness:
  "fst (auth_request_by_code ''code1'' ((snd sample_coded)\<lparr>w_clock := 22 * second\<rparr>)) =
     Inr (sample_authreq\<lparr>an_user := ''7'', an_auth_time := Some (20 * second), an_done := True\<rparr>)"
proof -
  have "format_int 7 = ''7''" by code_simp
  moreover have "(20 * second) mod second = 0" by (simp add: second_def)
  ultimately show ?thesis
    using code_returns_request [OF sample_flow(1,2) _ sample_flow(3), of "(snd sample_coded)\<lparr>w_clock := 22 * second\<rparr>"]
      sample_flow(4)
    by (simp add: auth_code_ttl_def auth_request_ttl_def second_def)
qed

subsection \<open>Refresh tokens\<close>

lemma load_refresh_Inr_iff:
  "w_faults w = [] \<Longrightarrow> load_refresh_token i w = (case refresh_by i (w_db w) of
       None \<Rightarrow> (Inl ErrInvalidRefreshToken, w)
     | Some row \<Rightarrow> if rt_expires row < w_clock w then (Inl ErrInvalidRefreshToken, w)
         else (case (unmarshal (rt_scopes row), unmarshal (rt_audience row)) of
             (Some sc, Some aud) \<Rightarrow> (Inr \<lparr>rr_id = i, rr_client = rt_client row, rr_user = format_int (rt_user row),
                rr_scopes = sc, rr_audience = aud, rr_auth_time = rt_auth_time row, rr_amr = [''pwd'']\<rparr>, w)
           | _ \<Rightarrow> (Inl (Msg ''invalid JSON''), w)))"
  by (simp add: load_refresh_token_def run_simps run_eval split: option.split)

lemma insert_access_token_Inr:
  assumes "insert_access_token client rid sub aud sc w = (Inr tok, w')"
  shows "\<exists>uid. parse_int sub = Some uid \<and> tk_expires tok = w_clock w + access_token_ttl \<and> w_clock w' = w_clock w \<and>
    ins_access \<lparr>at_id = tk_id tok, at_client = client, at_user = uid, at_refresh = nullable rid,
      at_audience = Json aud, at_scopes = Json sc, at_expires = w_clock w + access_token_ttl\<rparr> (w_db w) = Inr ((), w_db w')"
  using assms
  by (auto simp: insert_access_token_def bindR_Inr_iff ret_run throw_run now_run split: option.splits
      dest!: draw_Inr exec_InrD)

lemma rotate_Inr:
  assumes "rotate_refresh_token cur new acc sc w = (Inr u, w')"
  shows "\<exists>row d. refresh_by cur (w_db w) = Some row \<and> w_clock w \<le> rt_expires row \<and>
    ins_refresh (row\<lparr>rt_id := new, rt_scopes := Json sc, rt_expires := w_clock w + refresh_token_ttl\<rparr>)
      ((w_db w)\<lparr>db_refresh := filter (\<lambda>x. rt_id x \<noteq> cur) (db_refresh (w_db w))\<rparr>) = Inr ((), d) \<and>
    w_db w' = d\<lparr>db_access := filter (\<lambda>x. \<not> (at_refresh x = Some cur \<and> at_id x \<noteq> acc)) (db_access d)\<rparr>"
  using assms
  by (auto simp: rotate_refresh_token_def bindR_Inr_iff throw_run now_run ret_run del_refresh_def del_access_def
      split: option.splits if_splits dest!: in_tx_InrD query_InrD exec_InrD)

text \<open>C10: A refresh token works exactly once. Redeeming it replaces it by a new one: the old token, and every
  access token issued with it, is gone, so using it again fails as an invalid refresh token; the new one stands
  for the same user, client, audience and authentication time, with the scopes asked for; the refresh tokens of
  everybody else are as they were. A rotation that fails leaves every refresh token.\<close>

theorem rotation_single_use:
  assumes "rotate_refresh_token cur new acc sc w = (r, w')" and "new \<noteq> cur"
  shows "case r of
      Inl e \<Rightarrow> w_db w' = w_db w
    | Inr u \<Rightarrow> (\<exists>row. refresh_by cur (w_db w) = Some row \<and> refresh_by cur (w_db w') = None \<and>
        (\<forall>(v :: 'v world_scheme) acc2 new2 sc2. w_db v = w_db w' \<longrightarrow> w_faults v = [] \<longrightarrow>
           rotate_refresh_token cur new2 acc2 sc2 v = (Inl ErrInvalidRefreshToken, v)) \<and>
        refresh_by new (w_db w') = Some (row\<lparr>rt_id := new, rt_scopes := Json sc, rt_expires := w_clock w + refresh_token_ttl\<rparr>) \<and>
        (\<forall>k. k \<noteq> cur \<longrightarrow> k \<noteq> new \<longrightarrow> refresh_by k (w_db w') = refresh_by k (w_db w)) \<and>
        (\<forall>x \<in> set (db_access (w_db w')). at_refresh x = Some cur \<longrightarrow> at_id x = acc))"
proof (cases r)
  case (Inl e)
  then show ?thesis using assms(1) by (auto simp: rotate_refresh_token_def dest: in_tx_atomic)
next
  case (Inr u)
  then obtain row d where row: "refresh_by cur (w_db w) = Some row"
      "ins_refresh (row\<lparr>rt_id := new, rt_scopes := Json sc, rt_expires := w_clock w + refresh_token_ttl\<rparr>)
        ((w_db w)\<lparr>db_refresh := filter (\<lambda>x. rt_id x \<noteq> cur) (db_refresh (w_db w))\<rparr>) = Inr ((), d)"
      "w_db w' = d\<lparr>db_access := filter (\<lambda>x. \<not> (at_refresh x = Some cur \<and> at_id x \<noteq> acc)) (db_access d)\<rparr>"
    using rotate_Inr assms(1) by blast
  have found: "refresh_by k (w_db w') = (if k = new
      then Some (row\<lparr>rt_id := new, rt_scopes := Json sc, rt_expires := w_clock w + refresh_token_ttl\<rparr>)
      else if k = cur then None else refresh_by k (w_db w))" for k
  proof -
    have "refresh_by k (w_db w') = refresh_by k d" by (simp add: row(3) refresh_by_def)
    then show ?thesis
      using refreshes.find_insert [OF row(2), of k] by (auto simp: refresh_by_def row_by_delete_key)
  qed
  have again: "rotate_refresh_token cur new2 acc2 sc2 v = (Inl ErrInvalidRefreshToken, v)"
    if "w_db v = w_db w'" "w_faults v = []" for v :: "'v world_scheme" and acc2 new2 sc2
    using found [of cur] that assms(2) by (simp add: rotate_refresh_token_def run_simps run_eval)
  show ?thesis using Inr row(1,3) found again assms(2) by simp
qed

definition sample_token_world :: world where
  "sample_token_world = sample_world\<lparr>w_db := empty_db\<lparr>
     db_users := [\<lparr>usr_id = 7, usr_name = ''ana'', usr_email = None, usr_hash = ''h'', usr_admin = 1, usr_created = 0, usr_updated = 0\<rparr>],
     db_user_seq := 7,
     db_refresh := [\<lparr>rt_id = ''r1'', rt_user = 7, rt_client = ''cc'', rt_scopes = Json [''openid''], rt_audience = Json [''cc''],
        rt_auth_time = 3, rt_expires = 10 * second\<rparr>],
     db_access := [\<lparr>at_id = ''a1'', at_client = ''cc'', at_user = 7, at_refresh = Some ''r1'', at_audience = Json [''cc''],
        at_scopes = Json [''openid'', ''profile''], at_expires = 10 * second\<rparr>]\<rparr>\<rparr>"

lemma sample_token_world_ok: "world_ok sample_token_world" "w_faults sample_token_world = []"
  by (simp_all add: sample_token_world_def sample_world_def world_ok_def db_ok_def empty_db_def user_ids_def)

lemma sample_rotation:
  "rotate_refresh_token ''r1'' ''r2'' ''a2'' [''openid''] sample_token_world =
     (Inr (), snd (rotate_refresh_token ''r1'' ''r2'' ''a2'' [''openid''] sample_token_world))"
  by code_simp

lemma rotation_single_use_witness:
  "refresh_by ''r1'' (w_db (snd (rotate_refresh_token ''r1'' ''r2'' ''a2'' [''openid''] sample_token_world))) = None"
  using rotation_single_use [OF sample_rotation] by auto

subsection \<open>Revocation by a client\<close>

text \<open>A client revokes its own tokens and nobody else's (RFC 7009). When the database works: the answer is an
  error exactly when the token belongs to another client, and then nothing changes; otherwise the token can no
  longer be used, and with a refresh token no access token issued with it either; every refresh token but this
  one, and every access token of another client that was not issued with it, stays.\<close>

theorem revoke_token_by_owner_only:
  assumes "revoke_token tok client w = (r, w')" and "w_faults w = []"
  shows "(case r of
      Inl e \<Rightarrow> e = ErrInvalidClient \<and> w' = w \<and>
        (case access_by tok (w_db w) of Some a \<Rightarrow> at_client a \<noteq> client
         | None \<Rightarrow> (case refresh_by tok (w_db w) of Some b \<Rightarrow> rt_client b \<noteq> client | None \<Rightarrow> False))
    | Inr u \<Rightarrow> access_by tok (w_db w') = None \<and>
        (access_by tok (w_db w) = None \<longrightarrow> refresh_by tok (w_db w') = None \<and>
           (refresh_by tok (w_db w) \<noteq> None \<longrightarrow> (\<forall>a \<in> set (db_access (w_db w')). at_refresh a \<noteq> Some tok)))) \<and>
    (\<forall>k. k \<noteq> tok \<longrightarrow> refresh_by k (w_db w') = refresh_by k (w_db w)) \<and>
    (\<forall>a \<in> set (db_access (w_db w)). at_client a \<noteq> client \<longrightarrow> at_refresh a \<noteq> Some tok \<longrightarrow>
       distinct (map at_id (db_access (w_db w))) \<longrightarrow> a \<in> set (db_access (w_db w')))"
proof -
  have gone: "row_by key tok (filter (\<lambda>x. key x \<noteq> tok) xs) = None" for key :: "'r \<Rightarrow> string" and xs
    by (simp add: row_by_delete_key)
  have keep: "row_by key k (filter (\<lambda>x. key x \<noteq> tok) xs) = row_by key k xs" if "k \<noteq> tok" for key :: "'r \<Rightarrow> string" and xs k
    using that by (simp add: row_by_delete_key)
  have no: "row_by at_id tok (filter P xs) = None" if "row_by at_id tok xs = None" for P xs
    using that by (auto simp: row_by_None)
  have own: "x = a" if "row_by at_id (at_id a) xs = Some x" "a \<in> set xs" "distinct (map at_id xs)" for a x xs
    using row_by_member [OF that(3,2)] that(1) by simp
  show ?thesis
    using assms
    by (auto simp: revoke_token_def run_simps run_eval del_access_def del_refresh_def by_defs gone keep no
        split: option.splits if_splits dest: own)
qed

lemma revoke_token_by_owner_only_witness:
  "access_by ''a1'' (w_db (snd (revoke_token ''r1'' ''cc'' sample_token_world))) = None"
proof -
  have r: "revoke_token ''r1'' ''cc'' sample_token_world = (Inr (), snd (revoke_token ''r1'' ''cc'' sample_token_world))"
    by code_simp
  have t: "access_by ''r1'' (w_db sample_token_world) = None \<and> refresh_by ''r1'' (w_db sample_token_world) \<noteq> None"
    by code_simp
  have "\<forall>a \<in> set (db_access (w_db (snd (revoke_token ''r1'' ''cc'' sample_token_world)))). at_refresh a \<noteq> Some ''r1''"
    using revoke_token_by_owner_only [OF r sample_token_world_ok(2)] t by auto
  moreover have "access_by ''a1'' (w_db (snd (revoke_token ''r1'' ''cc'' sample_token_world))) = None \<or>
    (\<exists>a \<in> set (db_access (w_db (snd (revoke_token ''r1'' ''cc'' sample_token_world)))). at_refresh a = Some ''r1'')"
    by code_simp
  ultimately show ?thesis by blast
qed

text \<open>The failure of the statement that deletes an access token is dropped: the client is told that the
  token was revoked, and it still is there.\<close>

theorem revoke_hides_failure:
  "fst (revoke_token ''a1'' ''cc'' (sample_token_world\<lparr>w_faults := [False, True]\<rparr>)) = Inr () \<and>
   access_by ''a1'' (w_db (snd (revoke_token ''a1'' ''cc'' (sample_token_world\<lparr>w_faults := [False, True]\<rparr>)))) \<noteq> None"
  by code_simp

subsection \<open>Claims and introspection\<close>

text \<open>The specification of the claims: what each scope buys.\<close>

definition claims_of :: "user \<Rightarrow> string \<Rightarrow> string list \<Rightarrow> userinfo" where
  "claims_of u sub scs = \<lparr>ui_subject = sub,
     ui_email = (if ''email'' \<in> set scs then us_email u else []),
     ui_verified = (''email'' \<in> set scs \<and> us_email u \<noteq> []),
     ui_username = (if ''profile'' \<in> set scs then us_name u else []),
     ui_name = (if ''profile'' \<in> set scs then us_name u else []),
     ui_groups = (if us_admin u then [''user'', ''admin''] else [''user''])\<rparr>"

lemma add_scope_fields:
  "ui_subject (add_scope u sub sc i) = (if sc = ''openid'' then sub else ui_subject i)"
  "ui_email (add_scope u sub sc i) = (if sc = ''email'' then us_email u else ui_email i)"
  "ui_verified (add_scope u sub sc i) = (ui_verified i \<or> (sc = ''email'' \<and> us_email u \<noteq> []))"
  "ui_username (add_scope u sub sc i) = (if sc = ''profile'' then us_name u else ui_username i)"
  "ui_name (add_scope u sub sc i) = (if sc = ''profile'' then us_name u else ui_name i)"
  "ui_groups (add_scope u sub sc i) = ui_groups i"
  by (auto simp: add_scope_def)

lemma fold_scopes:
  "ui_subject (fold (add_scope u sub) scs i) = (if ''openid'' \<in> set scs then sub else ui_subject i)"
  "ui_email (fold (add_scope u sub) scs i) = (if ''email'' \<in> set scs then us_email u else ui_email i)"
  "ui_verified (fold (add_scope u sub) scs i) = (ui_verified i \<or> (''email'' \<in> set scs \<and> us_email u \<noteq> []))"
  "ui_username (fold (add_scope u sub) scs i) = (if ''profile'' \<in> set scs then us_name u else ui_username i)"
  "ui_name (fold (add_scope u sub) scs i) = (if ''profile'' \<in> set scs then us_name u else ui_name i)"
  by (induction scs arbitrary: i) (simp_all add: add_scope_fields, blast)

lemma fill_userinfo_Inr:
  assumes "fill_userinfo empty_userinfo sub scs w = (Inr i, w')"
  shows "\<exists>uid r u. parse_int sub = Some uid \<and> user_by uid (w_db w) = Some r \<and> scan_user (Some r) = Inr u \<and>
    i = claims_of u sub scs \<and> w_db w' = w_db w"
proof -
  obtain uid u where u: "parse_int sub = Some uid" "users_get uid w = (Inr u, w')"
      "i = (let i1 = fold (add_scope u sub) scs empty_userinfo;
              i2 = (if ui_subject i1 = [] then i1\<lparr>ui_subject := sub\<rparr> else i1)
          in i2\<lparr>ui_groups := ''user'' # (if us_admin u then [''admin''] else [])\<rparr>)"
    using assms by (auto simp: fill_userinfo_def bindR_Inr_iff throw_run ret_run Let_def split: option.splits)
  have "i = claims_of u sub scs"
    unfolding u(3) Let_def by (rule userinfo.equality) (simp_all add: fold_scopes claims_of_def empty_userinfo_def)
  moreover obtain r where "user_by uid (w_db w) = Some r" "scan_user (Some r) = Inr u" "w_db w' = w_db w"
    using u(2) by (auto simp: users_get_def bindR_Inr_iff lift_result_run dest!: query_InrD) (auto simp: scan_user_def split: option.splits)
  ultimately show ?thesis using u(1) by blast
qed

lemma load_access_Inr:
  assumes "load_access_token tok w = (Inr t, w')"
  shows "\<exists>row aud scs fs. access_by tok (w_db w) = Some row \<and> unmarshal (at_audience row) = Some aud \<and>
    unmarshal (at_scopes row) = Some scs \<and> tk_client t = at_client row \<and> tk_user t = format_int (at_user row) \<and>
    tk_audience t = aud \<and> tk_scopes t = scs \<and> tk_expires t = at_expires row \<and> w' = w\<lparr>w_faults := fs\<rparr>"
proof -
  obtain row w1 where row: "query (access_by tok) w = (Inr (Some row), w1)" "decode_access_token row = Inr t" "w' = w1"
    using assms by (auto simp: load_access_token_def bindR_Inr_iff throw_run lift_result_run split: option.splits)
  then show ?thesis
    by (auto simp: decode_access_token_def split: option.splits dest!: query_InrD)
qed

text \<open>C16: An app learns about a token only what it may: an answer to an introspection is given only to a client in
  the token's audience, for a token that has not expired and whose user still exists; the claims are those that the
  token's scopes buy, for the token's user, and the group admin is in them exactly if the user is an admin
  in the database at this moment. Asking changes nothing.\<close>

theorem introspection_discloses:
  assumes "set_introspection_from_token tok client w = (Inr i, w')"
  shows "\<exists>row aud scs r u. access_by tok (w_db w) = Some row \<and>
    unmarshal (at_audience row) = Some aud \<and> client \<in> set aud \<and> w_clock w \<le> at_expires row \<and>
    unmarshal (at_scopes row) = Some scs \<and> user_by (at_user row) (w_db w) = Some r \<and> scan_user (Some r) = Inr u \<and>
    in_user i = claims_of u (format_int (at_user row)) scs \<and> in_scope i = scs \<and> in_client i = at_client row \<and>
    in_expires i = at_expires row \<and> (''admin'' \<in> set (ui_groups (in_user i)) \<longleftrightarrow> usr_admin r \<noteq> 0) \<and>
    w_db w' = w_db w"
proof -
  obtain t w1 ui where t: "load_access_token tok w = (Inr t, w1)" "\<not> tk_expires t < w_clock w1"
      "client \<in> set (tk_audience t)" "fill_userinfo empty_userinfo (tk_user t) (tk_scopes t) w1 = (Inr ui, w')"
      "i = \<lparr>in_expires = tk_expires t, in_user = ui, in_scope = tk_scopes t, in_client = tk_client t\<rparr>"
    using assms by (auto simp: set_introspection_from_token_def bindR_Inr_iff throw_run ret_run now_run split: if_splits)
  obtain row aud scs fs where row: "access_by tok (w_db w) = Some row" "unmarshal (at_audience row) = Some aud"
      "unmarshal (at_scopes row) = Some scs" "tk_client t = at_client row" "tk_user t = format_int (at_user row)"
      "tk_audience t = aud" "tk_scopes t = scs" "tk_expires t = at_expires row" "w1 = w\<lparr>w_faults := fs\<rparr>"
    using load_access_Inr [OF t(1)] by blast
  obtain uid r u where u: "parse_int (tk_user t) = Some uid" "user_by uid (w_db w1) = Some r" "scan_user (Some r) = Inr u"
      "ui = claims_of u (tk_user t) (tk_scopes t)" "w_db w' = w_db w1"
    using fill_userinfo_Inr [OF t(4)] by blast
  have "uid = at_user row" using u(1) row(5) parse_format_int_eq by simp
  moreover have "us_admin u \<longleftrightarrow> usr_admin r \<noteq> 0" using u(3) by (auto simp: scan_user_def)
  ultimately show ?thesis
    using t(2,3,5) row u by (auto simp: claims_of_def)
qed

lemma introspection_discloses_witness:
  "\<exists>row. access_by ''a1'' (w_db sample_token_world) = Some row \<and> w_clock sample_token_world \<le> at_expires row"
proof -
  have "set_introspection_from_token ''a1'' ''cc'' sample_token_world =
      (Inr \<lparr>in_expires = 10 * second, in_user = \<lparr>ui_subject = ''7'', ui_email = [], ui_verified = False, ui_username = ''ana'',
        ui_name = ''ana'', ui_groups = [''user'', ''admin'']\<rparr>, in_scope = [''openid'', ''profile''], in_client = ''cc''\<rparr>,
       sample_token_world)"
    by code_simp
  from introspection_discloses [OF this] show ?thesis by blast
qed

subsection \<open>What a change of password does not reach\<close>

text \<open>C17: A change of password does not reach a login in progress: every code that would have been redeemed before
  still is afterwards, with the same request, although the portal sessions and tokens of the user are gone. So
  whoever was handed a code with the old password can still turn it into fresh tokens.\<close>

theorem code_survives_password_change:
  assumes "users_set_password bc uid pw w = (Inr u, w')" and "w_faults v = []" and "w_db v = w_db w"
  shows "logged_out uid (w_db w') \<and>
    fst (auth_request_by_code c (v\<lparr>w_db := w_db w'\<rparr>)) = fst (auth_request_by_code c v)"
proof -
  obtain salt h where "w_db w' = revoked uid (rehashed uid h (w_clock w) (w_db w))"
    using users_set_password_Inr [OF assms(1)] by blast
  then show ?thesis
    using assms(2,3) revoked_logged_out
    by (simp add: auth_request_by_code_def load_auth_request_def run_simps run_eval by_defs revoked_def rehashed_def logged_out_def
        split: option.split)
qed

definition sample_coded_user :: world where
  "sample_coded_user = (let w = snd sample_coded in w\<lparr>w_db := (w_db w)\<lparr>db_users :=
     [\<lparr>usr_id = 7, usr_name = ''ana'', usr_email = None, usr_hash = ''h'', usr_admin = 1, usr_created = 0, usr_updated = 0\<rparr>],
     db_user_seq := 7\<rparr>\<rparr>)"

lemma code_survives_password_change_witness:
  "fst (auth_request_by_code ''code1'' (sample_coded_user\<lparr>w_db :=
      w_db (snd (users_set_password sample_bcrypt 7 ''password2'' sample_coded_user))\<rparr>)) =
    Inr (sample_authreq\<lparr>an_user := ''7'', an_auth_time := Some (20 * second), an_done := True\<rparr>)"
proof -
  have p: "users_set_password sample_bcrypt 7 ''password2'' sample_coded_user =
      (Inr (), snd (users_set_password sample_bcrypt 7 ''password2'' sample_coded_user))" by code_simp
  have f: "w_faults sample_coded_user = []" by code_simp
  have r: "fst (auth_request_by_code ''code1'' sample_coded_user) =
      Inr (sample_authreq\<lparr>an_user := ''7'', an_auth_time := Some (20 * second), an_done := True\<rparr>)" by code_simp
  show ?thesis using code_survives_password_change [OF p f refl, of "''code1''"] r by simp
qed

subsection \<open>The purge\<close>

lemma oidc_purge_Inr:
  assumes "oidc_purge cutoff w = (Inr u, w')"
  shows "w_db w' = (w_db w)\<lparr>
     db_authreqs := filter (\<lambda>r. \<not> ar_expires r < cutoff) (db_authreqs (w_db w)),
     db_codes := filter (\<lambda>c. \<not> co_expires c < cutoff \<and>
        co_request c \<notin> ar_id ` {r \<in> set (db_authreqs (w_db w)). ar_expires r < cutoff}) (db_codes (w_db w)),
     db_access := filter (\<lambda>r. \<not> at_expires r < cutoff) (db_access (w_db w)),
     db_refresh := filter (\<lambda>r. \<not> rt_expires r < cutoff) (db_refresh (w_db w))\<rparr>"
  using assms
  by (auto simp: oidc_purge_def bindR_Inr_iff ret_run del_authreqs_def del_codes_def del_access_def del_refresh_def
      Let_def conj_commute dest!: exec_InrD)

lemma oidc_purge_lookups:
  assumes "oidc_purge cutoff w = (Inr u, w')" and "world_ok w"
  shows "authreq_by k (w_db w') = (case authreq_by k (w_db w) of None \<Rightarrow> None
        | Some r \<Rightarrow> if ar_expires r < cutoff then None else Some r)"
    and "access_by k (w_db w') = (case access_by k (w_db w) of None \<Rightarrow> None
        | Some r \<Rightarrow> if at_expires r < cutoff then None else Some r)"
    and "refresh_by k (w_db w') = (case refresh_by k (w_db w) of None \<Rightarrow> None
        | Some r \<Rightarrow> if rt_expires r < cutoff then None else Some r)"
    and "code_by k (w_db w') = (case code_by k (w_db w) of None \<Rightarrow> None
        | Some c \<Rightarrow> if \<not> co_expires c < cutoff \<and>
            co_request c \<notin> ar_id ` {r \<in> set (db_authreqs (w_db w)). ar_expires r < cutoff} then Some c else None)"
  using assms(2) unfolding oidc_purge_Inr [OF assms(1)] by_defs world_ok_def db_ok_def
  by (simp_all add: row_by_filter split: option.split)

lemma by_code_iff:
  "w_faults v = [] \<Longrightarrow> fst (auth_request_by_code c v) = Inr a \<longleftrightarrow> (\<exists>co r.
     code_by c (w_db v) = Some co \<and> w_clock v - w_clock v mod second \<le> co_expires co \<and>
     authreq_by (co_request co) (w_db v) = Some r \<and> w_clock v - w_clock v mod second \<le> ar_expires r \<and>
     decode_auth_request r = Inr a)"
  by (auto simp: auth_request_by_code_def load_auth_request_def run_simps run_eval split: option.split)

lemma introspection_iff:
  "w_faults v = [] \<Longrightarrow> fst (set_introspection_from_token tok client v) = Inr i \<longleftrightarrow> (\<exists>row t ui.
     access_by tok (w_db v) = Some row \<and> decode_access_token row = Inr t \<and> w_clock v \<le> at_expires row \<and>
     client \<in> set (tk_audience t) \<and> fst (fill_userinfo empty_userinfo (tk_user t) (tk_scopes t) v) = Inr ui \<and>
     i = \<lparr>in_expires = tk_expires t, in_user = ui, in_scope = tk_scopes t, in_client = tk_client t\<rparr>)"
  by (auto simp: set_introspection_from_token_def load_access_token_def run_simps run_eval decode_access_token_def
      split: option.splits prod.splits sum.splits if_splits)



end
