(* ===== verification/Go_Json.thy ===== *)
theory Go_Json
  imports Go_Strings
begin

text \<open>
  \<^verbatim>\<open>encoding/json\<close> as nass uses it: \<open>json.Unmarshal\<close> of a text into values (the grammar of RFC 8259,
  escapes decoded to UTF-8, a value nested more than 10000 deep refused), the members of an object with
  the last of equal keys winning, and \<open>json.Marshal\<close> of strings, which escapes quotes, backslashes,
  control bytes and the HTML characters. A text is a list of bytes. Numbers are kept as text, so the
  range check of \<open>float64\<close> (a literal like \<open>1e999\<close>) is not modelled, and bytes that are not UTF-8
  pass through instead of becoming U+FFFD.
\<close>

datatype jval =
    JNull
  | JBool bool
  | JNum string
  | JStr string
  | JArr "jval list"
  | JObj "(string \<times> jval) list"

definition json_ws :: "char \<Rightarrow> bool" where
  "json_ws c \<longleftrightarrow> c \<in> {CHR '' '', CHR 0x09, CHR 0x0A, CHR 0x0D}"

definition skip_ws :: "string \<Rightarrow> string" where
  "skip_ws s = dropWhile json_ws s"

subsection \<open>Strings\<close>

definition hex_val :: "char \<Rightarrow> nat option" where
  "hex_val c = (let b = byte_of c in
     if 48 \<le> b \<and> b \<le> 57 then Some (b - 48)
     else if 97 \<le> b \<and> b \<le> 102 then Some (b - 87)
     else if 65 \<le> b \<and> b \<le> 70 then Some (b - 55)
     else None)"

definition hex4 :: "string \<Rightarrow> nat option" where
  "hex4 s = (case map hex_val s of
       [Some a, Some b, Some c, Some d] \<Rightarrow> Some (((a * 16 + b) * 16 + c) * 16 + d)
     | _ \<Rightarrow> None)"

definition utf8 :: "nat \<Rightarrow> string" where
  "utf8 n = map char_of
     (if n < 128 then [n]
      else if n < 2048 then [192 + n div 64, 128 + n mod 64]
      else if n < 65536 then [224 + n div 4096, 128 + n div 64 mod 64, 128 + n mod 64]
      else [240 + n div 262144, 128 + n div 4096 mod 64, 128 + n div 64 mod 64, 128 + n mod 64])"

definition high_surrogate :: "nat \<Rightarrow> bool" where
  "high_surrogate n \<longleftrightarrow> 55296 \<le> n \<and> n < 56320"

definition low_surrogate :: "nat \<Rightarrow> bool" where
  "low_surrogate n \<longleftrightarrow> 56320 \<le> n \<and> n < 57344"

definition simple_escape :: "char \<Rightarrow> char option" where
  "simple_escape c = map_of [(CHR 0x22, CHR 0x22), (CHR 0x5C, CHR 0x5C), (CHR ''/'', CHR ''/''), (CHR ''b'', CHR 0x08),
     (CHR ''f'', CHR 0x0C), (CHR ''n'', CHR 0x0A), (CHR ''r'', CHR 0x0D), (CHR ''t'', CHR 0x09)] c"

text \<open>The text after the opening quote: the decoded string and what follows the closing quote. An unpaired
  surrogate becomes U+FFFD.\<close>

fun json_string :: "string \<Rightarrow> (string \<times> string) option" where
  "json_string [] = None"
| "json_string (c # cs) =
     (if c = CHR 0x22 then Some ([], cs)
      else if byte_of c < 32 then None
      else if c \<noteq> CHR 0x5C then map_option (\<lambda>(s, r). (c # s, r)) (json_string cs)
      else (case cs of
          [] \<Rightarrow> None
        | e # es \<Rightarrow>
            if e = CHR ''u'' then
              (case hex4 (take 4 es) of
                 None \<Rightarrow> None
               | Some n \<Rightarrow>
                   (let rest = drop 4 es;
                        low = (if take 2 rest = [CHR 0x5C, CHR ''u''] then hex4 (take 4 (drop 2 rest)) else None)
                    in case low of
                         Some m \<Rightarrow>
                           if high_surrogate n \<and> low_surrogate m
                           then map_option (\<lambda>(s, r). (utf8 (65536 + (n - 55296) * 1024 + (m - 56320)) @ s, r))
                                  (json_string (drop 6 rest))
                           else map_option (\<lambda>(s, r). (utf8 (if high_surrogate n \<or> low_surrogate n then 65533 else n) @ s, r))
                                  (json_string rest)
                       | None \<Rightarrow>
                           map_option (\<lambda>(s, r). (utf8 (if high_surrogate n \<or> low_surrogate n then 65533 else n) @ s, r))
                             (json_string rest)))
            else (case simple_escape e of
                None \<Rightarrow> None
              | Some d \<Rightarrow> map_option (\<lambda>(s, r). (d # s, r)) (json_string es))))"

subsection \<open>Numbers\<close>

definition is_digit :: "char \<Rightarrow> bool" where
  "is_digit c \<longleftrightarrow> 48 \<le> byte_of c \<and> byte_of c \<le> 57"

definition eat_digits :: "string \<Rightarrow> (string \<times> string) option" where
  "eat_digits s = (case takeWhile is_digit s of [] \<Rightarrow> None | ds \<Rightarrow> Some (ds, dropWhile is_digit s))"

definition json_int :: "string \<Rightarrow> (string \<times> string) option" where
  "json_int s = (if has_prefix s ''0'' then Some (''0'', drop 1 s) else eat_digits s)"

definition json_frac :: "string \<Rightarrow> (string \<times> string) option" where
  "json_frac s = (if has_prefix s ''.'' then map_option (\<lambda>(ds, r'). (CHR ''.'' # ds, r')) (eat_digits (drop 1 s))
     else Some ([], s))"

definition json_exp :: "string \<Rightarrow> (string \<times> string) option" where
  "json_exp s = (case s of
       e # r \<Rightarrow> if e = CHR ''e'' \<or> e = CHR ''E'' then
           (case r of
              g # r' \<Rightarrow> if g = CHR ''+'' \<or> g = CHR ''-''
                then map_option (\<lambda>(ds, q). (e # g # ds, q)) (eat_digits r')
                else map_option (\<lambda>(ds, q). (e # ds, q)) (eat_digits r)
            | [] \<Rightarrow> None)
         else Some ([], s)
     | [] \<Rightarrow> Some ([], s))"

definition json_number :: "string \<Rightarrow> (string \<times> string) option" where
  "json_number s =
     (let (m, s0) = (if has_prefix s ''-'' then (''-'', drop 1 s) else ([], s)) in
      case json_int s0 of None \<Rightarrow> None
      | Some (i, s1) \<Rightarrow> (case json_frac s1 of None \<Rightarrow> None
        | Some (f, s2) \<Rightarrow> (case json_exp s2 of None \<Rightarrow> None
          | Some (e, s3) \<Rightarrow> Some (m @ i @ f @ e, s3))))"

subsection \<open>Values\<close>

text \<open>The first argument bounds the recursion; the text has at least one byte per step, so one more than its
  length is enough. The second is the nesting depth.\<close>

fun json_value :: "nat \<Rightarrow> int \<Rightarrow> string \<Rightarrow> (jval \<times> string) option"
  and json_elems :: "nat \<Rightarrow> int \<Rightarrow> string \<Rightarrow> (jval list \<times> string) option"
  and json_members :: "nat \<Rightarrow> int \<Rightarrow> string \<Rightarrow> ((string \<times> jval) list \<times> string) option"
where
  "json_value 0 d s = None"
| "json_value (Suc n) d s =
     (let t = skip_ws s in
      if t = [] then None
      else if has_prefix t ''null'' then Some (JNull, drop 4 t)
      else if has_prefix t ''true'' then Some (JBool True, drop 4 t)
      else if has_prefix t ''false'' then Some (JBool False, drop 5 t)
      else if has_prefix t [CHR 0x22] then map_option (\<lambda>(x, r). (JStr x, r)) (json_string (drop 1 t))
      else if has_prefix t ''['' then
        (if d \<ge> 10000 then None
         else let u = skip_ws (drop 1 t) in
           if has_prefix u '']'' then Some (JArr [], drop 1 u)
           else map_option (\<lambda>(xs, r). (JArr xs, r)) (json_elems n (d + 1) u))
      else if has_prefix t ''{'' then
        (if d \<ge> 10000 then None
         else let u = skip_ws (drop 1 t) in
           if has_prefix u ''}'' then Some (JObj [], drop 1 u)
           else map_option (\<lambda>(xs, r). (JObj xs, r)) (json_members n (d + 1) u))
      else map_option (\<lambda>(x, r). (JNum x, r)) (json_number t))"
| "json_elems 0 d s = None"
| "json_elems (Suc n) d s = (case json_value n d s of
       None \<Rightarrow> None
     | Some (v, r) \<Rightarrow>
         (case skip_ws r of
            c # r' \<Rightarrow>
              if c = CHR '']'' then Some ([v], r')
              else if c = CHR '','' then map_option (\<lambda>(vs, q). (v # vs, q)) (json_elems n d r')
              else None
          | [] \<Rightarrow> None))"
| "json_members 0 d s = None"
| "json_members (Suc n) d s = (case skip_ws s of
       q # r0 \<Rightarrow>
         if q \<noteq> CHR 0x22 then None
         else (case json_string r0 of
             None \<Rightarrow> None
           | Some (k, r1) \<Rightarrow>
               (if \<not> has_prefix (skip_ws r1) '':'' then None
                else
                  (case json_value n d (drop 1 (skip_ws r1)) of
                     None \<Rightarrow> None
                   | Some (v, r3) \<Rightarrow>
                       (case skip_ws r3 of
                          c # r4 \<Rightarrow>
                            if c = CHR ''}'' then Some ([(k, v)], r4)
                            else if c = CHR '','' then map_option (\<lambda>(ms, p). ((k, v) # ms, p)) (json_members n d r4)
                            else None
                        | [] \<Rightarrow> None))))
     | [] \<Rightarrow> None)"

definition json_parse :: "string \<Rightarrow> jval option" where
  "json_parse s = (case json_value (2 * length s + 2) 0 s of
       Some (v, r) \<Rightarrow> if skip_ws r = [] then Some v else None
     | None \<Rightarrow> None)"

text \<open>The member of an object that a map lookup sees: the last of the key.\<close>

definition member :: "string \<Rightarrow> (string \<times> jval) list \<Rightarrow> jval option" where
  "member k ms = map_of (rev ms) k"

subsection \<open>Writing strings\<close>

definition hex_char :: "nat \<Rightarrow> char" where
  "hex_char n = (if n < 10 then char_of (48 + n) else char_of (87 + n))"

definition json_escape :: "char \<Rightarrow> string" where
  "json_escape c =
     (if c = CHR 0x22 \<or> c = CHR 0x5C then [CHR 0x5C, c]
      else if c = CHR 0x08 then [CHR 0x5C, CHR ''b'']
      else if c = CHR 0x0C then [CHR 0x5C, CHR ''f'']
      else if c = CHR 0x0A then [CHR 0x5C, CHR ''n'']
      else if c = CHR 0x0D then [CHR 0x5C, CHR ''r'']
      else if c = CHR 0x09 then [CHR 0x5C, CHR ''t'']
      else if byte_of c < 32 \<or> c \<in> {CHR ''<'', CHR ''>'', CHR ''&''}
      then [CHR 0x5C, CHR ''u'', CHR ''0'', CHR ''0'', hex_char (byte_of c div 16), hex_char (byte_of c mod 16)]
      else [c])"

definition json_quote :: "string \<Rightarrow> string" where
  "json_quote s = CHR 0x22 # concat (map json_escape s) @ [CHR 0x22]"

lemma hex_val_char [simp]: "n < 16 \<Longrightarrow> hex_val (hex_char n) = Some n"
  by (auto simp: hex_val_def hex_char_def Let_def)

lemma hex4_byte: "byte_of c < 128 \<Longrightarrow>
    hex4 [CHR ''0'', CHR ''0'', hex_char (byte_of c div 16), hex_char (byte_of c mod 16)] = Some (byte_of c)"
  by (simp add: hex4_def) (simp add: hex_val_def Let_def)

lemma utf8_byte: "byte_of c < 128 \<Longrightarrow> utf8 (byte_of c) = [c]"
  by (simp add: utf8_def)

lemma simple_escapes:
  "simple_escape (CHR 0x22) = Some (CHR 0x22)" "simple_escape (CHR 0x5C) = Some (CHR 0x5C)"
  "simple_escape (CHR ''b'') = Some (CHR 0x08)" "simple_escape (CHR ''f'') = Some (CHR 0x0C)"
  "simple_escape (CHR ''n'') = Some (CHR 0x0A)" "simple_escape (CHR ''r'') = Some (CHR 0x0D)"
  "simple_escape (CHR ''t'') = Some (CHR 0x09)"
  by (simp_all add: simple_escape_def)

text \<open>Reading back what was written.\<close>

lemma json_string_u:
  assumes "byte_of c < 128"
  shows "json_string ([CHR 0x5C, CHR ''u'', CHR ''0'', CHR ''0'', hex_char (byte_of c div 16), hex_char (byte_of c mod 16)] @ s) =
    map_option (\<lambda>(x, r). (c # x, r)) (json_string s)"
proof -
  have n: "\<not> high_surrogate (byte_of c)" "\<not> low_surrogate (byte_of c)"
    using assms by (simp_all add: high_surrogate_def low_surrogate_def)
  show ?thesis
    using assms n hex4_byte [OF assms] utf8_byte [OF assms]
    by (simp add: Let_def del: hex4_def split: option.split)
qed

lemma json_string_escape:
  "json_string (json_escape c @ s) = map_option (\<lambda>(x, r). (c # x, r)) (json_string s)"
proof (cases "byte_of c < 32 \<or> c \<in> {CHR ''<'', CHR ''>'', CHR ''&''}")
  case True
  then have "byte_of c < 128" by auto
  then show ?thesis using True json_string_u [of c s] by (auto simp: json_escape_def simple_escapes)
next
  case False
  then show ?thesis by (auto simp: json_escape_def simple_escapes)
qed

lemma json_string_quote: "json_string (concat (map json_escape s) @ CHR 0x22 # r) = Some (s, r)"
  by (induction s) (simp_all add: json_string_escape)

subsection \<open>Writing values\<close>

text \<open>\<open>json.Marshal\<close> of a value with ordered members, and \<open>json.MarshalIndent\<close> with two blanks.\<close>

fun json_write :: "jval \<Rightarrow> string" where
  "json_write JNull = ''null''"
| "json_write (JBool b) = (if b then ''true'' else ''false'')"
| "json_write (JNum n) = n"
| "json_write (JStr s) = json_quote s"
| "json_write (JArr vs) = ''['' @ join_with '','' (map json_write vs) @ '']''"
| "json_write (JObj ms) = ''{'' @ join_with '','' (map (\<lambda>(k, v). json_quote k @ '':'' @ json_write v) ms) @ ''}''"

definition json_newline :: "nat \<Rightarrow> string" where
  "json_newline n = CHR 0x0A # replicate (2 * n) (CHR '' '')"

fun json_indent :: "nat \<Rightarrow> jval \<Rightarrow> string" where
  "json_indent n (JArr vs) = (if vs = [] then ''[]''
     else ''['' @ join_with '','' (map (\<lambda>v. json_newline (Suc n) @ json_indent (Suc n) v) vs) @ json_newline n @ '']'')"
| "json_indent n (JObj ms) = (if ms = [] then ''{}''
     else ''{'' @ join_with '','' (map (\<lambda>(k, v). json_newline (Suc n) @ json_quote k @ '': '' @ json_indent (Suc n) v) ms)
       @ json_newline n @ ''}'')"
| "json_indent n v = json_write v"

text \<open>The values the program writes: their numbers are plain decimals.\<close>

fun writable :: "jval \<Rightarrow> bool" where
  "writable (JNum n) = (\<exists>m. n = format_nat m)"
| "writable (JArr vs) = list_all writable vs"
| "writable (JObj ms) = list_all (\<lambda>(k, v). writable v) ms"
| "writable v = True"

fun json_depth :: "jval \<Rightarrow> int" where
  "json_depth (JArr vs) = 1 + foldr max (map json_depth vs) 0"
| "json_depth (JObj ms) = 1 + foldr max (map (\<lambda>(k, v). json_depth v) ms) 0"
| "json_depth v = 0"

fun json_fuel :: "jval \<Rightarrow> nat" where
  "json_fuel (JArr vs) = Suc (sum_list (map (\<lambda>v. Suc (json_fuel v)) vs))"
| "json_fuel (JObj ms) = Suc (sum_list (map (\<lambda>(k, v). Suc (json_fuel v)) ms))"
| "json_fuel v = 1"

text \<open>What may follow a value: nothing, or a delimiter.\<close>

definition json_delim :: "string \<Rightarrow> bool" where
  "json_delim r \<longleftrightarrow> r = [] \<or> hd r \<in> {CHR '','', CHR '']'', CHR ''}''}"

lemma skip_ws_id: "s = [] \<or> \<not> json_ws (hd s) \<Longrightarrow> skip_ws s = s"
  by (cases s) (auto simp: skip_ws_def)

lemma skip_ws_delim: "json_delim r \<Longrightarrow> skip_ws r = r"
  by (rule skip_ws_id) (auto simp: json_delim_def json_ws_def)

lemma digit_chars: "list_all is_digit (format_nat m)"
  by (auto simp: list_all_iff is_digit_def digit_char_def dest!: format_nat_digits)

lemma takeWhile_digits: "json_delim r \<Longrightarrow> takeWhile is_digit (format_nat m @ r) = format_nat m"
  using digit_chars [of m] by (cases r) (auto simp: takeWhile_append list_all_iff json_delim_def is_digit_def)

lemma dropWhile_digits: "json_delim r \<Longrightarrow> dropWhile is_digit (format_nat m @ r) = r"
  using digit_chars [of m] by (cases r) (auto simp: dropWhile_append list_all_iff json_delim_def is_digit_def)

lemma format_nat_zero_hd: "hd (format_nat m) = CHR ''0'' \<Longrightarrow> format_nat m = ''0''"
proof (induction m rule: format_nat.induct)
  case (1 m)
  show ?case
  proof (cases "m < 10")
    case True
    then show ?thesis using 1(2) by (simp add: format_nat.simps)
  next
    case False
    then have s: "format_nat m = format_nat (m div 10) @ [digit_char (m mod 10)]"
      by (subst format_nat.simps) simp
    then have "hd (format_nat (m div 10)) = CHR ''0''" using 1(2) by (simp add: hd_append)
    then have "format_nat (m div 10) = ''0''" using 1(1) False by simp
    then have "parse_nat ''0'' = Some (m div 10)" using parse_format_nat by metis
    then have "m div 10 = 0" by (simp add: parse_nat_def digit_val_def)
    then show ?thesis using False by simp
  qed
qed

lemma has_prefix_single: "has_prefix (c # cs) [d] \<longleftrightarrow> c = d"
  by (simp add: has_prefix_def)

lemma json_number_write:
  assumes "json_delim r"
  shows "json_number (format_nat m @ r) = Some (format_nat m, r)"
proof -
  obtain c cs where c: "format_nat m = c # cs" by (cases "format_nat m") auto
  then have "is_digit c" using digit_chars [of m] by simp
  then have "c \<noteq> CHR ''-''" by (auto simp: is_digit_def)
  moreover have "json_int (format_nat m @ r) = Some (format_nat m, r)"
  proof (cases "c = CHR ''0''")
    case True
    then have "format_nat m = ''0''" using format_nat_zero_hd [of m] c by simp
    then show ?thesis by (simp add: json_int_def has_prefix_def)
  next
    case False
    then have "\<not> has_prefix (format_nat m @ r) ''0''" using c by (simp add: has_prefix_single)
    moreover have "eat_digits (format_nat m @ r) = Some (format_nat m, r)"
      unfolding eat_digits_def takeWhile_digits [OF assms] dropWhile_digits [OF assms] using c by simp
    ultimately show ?thesis by (simp add: json_int_def)
  qed
  moreover have "json_frac r = Some ([], r)" "json_exp r = Some ([], r)"
    using assms by (cases r; auto simp: json_delim_def json_frac_def json_exp_def has_prefix_def)+
  ultimately show ?thesis using c by (simp add: json_number_def Let_def has_prefix_single)
qed

lemma has_prefix_Cons: "has_prefix (c # cs) (d # ds) \<longleftrightarrow> c = d \<and> has_prefix cs ds"
  by (simp add: has_prefix_def)

lemma write_start: "writable v \<Longrightarrow> \<exists>c cs. json_write v = c # cs \<and> \<not> json_ws c \<and> c \<noteq> CHR '']''"
proof (cases v)
  case (JNum n)
  moreover assume "writable v"
  ultimately obtain m where n: "n = format_nat m" by auto
  obtain c cs where c: "format_nat m = c # cs" by (cases "format_nat m") auto
  then have "is_digit c" using digit_chars [of m] by simp
  then have "\<not> json_ws c \<and> c \<noteq> CHR '']''" by (auto simp: is_digit_def json_ws_def)
  then show ?thesis using JNum n c by simp
qed (auto simp: json_quote_def json_ws_def)

lemma skip_ws_write: "writable v \<Longrightarrow> skip_ws (json_write v @ r) = json_write v @ r"
  using write_start [of v] by (auto intro: skip_ws_id)

lemma skip_ws_char: "\<not> json_ws c \<Longrightarrow> skip_ws (c # r) = c # r"
  by (simp add: skip_ws_id)

lemma json_string_quote2: "json_string (concat (map json_escape s) @ CHR 0x22 # r) = Some (s, r)"
  by (rule json_string_quote)

lemma json_elems_write:
  assumes "\<And>v n d r. v \<in> set vs \<Longrightarrow> json_fuel v \<le> n \<Longrightarrow> d + json_depth v \<le> 10000 \<Longrightarrow> json_delim r \<Longrightarrow>
      json_value n d (json_write v @ r) = Some (v, r)"
  shows "vs \<noteq> [] \<Longrightarrow> (\<Sum>v\<leftarrow>vs. Suc (json_fuel v)) \<le> n \<Longrightarrow> \<forall>v \<in> set vs. d + json_depth v \<le> 10000 \<Longrightarrow>
    json_elems n d (join_with '','' (map json_write vs) @ CHR '']'' # r) = Some (vs, r)"
  using assms
proof (induction vs arbitrary: n)
  case (Cons v vs)
  then obtain k where k: "n = Suc k" by (cases n) auto
  have hd: "json_value k d (json_write v @ q) = Some (v, q)" if "json_delim q" for q
    using Cons.prems k that by (intro Cons.prems(4)) auto
  show ?case
  proof (cases "vs = []")
    case True
    then show ?thesis using k hd by (simp add: json_delim_def skip_ws_char json_ws_def)
  next
    case False
    have "json_elems k d (join_with '','' (map json_write vs) @ CHR '']'' # r) = Some (vs, r)"
      using Cons.prems k False by (intro Cons.IH) auto
    then show ?thesis using k hd False
      by (simp add: join_with_Cons json_delim_def skip_ws_char json_ws_def)
  qed
qed simp

lemma json_members_write:
  assumes "\<And>x v n d r. (x, v) \<in> set ms \<Longrightarrow> json_fuel v \<le> n \<Longrightarrow> d + json_depth v \<le> 10000 \<Longrightarrow> json_delim r \<Longrightarrow>
      json_value n d (json_write v @ r) = Some (v, r)"
  shows "ms \<noteq> [] \<Longrightarrow> (\<Sum>(x, v)\<leftarrow>ms. Suc (json_fuel v)) \<le> n \<Longrightarrow> \<forall>(x, v) \<in> set ms. d + json_depth v \<le> 10000 \<Longrightarrow>
    json_members n d (join_with '','' (map (\<lambda>(k, v). json_quote k @ '':'' @ json_write v) ms) @ CHR ''}'' # r) = Some (ms, r)"
  using assms
proof (induction ms arbitrary: n)
  case (Cons m ms)
  obtain x v where m: "m = (x, v)" by fastforce
  obtain k where k: "n = Suc k" using Cons.prems(2) by (cases n) (auto simp: m)
  have hd: "json_value k d (json_write v @ q) = Some (v, q)" if "json_delim q" for q
    using Cons.prems k m that by (intro Cons.prems(4) [of x]) auto
  have str: "json_string (concat (map json_escape x) @ CHR 0x22 # q) = Some (x, q)" for q
    by (rule json_string_quote)
  show ?case
  proof (cases "ms = []")
    case True
    then show ?thesis using k hd m
      by (simp add: json_delim_def json_quote_def skip_ws_char json_ws_def str has_prefix_single)
  next
    case False
    have rest: "json_value n' d' (json_write v' @ r') = Some (v', r')"
      if "(x', v') \<in> set ms" "json_fuel v' \<le> n'" "d' + json_depth v' \<le> 10000" "json_delim r'" for x' v' n' d' r'
      using Cons.prems(4) [of x' v' n' d' r'] that by simp
    have "json_members k d (join_with '','' (map (\<lambda>(k, v). json_quote k @ '':'' @ json_write v) ms) @ CHR ''}'' # r) = Some (ms, r)"
    proof (rule Cons.IH [OF False])
      show "(\<Sum>(x, v)\<leftarrow>ms. Suc (json_fuel v)) \<le> k" using Cons.prems(2) k m by simp
      show "\<forall>(x, v) \<in> set ms. d + json_depth v \<le> 10000" using Cons.prems(3) by simp
    qed (rule rest)
    then show ?thesis using k hd False m
      by (simp add: join_with_Cons json_delim_def json_quote_def skip_ws_char json_ws_def str has_prefix_single)
  qed
qed simp

lemma foldr_max_le: "x \<in> set xs \<Longrightarrow> (x :: int) \<le> foldr max xs 0"
  by (induction xs) auto

text \<open>Reading back what was written.\<close>

lemma json_value_write:
  "writable v \<Longrightarrow> json_fuel v \<le> n \<Longrightarrow> d + json_depth v \<le> 10000 \<Longrightarrow> json_delim r \<Longrightarrow>
     json_value n d (json_write v @ r) = Some (v, r)"
proof (induction v arbitrary: n d r)
  case JNull
  then show ?case by (cases n) (auto simp: skip_ws_char json_ws_def has_prefix_Cons Let_def)
next
  case (JBool b)
  then show ?case by (cases n) (auto simp: skip_ws_char json_ws_def has_prefix_Cons Let_def)
next
  case (JNum s)
  then obtain m k where s: "s = format_nat m" "n = Suc k" by (cases n) auto
  obtain c cs where c: "format_nat m = c # cs" by (cases "format_nat m") auto
  then have "is_digit c" using digit_chars [of m] by simp
  then have "c \<notin> {CHR ''n'', CHR ''t'', CHR ''f'', CHR 0x22, CHR ''['', CHR ''{''}" by (auto simp: is_digit_def)
  moreover have "skip_ws (format_nat m @ r) = format_nat m @ r" using skip_ws_write [OF JNum(1)] s by simp
  ultimately show ?case
    using s c json_number_write [OF JNum(4), of m] by (simp add: Let_def has_prefix_Cons)
next
  case (JStr s)
  then show ?case
    by (cases n) (auto simp: skip_ws_char json_ws_def has_prefix_Cons Let_def json_quote_def json_string_quote)
next
  case (JArr vs)
  then obtain k where k: "n = Suc k" by (cases n) auto
  have d: "\<forall>v \<in> set vs. (d + 1) + json_depth v \<le> 10000"
  proof
    fix v assume "v \<in> set vs"
    then have "json_depth v \<le> foldr max (map json_depth vs) 0" by (intro foldr_max_le) auto
    then show "(d + 1) + json_depth v \<le> 10000" using JArr.prems(3) by simp
  qed
  have "0 \<le> foldr max (map json_depth vs) 0" by (induction vs) auto
  then have d0: "d < 10000" using JArr.prems(3) by simp
  show ?case
  proof (cases "vs = []")
    case True
    then show ?thesis using k d0 by (simp add: skip_ws_char json_ws_def has_prefix_Cons Let_def)
  next
    case False
    have el: "json_elems k (d + 1) (join_with '','' (map json_write vs) @ CHR '']'' # r) = Some (vs, r)"
      using JArr.prems k d False JArr.IH by (intro json_elems_write) (auto simp: list_all_iff)
    obtain v us where vs: "vs = v # us" using False by (cases vs) auto
    obtain c cs where c: "json_write v = c # cs" "\<not> json_ws c" "c \<noteq> CHR '']''"
      using write_start [of v] JArr.prems(1) vs by auto
    then have j: "\<exists>q. join_with '','' (map json_write vs) @ CHR '']'' # r = c # q"
      using vs by (cases us) auto
    then show ?thesis
      using k d0 el c by (auto simp: skip_ws_char json_ws_def has_prefix_Cons Let_def)
  qed
next
  case (JObj ms)
  then obtain k where k: "n = Suc k" by (cases n) auto
  have d: "\<forall>(x, v) \<in> set ms. (d + 1) + json_depth v \<le> 10000"
  proof clarify
    fix x v assume "(x, v) \<in> set ms"
    then have "json_depth v \<le> foldr max (map (\<lambda>(k, v). json_depth v) ms) 0" by (intro foldr_max_le) force
    then show "(d + 1) + json_depth v \<le> 10000" using JObj.prems(3) by simp
  qed
  have "0 \<le> foldr max (map (\<lambda>(k, v). json_depth v) ms) 0" by (induction ms) auto
  then have d0: "d < 10000" using JObj.prems(3) by simp
  show ?case
  proof (cases "ms = []")
    case True
    then show ?thesis using k d0 by (simp add: skip_ws_char json_ws_def has_prefix_Cons Let_def)
  next
    case False
    have el: "json_members k (d + 1) (join_with '','' (map (\<lambda>(k, v). json_quote k @ '':'' @ json_write v) ms) @ CHR ''}'' # r) = Some (ms, r)"
    proof (rule json_members_write)
      show "json_value n d (json_write v @ r) = Some (v, r)"
        if "(x, v) \<in> set ms" "json_fuel v \<le> n" "d + json_depth v \<le> 10000" "json_delim r" for x v n d r
        using JObj.IH [of "(x, v)" v] that JObj.prems(1) by (auto simp: list_all_iff snds.simps)
      show "(\<Sum>(x, v)\<leftarrow>ms. Suc (json_fuel v)) \<le> k" using JObj.prems(2) k by simp
    qed (use False d in auto)
    obtain x v us where ms: "ms = (x, v) # us" using False by (cases ms) auto
    have j: "\<exists>q. join_with '','' (map (\<lambda>(k, v). json_quote k @ '':'' @ json_write v) ms) @ CHR ''}'' # r = CHR 0x22 # q"
      using ms by (cases us) (auto simp: json_quote_def)
    then show ?thesis
      using k d0 el by (auto simp: skip_ws_char json_ws_def has_prefix_Cons Let_def)
  qed
qed

lemma length_join: "ps \<noteq> [] \<Longrightarrow> length (join_with [c] ps) + 1 = (\<Sum>p\<leftarrow>ps. Suc (length p))"
proof (induction ps)
  case (Cons p ps)
  then show ?case by (cases "ps = []") (auto simp: join_with_Cons)
qed simp

lemma json_fuel_length: "writable v \<Longrightarrow> json_fuel v \<le> length (json_write v)"
proof (induction v)
  case (JNum n)
  then show ?case by (auto simp: Suc_le_eq)
next
  case (JArr vs)
  then have "(\<Sum>v\<leftarrow>vs. Suc (json_fuel v)) \<le> (\<Sum>v\<leftarrow>vs. Suc (length (json_write v)))"
    by (intro sum_list_mono) (auto simp: list_all_iff)
  then show ?case using length_join [of "map json_write vs"] by (cases "vs = []") (auto simp: o_def)
next
  case (JObj ms)
  have "(\<Sum>(x, v)\<leftarrow>ms. Suc (json_fuel v)) \<le> (\<Sum>m\<leftarrow>ms. Suc (length ((\<lambda>(k, v). json_quote k @ '':'' @ json_write v) m)))"
  proof (intro sum_list_mono)
    fix m assume m: "m \<in> set ms"
    obtain x v where xv: "m = (x, v)" by fastforce
    have "json_fuel v \<le> length (json_write v)" using JObj m xv by (auto simp: list_all_iff snds.simps)
    then show "(case m of (x, v) \<Rightarrow> Suc (json_fuel v)) \<le> Suc (length ((\<lambda>(k, v). json_quote k @ '':'' @ json_write v) m))"
      using xv by simp
  qed
  then show ?case
    using length_join [of "map (\<lambda>(k, v). json_quote k @ '':'' @ json_write v) ms"] by (cases "ms = []") (auto simp: o_def)
qed (auto simp: json_quote_def)

lemma json_roundtrip:
  assumes "writable v" "json_depth v \<le> 10000"
  shows "json_parse (json_write v) = Some v"
proof -
  have "json_value (2 * length (json_write v) + 2) 0 (json_write v @ []) = Some (v, [])"
    using assms json_fuel_length [OF assms(1)] by (intro json_value_write) (auto simp: json_delim_def)
  then show ?thesis by (simp add: json_parse_def skip_ws_def)
qed

subsection \<open>Decoding into the fields of a struct\<close>

text \<open>The members of an object that go to the field \<open>name\<close>: those whose key is equal to it up to case, but \<open>null\<close>
  leaves a field alone. Every member must have the type of the field; the last one wins.\<close>

definition field_members :: "string \<Rightarrow> (string \<times> jval) list \<Rightarrow> jval list" where
  "field_members name ms = filter (\<lambda>v. v \<noteq> JNull) (map snd (filter (\<lambda>m. equal_fold (fst m) name) ms))"

fun last_of :: "'a \<Rightarrow> 'a list \<Rightarrow> 'a" where
  "last_of z [] = z"
| "last_of z (x # xs) = last_of x xs"

fun as_bool :: "jval \<Rightarrow> bool option" where
  "as_bool (JBool b) = Some b"
| "as_bool v = None"

fun as_string :: "jval \<Rightarrow> string option" where
  "as_string (JStr s) = Some s"
| "as_string v = None"

fun all_some :: "'a option list \<Rightarrow> 'a list option" where
  "all_some [] = Some []"
| "all_some (None # xs) = None"
| "all_some (Some x # xs) = map_option ((#) x) (all_some xs)"

definition bool_field :: "string \<Rightarrow> jval \<Rightarrow> bool option" where
  "bool_field name v = (case v of
       JNull \<Rightarrow> Some False
     | JObj ms \<Rightarrow> map_option (last_of False) (all_some (map as_bool (field_members name ms)))
     | _ \<Rightarrow> None)"

definition string_field :: "string \<Rightarrow> jval \<Rightarrow> string option" where
  "string_field name v = (case v of
       JNull \<Rightarrow> Some []
     | JObj ms \<Rightarrow> map_option (last_of []) (all_some (map as_string (field_members name ms)))
     | _ \<Rightarrow> None)"

text \<open>\<open>json.NewDecoder(body).Decode\<close>: the first value of the text, whatever follows it.\<close>

definition json_first :: "string \<Rightarrow> jval option" where
  "json_first s = map_option fst (json_value (2 * length s + 2) 0 s)"

end
