(* ===== verification/Orchestrator.thy ===== *)
theory Orchestrator
  imports Host_World Go_Json
begin

text \<open>
  The wrapper around \<^verbatim>\<open>docker compose\<close> (\<^verbatim>\<open>internal/orchestrator/orchestrator.go\<close>): the command line of
  every operation, how a compose file is resolved, and the state read off \<^verbatim>\<open>ps --format json\<close>. A command
  gives its combined output and, if it failed, the error. An absolute compose file is taken as it is, a
  relative one is joined to the compose root (and may leave it again by \<^verbatim>\<open>..\<close>: the code does not
  check that). Shown: one operation runs one command, the configured one with \<^verbatim>\<open>-f\<close> and the resolved
  file, or none if the file does not resolve (\<open>orch_call_command\<close>); the state is running exactly if a row says
  so (\<open>infer_state_running\<close>); and no operation touches nass's database.
\<close>

record orchestrator =
  oc_root :: string
  oc_argv :: "string list"

datatype orch_state = StateRunning | StateStopped | StateUnknown

fun state_text :: "orch_state \<Rightarrow> string" where
  "state_text StateRunning = ''running''"
| "state_text StateStopped = ''stopped''"
| "state_text StateUnknown = ''unknown''"

definition new_orchestrator :: "string \<Rightarrow> string \<Rightarrow> orchestrator" where
  "new_orchestrator root dc = \<lparr>oc_root = root, oc_argv = fields_of (if dc = [] then ''docker compose'' else dc)\<rparr>"

definition resolve_file :: "orchestrator \<Rightarrow> string \<Rightarrow> error + string" where
  "resolve_file o1 f =
     (if f = [] then Inl (Msg ''compose_file is empty'')
      else if is_abs f then Inr f
      else if oc_root o1 = [] then Inl (Msg ''compose_file is relative but orchestrator.compose_root is empty'')
      else Inr (path_join [oc_root o1, f]))"

definition orch_run :: "orchestrator \<Rightarrow> string \<Rightarrow> string list \<Rightarrow> ('r host_scheme, string \<times> error option) run" where
  "orch_run o1 file args = (case oc_argv o1 of
       [] \<Rightarrow> ret ([], Some (Msg ''docker_compose is unset''))
     | exe # pre \<Rightarrow>
         (let argv = pre @ [''-f'', file] @ args in
          bindR (run_command (exe # argv)) (\<lambda>(ok, out).
          if ok then ret (out, None)
          else ret (out, Some (Wrap (exe @ '' '' @ join_with '' '' argv)
            (Msg (''exit status 1 ('' @ trim_space out @ '')'')))))))"

definition orch_call :: "orchestrator \<Rightarrow> string \<Rightarrow> string list \<Rightarrow> ('r host_scheme, string \<times> error option) run" where
  "orch_call o1 f args = (case resolve_file o1 f of
       Inl e \<Rightarrow> ret ([], Some e)
     | Inr path \<Rightarrow> orch_run o1 path args)"

text \<open>A caller that ignores the output of a failed command.\<close>

definition checked :: "('s, string \<times> error option) run \<Rightarrow> ('s, string) run" where
  "checked m = bindR m (\<lambda>(out, e). case e of None \<Rightarrow> ret out | Some x \<Rightarrow> throw x)"

definition orch_up :: "orchestrator \<Rightarrow> string \<Rightarrow> ('r host_scheme, string) run" where
  "orch_up o1 f = checked (orch_call o1 f [''up'', ''-d''])"

definition orch_down :: "orchestrator \<Rightarrow> string \<Rightarrow> ('r host_scheme, string) run" where
  "orch_down o1 f = checked (orch_call o1 f [''down''])"

definition orch_down_volumes :: "orchestrator \<Rightarrow> string \<Rightarrow> ('r host_scheme, string) run" where
  "orch_down_volumes o1 f = checked (orch_call o1 f [''down'', ''-v'', ''--remove-orphans''])"

definition orch_restart :: "orchestrator \<Rightarrow> string \<Rightarrow> ('r host_scheme, string) run" where
  "orch_restart o1 f = checked (orch_call o1 f [''restart''])"

definition orch_kill :: "orchestrator \<Rightarrow> string \<Rightarrow> string \<Rightarrow> ('r host_scheme, string) run" where
  "orch_kill o1 f service = checked (orch_call o1 f ([''kill''] @ (if service \<noteq> [] then [service] else [])))"

definition orch_exec :: "orchestrator \<Rightarrow> string \<Rightarrow> string \<Rightarrow> string list \<Rightarrow> ('r host_scheme, string \<times> error option) run" where
  "orch_exec o1 f service args = orch_call o1 f ([''exec''] @ [''-T'', service] @ args)"

definition orch_exec_as :: "orchestrator \<Rightarrow> string \<Rightarrow> string \<Rightarrow> string \<Rightarrow> string list \<Rightarrow> ('r host_scheme, string \<times> error option) run" where
  "orch_exec_as o1 f service usr args = orch_call o1 f ([''exec''] @ [''-T'', ''--user'', usr, service] @ args)"

subsection \<open>The state of a project\<close>

text \<open>\<open>map[string]any\<close>: an object, or \<open>null\<close> for the nil map.\<close>

definition as_map :: "jval \<Rightarrow> (string \<times> jval) list option" where
  "as_map v = (case v of JObj ms \<Rightarrow> Some ms | JNull \<Rightarrow> Some [] | _ \<Rightarrow> None)"

fun all_maps :: "jval list \<Rightarrow> (string \<times> jval) list list option" where
  "all_maps [] = Some []"
| "all_maps (v # vs) = (case as_map v of None \<Rightarrow> None | Some m \<Rightarrow> map_option ((#) m) (all_maps vs))"

definition row_running :: "(string \<times> jval) list \<Rightarrow> bool" where
  "row_running ms = (case member ''State'' ms of Some (JStr s) \<Rightarrow> equal_fold s ''running'' | _ \<Rightarrow> False)"

fun infer_rows :: "(string \<times> jval) list list \<Rightarrow> orch_state" where
  "infer_rows [] = StateStopped"
| "infer_rows (r # rs) = (if row_running r then StateRunning else infer_rows rs)"

definition infer_state :: "(string \<times> jval) list list \<Rightarrow> orch_state" where
  "infer_state rows = (if rows = [] then StateStopped else infer_rows rows)"

fun ps_lines :: "string list \<Rightarrow> error + (string \<times> jval) list list" where
  "ps_lines [] = Inr []"
| "ps_lines (l # ls) =
     (let t = trim_space l in
      if t = [] then ps_lines ls
      else (case json_parse t of
          None \<Rightarrow> Inl (Wrap ''parse ps line'' (Msg ''invalid JSON''))
        | Some v \<Rightarrow> (case as_map v of
            None \<Rightarrow> Inl (Wrap ''parse ps line'' (Msg ''invalid JSON''))
          | Some m \<Rightarrow> (case ps_lines ls of Inl e \<Rightarrow> Inl e | Inr ms \<Rightarrow> Inr (m # ms)))))"

definition parse_ps :: "string \<Rightarrow> error + orch_state" where
  "parse_ps out0 =
     (let out = trim_space out0 in
      if out = [] \<or> out = ''[]'' then Inr StateStopped
      else if has_prefix out ''['' then
        (case json_parse out of
           Some (JArr vs) \<Rightarrow> (case all_maps vs of
               None \<Rightarrow> Inl (Wrap ''parse ps json'' (Msg ''invalid JSON''))
             | Some ms \<Rightarrow> Inr (infer_state ms))
         | _ \<Rightarrow> Inl (Wrap ''parse ps json'' (Msg ''invalid JSON'')))
      else (case ps_lines (split_at (CHR 0x0A) out) of Inl e \<Rightarrow> Inl e | Inr ms \<Rightarrow> Inr (infer_state ms)))"

definition orch_status :: "orchestrator \<Rightarrow> string \<Rightarrow> ('r host_scheme, orch_state) run" where
  "orch_status o1 f = bindR (checked (orch_call o1 f [''ps'', ''--format'', ''json''])) (\<lambda>out. lift_result (parse_ps out))"

lemma infer_state_running: "infer_state rows = StateRunning \<longleftrightarrow> (\<exists>r \<in> set rows. row_running r)"
proof -
  have "infer_rows rs = StateRunning \<longleftrightarrow> (\<exists>r \<in> set rs. row_running r)" for rs by (induction rs) auto
  then show ?thesis by (simp add: infer_state_def)
qed

lemma orch_call_command:
  assumes "orch_call o1 f args w = (r, w')"
  shows "hs_cmds w' = hs_cmds w @ (case (resolve_file o1 f, oc_argv o1) of
     (Inr path, exe # pre) \<Rightarrow> [exe # pre @ [''-f'', path] @ args] | _ \<Rightarrow> [])"
  using assms by (cases "hs_outs w")
    (auto simp: orch_call_def orch_run_def run_command_def Let_def run_eval run_simps
      split: sum.splits list.splits if_splits prod.splits)

subsection \<open>Frames\<close>

lemma frame_orch [preserves_intro]:
  "frame w_db (orch_run o1 f a)" "frame w_db (orch_call o1 f a)"
  unfolding orch_call_def orch_run_def by (intro preserves_intro)+

lemma frame_checked [preserves_intro]: "frame g m \<Longrightarrow> frame g (checked m)"
  unfolding checked_def by (intro preserves_intro)

lemma frame_orch_ops [preserves_intro]:
  "frame w_db (orch_up o1 f)" "frame w_db (orch_down o1 f)" "frame w_db (orch_down_volumes o1 f)"
  "frame w_db (orch_restart o1 f)" "frame w_db (orch_kill o1 f s)" "frame w_db (orch_exec o1 f s a)"
  "frame w_db (orch_exec_as o1 f s u a)" "frame w_db (orch_status o1 f)"
  unfolding orch_up_def orch_down_def orch_down_volumes_def orch_restart_def orch_kill_def orch_exec_def
    orch_exec_as_def orch_status_def
  by (intro preserves_intro)+

end
