(* ===== verification/App_Registry.thy ===== *)
theory App_Registry
  imports Orchestrator Nass_Stores "HOL-Library.Char_ord" "HOL-Library.List_Lexorder" "HOL-Library.Multiset"
begin

text \<open>
  What an app module is (\<^verbatim>\<open>internal/apps/app.go\<close>): the specification with its hooks, the context an
  installation hands to them, the registry of all apps; and the choice of a backend port
  (\<^verbatim>\<open>internal/apps/ports.go\<close>). The hooks of a specification are operations on the world \<open>'w\<close>; nil is
  \<open>None\<close>. Go's map of specifications has no order, so the registry is a list whose order no result may
  depend on: \<open>All\<close> sorts it by an insertion sort, proved equal to sorting by name. Strings are
  compared byte by byte.
\<close>

subsection \<open>Specifications and contexts\<close>

record install_context =
  ic_name :: string
  ic_subdomain :: string
  ic_base :: string
  ic_scheme :: string
  ic_public_port :: string
  ic_port :: int
  ic_range :: string
  ic_explicit :: bool
  ic_data :: string
  ic_compose :: string
  ic_password :: string
  ic_client :: string
  ic_secret :: string
  ic_issuer :: string
  ic_db :: bool
  ic_orch :: "orchestrator option"

record 'w spec =
  sp_name :: string
  sp_display :: string
  sp_description :: string
  sp_icon :: string
  sp_subdomain :: string
  sp_port :: int
  sp_preserve :: bool
  sp_oidc :: bool
  sp_gate :: bool
  sp_redirects :: "(install_context \<Rightarrow> string list) option"
  sp_template :: string
  sp_pre_up :: "(install_context \<Rightarrow> ('w, unit) run) option"
  sp_post_up :: "(install_context \<Rightarrow> ('w, unit) run) option"

definition public_host :: "install_context \<Rightarrow> string" where
  "public_host ic = ic_subdomain ic @ ''.'' @ ic_base ic @ ic_public_port ic"

definition public_url :: "install_context \<Rightarrow> string" where
  "public_url ic = ic_scheme ic @ ''://'' @ public_host ic"

definition discovery_url :: "install_context \<Rightarrow> string" where
  "discovery_url ic = ic_issuer ic @ ''/.well-known/openid-configuration''"

subsection \<open>The registry\<close>

definition register_spec :: "'w spec \<Rightarrow> 'w spec list \<Rightarrow> error + 'w spec list" where
  "register_spec sp reg =
     (if sp_name sp = [] then Inl (GoPanic ''apps.Register: empty Name'')
      else if sp_name sp \<in> sp_name ` set reg then Inl (GoPanic (''apps.Register: duplicate name '' @ go_quote (sp_name sp)))
      else Inr (reg @ [sp]))"

definition get_spec :: "string \<Rightarrow> 'w spec list \<Rightarrow> 'w spec option" where
  "get_spec n reg = row_by sp_name n reg"

text \<open>The inner loop of the sort: the element at \<open>j\<close> moves left while its left neighbour's name is greater.\<close>

fun sink :: "('a \<Rightarrow> string) \<Rightarrow> nat \<Rightarrow> 'a list \<Rightarrow> 'a list" where
  "sink f 0 xs = xs"
| "sink f (Suc j) xs =
     (if f (xs ! Suc j) < f (xs ! j) then sink f j (xs[j := xs ! Suc j, Suc j := xs ! j]) else xs)"

definition insertion_sort :: "('a \<Rightarrow> string) \<Rightarrow> 'a list \<Rightarrow> 'a list" where
  "insertion_sort f xs = fold (sink f) [1..<length xs] xs"

definition all_specs :: "'w spec list \<Rightarrow> 'w spec list" where
  "all_specs reg = insertion_sort sp_name reg"

text \<open>Where the element comes to rest: behind the last one that is not greater.\<close>

definition settle :: "('a \<Rightarrow> string) \<Rightarrow> 'a \<Rightarrow> 'a list \<Rightarrow> 'a list" where
  "settle f x as = rev (dropWhile (\<lambda>y. f x < f y) (rev as)) @ x # rev (takeWhile (\<lambda>y. f x < f y) (rev as))"

lemma sink_settle: "sink f (length as) (as @ x # bs) = settle f x as @ bs"
proof (induction as arbitrary: bs rule: rev_induct)
  case (snoc y as)
  have "(as @ [y] @ x # bs)[length as := x, Suc (length as) := y] = as @ x # y # bs"
    by (simp add: list_update_append)
  moreover have "(as @ [y] @ x # bs) ! Suc (length as) = x" "(as @ [y] @ x # bs) ! length as = y"
    by (simp_all add: nth_append)
  ultimately show ?case
    using snoc [of "y # bs"] by (simp add: settle_def)
qed (simp add: settle_def)

lemma mset_settle: "mset (settle f x as) = mset (as @ [x])"
proof -
  let ?P = "\<lambda>y. f x < f y"
  have "mset (takeWhile ?P (rev as)) + mset (dropWhile ?P (rev as)) = mset (rev as)"
    by (metis mset_append takeWhile_dropWhile_id)
  then show ?thesis by (simp add: settle_def add.commute)
qed

lemma set_settle: "set (settle f x as) = insert x (set as)"
  using mset_settle [of f x as] by (metis set_mset_mset list.set(1,2) set_append Un_insert_right sup_bot_right)

lemma sorted_settle: "sorted (map f as) \<Longrightarrow> sorted (map f (settle f x as))"
proof (induction as rule: rev_induct)
  case (snoc y as)
  then have s: "sorted (map f as)" "\<forall>z \<in> set as. f z \<le> f y" by (auto simp: sorted_append)
  show ?case
  proof (cases "f x < f y")
    case True
    then have "settle f x (as @ [y]) = settle f x as @ [y]" by (simp add: settle_def)
    then show ?thesis using snoc.IH [OF s(1)] s(2) True by (auto simp: sorted_append set_settle)
  next
    case False
    then have "settle f x (as @ [y]) = as @ [y, x]" by (simp add: settle_def)
    then show ?thesis using s False by (auto simp: sorted_append)
  qed
qed (simp add: settle_def)

lemma insertion_sort_prefix:
  "1 \<le> n \<Longrightarrow> n \<le> length xs \<Longrightarrow> \<exists>ys. fold (sink f) [1..<n] xs = ys @ drop n xs \<and> length ys = n \<and>
     mset ys = mset (take n xs) \<and> sorted (map f ys)"
proof (induction n rule: nat_induct_at_least)
  case base
  then show ?case by (cases xs) auto
next
  case (Suc n)
  then obtain ys where ys: "fold (sink f) [1..<n] xs = ys @ drop n xs" "length ys = n"
      "mset ys = mset (take n xs)" "sorted (map f ys)" by auto
  have d: "drop n xs = xs ! n # drop (Suc n) xs" using Suc.prems by (simp add: Cons_nth_drop_Suc)
  have "fold (sink f) [1..<Suc n] xs = settle f (xs ! n) ys @ drop (Suc n) xs"
    using ys(1,2) d sink_settle [of f ys "xs ! n" "drop (Suc n) xs"] Suc.hyps by simp
  moreover have "mset (settle f (xs ! n) ys) = mset (take (Suc n) xs)"
    using ys(3) Suc.prems by (simp add: mset_settle take_Suc_conv_app_nth)
  moreover from this have "length (settle f (xs ! n) ys) = Suc n"
    using Suc.prems by (metis length_take min_absorb2 size_mset)
  ultimately show ?case using sorted_settle [OF ys(4)] by blast
qed

lemma insertion_sort_sorts: "mset (insertion_sort f xs) = mset xs \<and> sorted (map f (insertion_sort f xs))"
proof (cases "xs = []")
  case False
  then have "1 \<le> length xs" by (cases xs) auto
  then show ?thesis using insertion_sort_prefix [of "length xs" xs f] by (auto simp: insertion_sort_def)
qed (simp add: insertion_sort_def)

lemma sorted_unique:
  assumes "mset xs = mset ys" "sorted (map f xs)" "sorted (map f ys)" "inj_on f (set xs)"
  shows "xs = ys"
proof (rule map_inj_on [of f])
  show "map f xs = map f ys"
    using assms(1-3) by (metis mset_map properties_for_sort sorted_sort_id)
  show "inj_on f (set xs \<union> set ys)" using assms(1,4) by (metis Un_absorb mset_eq_setD)
qed

definition sample_spec :: "string \<Rightarrow> host spec" where
  "sample_spec n = \<lparr>sp_name = n, sp_display = n, sp_description = [], sp_icon = [], sp_subdomain = n, sp_port = 18080,
     sp_preserve = True, sp_oidc = False, sp_gate = True, sp_redirects = None, sp_template = [],
     sp_pre_up = None, sp_post_up = None\<rparr>"

text \<open>The list of all apps does not depend on the order in which Go enumerates its map: the in-place insertion
  sort gives the same list as sorting by name, for every enumeration of a registry without duplicate names.\<close>

theorem all_specs_sorts:
  assumes "distinct (map sp_name reg)" and "mset reg' = mset reg"
  shows "all_specs reg' = sort_key sp_name reg"
proof (rule sorted_unique [of _ _ sp_name])
  show "mset (all_specs reg') = mset (sort_key sp_name reg)"
    using assms(2) insertion_sort_sorts [of sp_name reg'] by (simp add: all_specs_def)
  show "sorted (map sp_name (all_specs reg'))"
    using insertion_sort_sorts [of sp_name reg'] by (simp add: all_specs_def)
  show "sorted (map sp_name (sort_key sp_name reg))" by simp
  have "set (all_specs reg') = set reg"
    using assms(2) insertion_sort_sorts [of sp_name reg'] by (metis all_specs_def mset_eq_setD)
  then show "inj_on sp_name (set (all_specs reg'))" using assms(1) by (simp add: distinct_map)
qed

lemma all_specs_sorts_witness:
  "map sp_name (all_specs [sample_spec ''vikunja'', sample_spec ''gitea'', sample_spec ''jitsi'']) = [''gitea'', ''jitsi'', ''vikunja'']"
proof -
  have "all_specs [sample_spec ''vikunja'', sample_spec ''gitea'', sample_spec ''jitsi''] =
      sort_key sp_name [sample_spec ''gitea'', sample_spec ''vikunja'', sample_spec ''jitsi'']"
    by (rule all_specs_sorts) (simp_all add: sample_spec_def)
  moreover have "map sp_name (sort_key sp_name [sample_spec ''gitea'', sample_spec ''vikunja'', sample_spec ''jitsi'']) =
      [''gitea'', ''jitsi'', ''vikunja'']" by code_simp
  ultimately show ?thesis by (simp only:)
qed

lemma register_get:
  "register_spec sp reg = Inr reg' \<Longrightarrow>
     get_spec n reg' = (if n = sp_name sp then Some sp else get_spec n reg) \<and>
     (distinct (map sp_name reg) \<longrightarrow> distinct (map sp_name reg'))"
  by (auto simp: register_spec_def get_spec_def row_by_append row_by_not_in split: if_splits option.split)

subsection \<open>Backend ports\<close>

definition default_port_range :: string where
  "default_port_range = ''20000-29999''"

definition invalid_range :: "string \<Rightarrow> string" where
  "invalid_range raw = ''invalid backend port range '' @ go_quote raw"

definition parse_port_range :: "string \<Rightarrow> error + int \<times> int" where
  "parse_port_range raw = (case split_at (CHR ''-'') raw of
       [a, b] \<Rightarrow>
         (case parse_int (trim_space a) of None \<Rightarrow> Inl (Wrap (invalid_range raw) (Msg ''strconv.Atoi: invalid syntax''))
          | Some start \<Rightarrow> (case parse_int (trim_space b) of
              None \<Rightarrow> Inl (Wrap (invalid_range raw) (Msg ''strconv.Atoi: invalid syntax''))
            | Some stop \<Rightarrow>
                if start \<le> 0 \<or> stop \<le> 0 \<or> start > 65535 \<or> stop > 65535 \<or> start > stop
                then Inl (Msg (invalid_range raw @ '' (ports must be 1-65535 and start <= end)'')) else Inr (start, stop)))
     | _ \<Rightarrow> Inl (Msg (invalid_range raw @ '' (want start-end)'')))"

fun scan_ports :: "int \<Rightarrow> string \<Rightarrow> int list \<Rightarrow> ('r host_scheme, int) run" where
  "scan_ports preferred prange [] = throw (Msg (''no free backend port found in range '' @ prange))"
| "scan_ports preferred prange (p # ps) =
     bindR ctx_done (\<lambda>done.
     if done then throw (Wrap ''select backend port'' ErrCanceled)
     else if p = preferred then scan_ports preferred prange ps
     else bindR (port_available p) (\<lambda>free. if free then ret p else scan_ports preferred prange ps))"

definition select_backend_port :: "int \<Rightarrow> string \<Rightarrow> bool \<Rightarrow> ('r host_scheme, int) run" where
  "select_backend_port preferred range0 explicit =
     (if preferred \<le> 0 \<or> preferred > 65535
      then throw (Msg (''backend port '' @ format_int preferred @ '' is out of range''))
      else (let prange = (if range0 = [] then default_port_range else range0) in
        case parse_port_range prange of
          Inl e \<Rightarrow> throw e
        | Inr (start, stop) \<Rightarrow>
            bindR (port_available preferred) (\<lambda>free.
            if free then ret preferred
            else if explicit
            then throw (Msg (''backend port '' @ format_int preferred @ '' is already in use on 127.0.0.1''))
            else scan_ports preferred prange [start..stop])))"

lemma parse_port_range_bounds:
  "parse_port_range raw = Inr (a, b) \<Longrightarrow> 0 < a \<and> a \<le> b \<and> b \<le> 65535"
  by (auto simp: parse_port_range_def split: list.splits option.splits if_splits)

lemma ctx_done_never: "hs_polls w = None \<Longrightarrow> ctx_done w = (Inr False, w)"
  by (simp add: ctx_done_def)

lemma ctx_done_keeps: "ctx_done w = (r, w') \<Longrightarrow> hs_busy w' = hs_busy w"
  by (auto simp: ctx_done_def split: option.splits nat.splits)

lemma scan_ports_Inr:
  "scan_ports preferred prange ps w = (Inr p, w') \<Longrightarrow>
     p \<in> set ps \<and> p \<noteq> preferred \<and> p \<notin> hs_busy w \<and> (\<forall>q \<in> set (takeWhile (\<lambda>q. q \<noteq> p) ps). q = preferred \<or> q \<in> hs_busy w)"
proof (induction ps arbitrary: w)
  case (Cons q ps)
  then obtain w1 where d: "ctx_done w = (Inr False, w1)"
    by (auto simp: bindR_Inr_iff throw_run split: if_splits)
  with Cons show ?case
    by (auto simp: bindR_run port_available_def run_simps throw_run dest!: ctx_done_keeps split: if_splits)
qed (simp add: throw_run)

lemma scan_ports_none:
  "hs_polls w = None \<Longrightarrow> (\<forall>q \<in> set ps. q = preferred \<or> q \<in> hs_busy w) \<Longrightarrow>
     scan_ports preferred prange ps w = (Inl (Msg (''no free backend port found in range '' @ prange)), w)"
  by (induction ps) (auto simp: run_simps run_eval ctx_done_never port_available_def)

lemma scan_ports_finds:
  "hs_polls w = None \<Longrightarrow> q \<in> set ps \<Longrightarrow> q \<noteq> preferred \<Longrightarrow> q \<notin> hs_busy w \<Longrightarrow>
     \<exists>p. scan_ports preferred prange ps w = (Inr p, w)"
  by (induction ps) (auto simp: run_simps run_eval ctx_done_never port_available_def)

lemma selected_port_range: "select_backend_port preferred prange explicit w = (Inr p, w') \<Longrightarrow> 0 < p \<and> p \<le> 65535"
  by (auto simp: select_backend_port_def Let_def throw_run ret_run bindR_run port_available_def run_simps
      split: if_splits sum.splits dest!: scan_ports_Inr parse_port_range_bounds)

lemma selected_free: "select_backend_port preferred prange explicit w = (Inr p, w') \<Longrightarrow> p \<notin> hs_busy w"
  by (auto simp: select_backend_port_def Let_def throw_run ret_run bindR_run port_available_def run_simps
      split: if_splits sum.splits dest!: scan_ports_Inr)

text \<open>The port of an app: a port that is handed out is a free TCP port of the machine; it is the preferred
  one whenever that is free, never another one if the choice was explicit, and otherwise the lowest free port of
  the range.\<close>

theorem selected_port_free:
  assumes "select_backend_port preferred prange explicit w = (Inr p, w')"
  shows "p \<notin> hs_busy w \<and> 0 < p \<and> p \<le> 65535 \<and> (preferred \<notin> hs_busy w \<longrightarrow> p = preferred) \<and> (explicit \<longrightarrow> p = preferred) \<and>
    (p \<noteq> preferred \<longrightarrow> (\<exists>a b. parse_port_range (if prange = [] then default_port_range else prange) = Inr (a, b) \<and>
       a \<le> p \<and> p \<le> b \<and> (\<forall>q. a \<le> q \<longrightarrow> q < p \<longrightarrow> q = preferred \<or> q \<in> hs_busy w)))"
proof -
  obtain a b where pref: "0 < preferred" "preferred \<le> 65535"
    and ab: "parse_port_range (if prange = [] then default_port_range else prange) = Inr (a, b)"
    and body: "(if preferred \<notin> hs_busy w then ret preferred
      else if explicit then throw (Msg (''backend port '' @ format_int preferred @ '' is already in use on 127.0.0.1''))
      else scan_ports preferred (if prange = [] then default_port_range else prange) [a..b]) w = (Inr p, w')"
    using assms by (auto simp: select_backend_port_def Let_def throw_run bindR_run port_available_def run_simps
        split: if_splits sum.splits)
  show ?thesis
  proof (cases "p = preferred")
    case True
    with pref body show ?thesis
      by (auto simp: ret_run throw_run split: if_splits dest: scan_ports_Inr)
  next
    case False
    with body have busy: "preferred \<in> hs_busy w" "\<not> explicit"
      and scan: "scan_ports preferred (if prange = [] then default_port_range else prange) [a..b] w = (Inr p, w')"
      by (auto simp: ret_run throw_run split: if_splits)
    note s = scan_ports_Inr [OF scan]
    then have p: "a \<le> p" "p \<le> b" by auto
    have "q = preferred \<or> q \<in> hs_busy w" if q: "a \<le> q" "q < p" for q
    proof -
      have "[a..b] = [a..p - 1] @ p # [p + 1..b]"
        using p upto_split2 [of a p b] upto_split1 [of a p b] by (simp add: upto_split3)
      then have "takeWhile (\<lambda>x. x \<noteq> p) [a..b] = [a..p - 1]" by (simp add: takeWhile_append)
      then show ?thesis using s q by auto
    qed
    then show ?thesis using ab busy s p parse_port_range_bounds [OF ab] False by auto
  qed
qed

text \<open>The choice fails only for a reason: for a preferred port that is out of range, a malformed range, an explicit
  port that is taken, or when every port of the range is taken; with a free port in the range it succeeds,
  unless the context was cancelled.\<close>

theorem port_found_if_any:
  assumes "0 < preferred" and "preferred \<le> 65535" and "hs_polls w = None"
    and "parse_port_range (if prange = [] then default_port_range else prange) = Inr (a, b)"
  shows "(\<exists>p. select_backend_port preferred prange False w = (Inr p, w)) \<longleftrightarrow>
    preferred \<notin> hs_busy w \<or> (\<exists>q. a \<le> q \<and> q \<le> b \<and> q \<notin> hs_busy w)"
proof -
  have sel: "select_backend_port preferred prange False w = (if preferred \<notin> hs_busy w then (Inr preferred, w)
      else scan_ports preferred (if prange = [] then default_port_range else prange) [a..b] w)"
    using assms by (simp add: select_backend_port_def Let_def run_simps run_eval port_available_def)
  show ?thesis
  proof (cases "preferred \<in> hs_busy w \<and> (\<forall>q. a \<le> q \<and> q \<le> b \<longrightarrow> q \<in> hs_busy w)")
    case True
    then have "scan_ports preferred (if prange = [] then default_port_range else prange) [a..b] w =
        (Inl (Msg (''no free backend port found in range '' @ (if prange = [] then default_port_range else prange))), w)"
      by (intro scan_ports_none assms(3)) auto
    then show ?thesis using True sel by auto
  next
    case False
    then show ?thesis
      using sel scan_ports_finds [OF assms(3), where ps = "[a..b]" and preferred = preferred] by (auto split: if_splits)
  qed
qed

definition sample_host :: host where
  "sample_host = \<lparr>w_db = empty_db, w_faults = [], w_clock = 0, w_rand = [''aa'', ''bb'', ''cc'', ''dd'', ''ee''],
     hs_fs = [], hs_disk_faults = [], hs_cmds = [], hs_outs = [], hs_busy = {18080, 20000, 20001}, hs_polls = None,
     hs_net = [], hs_reqs = []\<rparr>"

lemma sample_range: "parse_port_range (if [] = [] then default_port_range else []) = Inr (20000, 29999)"
  by (simp add: parse_port_range_def default_port_range_def go_str)

lemma selected_port_free_witness:
  "\<exists>p. select_backend_port 18080 [] False sample_host = (Inr p, sample_host) \<and> p \<notin> hs_busy sample_host \<and> p \<noteq> 18080"
proof -
  have b: "hs_busy sample_host = {18080, 20000, 20001}" "hs_polls sample_host = None"
    by (simp_all add: sample_host_def)
  obtain p where p: "select_backend_port 18080 [] False sample_host = (Inr p, sample_host)"
    using port_found_if_any [OF _ _ b(2) sample_range, of 18080] b(1) by force
  then show ?thesis using selected_port_free [OF p] b(1) by auto
qed

end
