(* ===== verification/App_Install.thy ===== *)
theory App_Install
  imports App_Registry Proxy_Manager Oidc_Clients
begin

text \<open>
  Installing an app (\<^verbatim>\<open>internal/apps/install.go\<close>): defaults, the port, validation, the OIDC client, the
  compose file, the settings, then the hooks around \<^verbatim>\<open>docker compose up\<close>. Of \<^verbatim>\<open>text/template\<close> the model has
  what the compose templates use: text and actions of the form \<open>{{.Field}}\<close>; any other action makes the
  template invalid. A context has a deadline as a number of polls (\<open>hs_polls\<close>); \<open>WaitFor\<close> polls it once
  before each request and once while it waits for the interval.
\<close>

subsection \<open>Templates\<close>

fun cut_string :: "string \<Rightarrow> string \<Rightarrow> (string \<times> string) option" where
  "cut_string p [] = (if p = [] then Some ([], []) else None)"
| "cut_string p (c # cs) =
     (if has_prefix (c # cs) p then Some ([], drop (length p) (c # cs))
      else map_option (\<lambda>(a, b). (c # a, b)) (cut_string p cs))"

datatype piece = Lit string | Field string

definition field_name :: "string \<Rightarrow> string option" where
  "field_name act = (if has_prefix act ''.'' \<and> drop 1 act \<noteq> [] \<and> list_all is_alnum (drop 1 act)
     then Some (drop 1 act) else None)"

lemma cut_string_Some: "cut_string p s = Some (a, b) \<Longrightarrow> s = a @ p @ b"
  by (induction p s arbitrary: a b rule: cut_string.induct) (auto simp: has_prefix_iff split: if_splits)

lemma cut_string_length: "cut_string p s = Some (a, b) \<Longrightarrow> length b \<le> length s - length p \<and> length p \<le> length s"
  by (auto dest!: cut_string_Some)

function parse_template :: "string \<Rightarrow> piece list option" where
  "parse_template s = (case cut_string ''{{'' s of
       None \<Rightarrow> Some [Lit s]
     | Some (a, r) \<Rightarrow> (case cut_string ''}}'' r of
         None \<Rightarrow> None
       | Some (act, r2) \<Rightarrow> (case field_name act of
           None \<Rightarrow> None
         | Some n \<Rightarrow> map_option (\<lambda>ps. Lit a # Field n # ps) (parse_template r2))))"
  by pat_completeness auto
termination
  by (relation "measure length") (auto dest!: cut_string_length)

declare parse_template.simps [simp del]

fun fill_pieces :: "(string \<Rightarrow> string option) \<Rightarrow> piece list \<Rightarrow> string option" where
  "fill_pieces f [] = Some []"
| "fill_pieces f (Lit s # ps) = map_option (\<lambda>t. s @ t) (fill_pieces f ps)"
| "fill_pieces f (Field n # ps) = (case f n of None \<Rightarrow> None | Some v \<Rightarrow> map_option (\<lambda>t. v @ t) (fill_pieces f ps))"

definition context_fields :: "install_context \<Rightarrow> (string \<times> string) list" where
  "context_fields ic = [(''Name'', ic_name ic), (''Subdomain'', ic_subdomain ic), (''BaseHost'', ic_base ic),
     (''PublicScheme'', ic_scheme ic), (''PublicPort'', ic_public_port ic), (''PublicHost'', public_host ic),
     (''PublicURL'', public_url ic), (''BackendPort'', format_int (ic_port ic)), (''BackendPortRange'', ic_range ic),
     (''DataRoot'', ic_data ic), (''ComposeFile'', ic_compose ic), (''AdminPassword'', ic_password ic),
     (''OIDCClientID'', ic_client ic), (''OIDCClientSecret'', ic_secret ic), (''OIDCIssuer'', ic_issuer ic),
     (''OIDCDiscoveryURL'', discovery_url ic)]"

definition render_template :: "string \<Rightarrow> install_context \<Rightarrow> error + string" where
  "render_template t ic = (case parse_template t of
       None \<Rightarrow> Inl (Wrap ''parse compose template'' (Msg ''template: compose''))
     | Some ps \<Rightarrow> (case fill_pieces (map_of (context_fields ic)) ps of
         None \<Rightarrow> Inl (Wrap ''render compose template'' (Msg ''template: compose''))
       | Some s \<Rightarrow> Inr s))"

definition render_compose :: "'w spec \<Rightarrow> install_context \<Rightarrow> ('r host_scheme, unit) run" where
  "render_compose sp ic = bindR (lift_result (render_template (sp_template sp) ic)) (\<lambda>body.
     map_error (Wrap ''write compose file'') (write_file (ic_compose ic) body))"

subsection \<open>Waiting for an app\<close>

text \<open>\<open>context.WithTimeout\<close>: at most \<open>n\<close> more polls inside, whatever the parent allows.\<close>

definition with_timeout :: "nat \<Rightarrow> ('r host_scheme, 'a) run \<Rightarrow> ('r host_scheme, 'a) run" where
  "with_timeout n m w =
     (let outer = hs_polls w;
          start = (case outer of None \<Rightarrow> n | Some k \<Rightarrow> min n k)
      in case m (w\<lparr>hs_polls := Some start\<rparr>) of (r, w1) \<Rightarrow>
        let spent = (case hs_polls w1 of None \<Rightarrow> 0 | Some k \<Rightarrow> start - k)
        in (r, w1\<lparr>hs_polls := map_option (\<lambda>k. k - spent) outer\<rparr>))"

text \<open>A loop that polls the context ends when the context does; \<open>diverges\<close> stands for the loop that
  would go on, which \<open>poll_loop_ends\<close> excludes for a context with a deadline.\<close>

definition diverges :: error where
  "diverges = GoPanic ''does not return''"

fun poll_loop :: "nat \<Rightarrow> ('r host_scheme, 'a option) run \<Rightarrow> error \<Rightarrow> ('r host_scheme, 'a) run" where
  "poll_loop 0 probe e = throw diverges"
| "poll_loop (Suc n) probe e =
     bindR ctx_done (\<lambda>done.
     if done then throw e
     else bindR probe (\<lambda>r. case r of
         Some x \<Rightarrow> ret x
       | None \<Rightarrow> bindR ctx_done (\<lambda>done2. if done2 then throw e else poll_loop n probe e)))"

definition wait_budget :: "'r host_scheme \<Rightarrow> nat" where
  "wait_budget w = (case hs_polls w of Some k \<Rightarrow> Suc k | None \<Rightarrow> Suc (length (hs_net w)))"

definition poll_until :: "('r host_scheme, 'a option) run \<Rightarrow> error \<Rightarrow> ('r host_scheme, 'a) run" where
  "poll_until probe e w = poll_loop (wait_budget w) probe e w"

definition probe_get :: "string \<Rightarrow> ('r host_scheme, unit option) run" where
  "probe_get target = bindR (http_do ''GET'' target []) (\<lambda>rep.
     ret (case rep of NetFail \<Rightarrow> None | NetReply st ct body \<Rightarrow> Some ()))"

definition wait_for :: "(string \<Rightarrow> string option) \<Rightarrow> string \<Rightarrow> ('r host_scheme, unit) run" where
  "wait_for ip6 target =
     (if url_parse ip6 target = None then throw (Wrap ''invalid url'' (Msg (''parse '' @ target)))
      else poll_until (probe_get target) (Wrap (''wait for '' @ target) ErrCanceled))"

subsection \<open>The installation\<close>

record install_result =
  ir_app :: string
  ir_compose :: string
  ir_password :: string
  ir_port :: int
  ir_client :: string
  ir_secret :: string

definition validate_context :: "(string \<Rightarrow> string option) \<Rightarrow> install_context \<Rightarrow> error + unit" where
  "validate_context ip6 ic =
     (if ic_name ic = [] then Inl (Msg ''name required'')
      else if ic_subdomain ic = [] then Inl (Msg ''subdomain required'')
      else if ic_port ic = 0 then Inl (Msg ''backend_port required'')
      else if ic_base ic = [] then Inl (Msg ''base_host required'')
      else if ic_issuer ic \<noteq> [] \<and> (case url_parse ip6 (ic_issuer ic) of None \<Rightarrow> False
          | Some u \<Rightarrow> equal_fold (url_hostname u) (ic_subdomain ic @ ''.'' @ ic_base ic))
      then Inl (Msg (''subdomain '' @ go_quote (ic_subdomain ic) @ '' is used by the nass sign-in server ('' @ ic_issuer ic
        @ ''); pass a different --subdomain''))
      else if ic_compose ic = [] then Inl (Msg ''compose_file required'')
      else if ic_data ic = [] then Inl (Msg ''data_root required'')
      else if \<not> ic_db ic then Inl (Msg ''db required'')
      else if ic_orch ic = None then Inl (Msg ''orchestrator required'')
      else Inr ())"

definition default_context :: "'w spec \<Rightarrow> install_context \<Rightarrow> install_context" where
  "default_context sp ic =
     ic\<lparr>ic_name := (if ic_name ic = [] then sp_name sp else ic_name ic),
        ic_subdomain := (if ic_subdomain ic = [] then sp_subdomain sp else ic_subdomain ic),
        ic_port := (if ic_port ic = 0 then sp_port sp else ic_port ic)\<rparr>"

text \<open>Everything up to and including the validation.\<close>

definition resolve_context ::
  "(string \<Rightarrow> string option) \<Rightarrow> 'w spec \<Rightarrow> install_context \<Rightarrow> ('r host_scheme, install_context) run" where
  "resolve_context ip6 sp ic0 =
     (let ic1 = default_context sp ic0 in
      bindR (select_backend_port (ic_port ic1) (ic_range ic1) (ic_explicit ic1)) (\<lambda>port.
      let ic2 = ic1\<lparr>ic_port := port, ic_scheme := (if ic_scheme ic1 = [] then ''https'' else ic_scheme ic1)\<rparr> in
      bindR (if ic_password ic2 = [] then draw else ret (ic_password ic2)) (\<lambda>pw.
      let ic3 = ic2\<lparr>ic_password := pw\<rparr> in
      bindR (lift_result (validate_context ip6 ic3)) (\<lambda>_. ret ic3))))"

definition provision_client :: "bcrypt \<Rightarrow> 'w spec \<Rightarrow> install_context \<Rightarrow> ('r host_scheme, install_context) run" where
  "provision_client bc sp ic =
     (if \<not> sp_oidc sp then ret ic
      else (case sp_redirects sp of
          None \<Rightarrow> throw (Msg (''app '' @ go_quote (ic_name ic) @ '': NeedsOIDC=true but OIDCRedirectURIs is nil''))
        | Some uris \<Rightarrow>
            if uris ic = [] then throw (Msg (''app '' @ go_quote (ic_name ic) @ '': OIDCRedirectURIs returned no entries''))
            else bindR (map_error (Wrap ''provision OIDC client'') (provision bc (ic_name ic) (uris ic))) (\<lambda>pv.
              ret (ic\<lparr>ic_client := pv_client pv, ic_secret := pv_secret pv\<rparr>))))"

definition settings_of :: "'w spec \<Rightarrow> install_context \<Rightarrow> app_settings" where
  "settings_of sp ic = \<lparr>st_subdomain = ic_subdomain ic, st_backend = ''http://127.0.0.1:'' @ format_int (ic_port ic),
     st_preserve_host = sp_preserve sp, st_oidc_gate = sp_gate sp, st_timeout = 0, st_display_name = sp_display sp,
     st_description = sp_description sp, st_icon = sp_icon sp, st_compose_file = ic_compose ic, st_data_root = ic_data ic\<rparr>"

definition run_hook :: "string \<Rightarrow> (install_context \<Rightarrow> ('w, unit) run) option \<Rightarrow> install_context \<Rightarrow> ('w, unit) run" where
  "run_hook what hook ic = (case hook of None \<Rightarrow> ret () | Some f \<Rightarrow> map_error (Wrap what) (f ic))"

definition start_app :: "('r host_scheme) spec \<Rightarrow> install_context \<Rightarrow> ('r host_scheme, unit) run" where
  "start_app sp ic =
     bindR (run_hook ''pre-up'' (sp_pre_up sp) ic) (\<lambda>_.
     bindR (map_error (Wrap ''compose up'') (case ic_orch ic of
        None \<Rightarrow> throw (GoPanic ''nil pointer dereference'') | Some o1 \<Rightarrow> orch_up o1 (ic_compose ic))) (\<lambda>_.
     run_hook ''post-up'' (sp_post_up sp) ic))"

definition install_app ::
  "bcrypt \<Rightarrow> (string \<Rightarrow> string option) \<Rightarrow> install_context option \<Rightarrow> ('r host_scheme) spec option \<Rightarrow>
     ('r host_scheme, install_result) run" where
  "install_app bc ip6 ico spo = (case (ico, spo) of
       (Some ic0, Some sp) \<Rightarrow>
         bindR (resolve_context ip6 sp ic0) (\<lambda>ic1.
         bindR (provision_client bc sp ic1) (\<lambda>ic.
         bindR (map_error (Wrap ''mkdir compose dir'') (mkdir_all (path_dir (ic_compose ic)))) (\<lambda>_.
         bindR (render_compose sp ic) (\<lambda>_.
         bindR (map_error (Wrap ''mkdir data root'') (mkdir_all (ic_data ic))) (\<lambda>_.
         bindR (map_error (Wrap ''save app settings'') (save_settings (ic_name ic) (settings_of sp ic))) (\<lambda>_.
         bindR (start_app sp ic) (\<lambda>_.
         ret \<lparr>ir_app = ic_name ic, ir_compose = ic_compose ic, ir_password = ic_password ic, ir_port = ic_port ic,
           ir_client = ic_client ic, ir_secret = ic_secret ic\<rparr>)))))))
     | _ \<Rightarrow> throw (Msg ''install: nil context or spec''))"

subsection \<open>Waiting ends\<close>

lemma ctx_done_polls:
  "hs_polls w = Some k \<Longrightarrow> ctx_done w = (case k of 0 \<Rightarrow> (Inr True, w) | Suc n \<Rightarrow> (Inr False, w\<lparr>hs_polls := Some n\<rparr>))"
  by (simp add: ctx_done_def)

lemma http_do_polls: "\<exists>x w'. http_do m u b w = (Inr x, w') \<and> hs_polls w' = hs_polls w"
  by (cases "hs_net w") (auto simp: http_do_def)

text \<open>A probe that always answers and leaves the context alone.\<close>

definition steady :: "('r host_scheme, 'a) run \<Rightarrow> bool" where
  "steady m \<longleftrightarrow> (\<forall>w. \<exists>x w'. m w = (Inr x, w') \<and> hs_polls w' = hs_polls w)"

lemma steady_intros:
  "steady (ret x)" "steady (http_do m u b)" "steady m0 \<Longrightarrow> (\<And>x. steady (f x)) \<Longrightarrow> steady (bindR m0 f)"
proof -
  show "steady (ret x)" by (simp add: steady_def ret_run)
  show "steady (http_do m u b)" unfolding steady_def using http_do_polls by blast
  show "steady (bindR m0 f)" if "steady m0" "\<And>x. steady (f x)"
    unfolding steady_def
  proof
    fix w
    note st = that
    obtain x w1 where "m0 w = (Inr x, w1)" "hs_polls w1 = hs_polls w" using st(1) unfolding steady_def by blast
    moreover obtain y w2 where "f x w1 = (Inr y, w2)" "hs_polls w2 = hs_polls w1" using st(2) unfolding steady_def by blast
    ultimately show "\<exists>x w'. bindR m0 f w = (Inr x, w') \<and> hs_polls w' = hs_polls w" by (simp add: bindR_run)
  qed
qed

lemma poll_loop_ends:
  assumes "steady probe"
  shows "hs_polls w = Some k \<Longrightarrow> k < n \<Longrightarrow> (\<exists>x. fst (poll_loop n probe e w) = Inr x) \<or> fst (poll_loop n probe e w) = Inl e"
proof (induction n arbitrary: w k)
  case (Suc n)
  show ?case
  proof (cases k)
    case 0
    then show ?thesis using Suc.prems by (simp add: run_eval ctx_done_polls throw_run)
  next
    case (Suc k')
    obtain x w2 where h: "probe (w\<lparr>hs_polls := Some k'\<rparr>) = (Inr x, w2)" "hs_polls w2 = Some k'"
      using assms unfolding steady_def by (metis host.select_convs(6) host.surjective host.update_convs(6))
    have d: "ctx_done w = (Inr False, w\<lparr>hs_polls := Some k'\<rparr>)"
      using Suc.prems(1) Suc by (simp add: ctx_done_polls)
    show ?thesis
    proof (cases x)
      case None
      show ?thesis
      proof (cases k')
        case 0
        then show ?thesis using d h None by (simp add: run_eval ctx_done_polls throw_run)
      next
        case (Suc k2)
        then show ?thesis
          using Suc.IH [of "w2\<lparr>hs_polls := Some k2\<rparr>" k2] Suc.prems \<open>k = Suc k'\<close> d h None by (simp add: run_eval ctx_done_polls)
      qed
    qed (use d h in \<open>simp add: run_eval ret_run\<close>)
  qed
qed simp

text \<open>Whatever the world is like, a wait under a deadline returns, with success or the cancellation of its
  context; \<^verbatim>\<open>App_Wait\<close> tells which, and when.\<close>

theorem wait_for_returns:
  assumes "url_parse ip6 target \<noteq> None"
  shows "\<exists>r w'. with_timeout n (wait_for ip6 target) w = (r, w') \<and>
    (r = Inr () \<or> r = Inl (Wrap (''wait for '' @ target) ErrCanceled))"
proof -
  let ?k = "case hs_polls w of None \<Rightarrow> n | Some k \<Rightarrow> min n k"
  have "steady (probe_get target :: ('a host_scheme, unit option) run)"
    unfolding probe_get_def by (intro steady_intros)
  then have "fst (wait_for ip6 target (w\<lparr>hs_polls := Some ?k\<rparr>)) = Inr () \<or>
      fst (wait_for ip6 target (w\<lparr>hs_polls := Some ?k\<rparr>)) = Inl (Wrap (''wait for '' @ target) ErrCanceled)"
    using assms poll_loop_ends [of "probe_get target" "w\<lparr>hs_polls := Some ?k\<rparr>" ?k "Suc ?k"]
    by (auto simp: wait_for_def poll_until_def wait_budget_def simp del: poll_loop.simps)
  moreover obtain r w1 where "wait_for ip6 target (w\<lparr>hs_polls := Some ?k\<rparr>) = (r, w1)" by fastforce
  ultimately show ?thesis by (simp add: with_timeout_def Let_def)
qed

subsection \<open>Frames\<close>

text \<open>What an installation must not touch before it has been validated.\<close>

definition host_state :: "'r host_scheme \<Rightarrow> database \<times> (string \<times> fs_node) list \<times> string list list \<times> (string \<times> string \<times> string) list" where
  "host_state w = (w_db w, hs_fs w, hs_cmds w, hs_reqs w)"

lemma frame_ctx_state [preserves_intro]: "frame host_state ctx_done" "frame host_state (port_available p)"
  by (auto simp: frame_def host_state_def ctx_done_def port_available_def run_simps split: option.split nat.split)

lemma frame_scan_state [preserves_intro]: "frame host_state (scan_ports p r ps)"
  by (induction ps) (auto intro!: preserves_intro)

lemma frame_select_state [preserves_intro]: "frame host_state (select_backend_port p r x)"
  unfolding select_backend_port_def by (intro preserves_intro)

lemma frame_resolve_state [preserves_intro]: "frame host_state (resolve_context ip6 sp ic)"
  unfolding resolve_context_def by (intro preserves_intro) (simp add: host_state_def)

lemma select_clock: "select_backend_port p r x w = (res, w') \<Longrightarrow> host_state w' = host_state w"
  by (rule frame_pair [OF frame_select_state])

lemma frame_scan_db [preserves_intro]: "frame w_db (scan_ports p r ps)"
  by (induction ps) (auto intro!: preserves_intro)

lemma frame_select_db [preserves_intro]: "frame w_db (select_backend_port p r x)"
  unfolding select_backend_port_def by (intro preserves_intro)

lemma resolve_context_Inr:
  assumes "resolve_context ip6 sp ic0 w = (Inr ic, w')"
  shows "\<exists>port pw sch w1. select_backend_port (ic_port (default_context sp ic0)) (ic_range (default_context sp ic0))
      (ic_explicit (default_context sp ic0)) w = (Inr port, w1) \<and>
    ic = (default_context sp ic0)\<lparr>ic_port := port, ic_scheme := sch, ic_password := pw\<rparr> \<and>
    validate_context ip6 ic = Inr () \<and> host_state w' = host_state w"
  using assms frame_pair [OF frame_resolve_state assms]
  by (auto simp: resolve_context_def Let_def bindR_Inr_iff ret_run lift_result_run)

lemma validate_port: "0 < port \<Longrightarrow>
    validate_context ip6 (ic\<lparr>ic_port := port, ic_scheme := sch, ic_password := pw\<rparr>) =
    validate_context ip6 (ic\<lparr>ic_port := 1\<rparr>)"
  by (simp add: validate_context_def cong: if_cong option.case_cong)

text \<open>C24: An installation that cannot succeed touches nothing: if the request is invalid (a name, subdomain, path or
  service is missing, or the subdomain is the one of the sign-in server), it ends with an error before a client is
  provisioned, a file is written, a command is run or a request is sent.\<close>

theorem install_refuses_untouched:
  assumes "validate_context ip6 ((default_context sp ic)\<lparr>ic_port := 1\<rparr>) \<noteq> Inr ()"
  shows "\<exists>e w'. install_app bc ip6 (Some ic) (Some sp) w = (Inl e, w') \<and> host_state w' = host_state w"
proof -
  obtain r w1 where r: "resolve_context ip6 sp ic w = (r, w1)" by fastforce
  have "r \<noteq> Inr ic1" for ic1
  proof
    assume "r = Inr ic1"
    then obtain port pw sch w2 where p: "select_backend_port (ic_port (default_context sp ic))
        (ic_range (default_context sp ic)) (ic_explicit (default_context sp ic)) w = (Inr port, w2)"
      "ic1 = (default_context sp ic)\<lparr>ic_port := port, ic_scheme := sch, ic_password := pw\<rparr>"
      "validate_context ip6 ic1 = Inr ()"
      using resolve_context_Inr r by blast
    then show False using assms selected_port_range [OF p(1)] validate_port by simp
  qed
  then obtain e where "r = Inl e" by (cases r) auto
  then show ?thesis using r frame_pair [OF frame_resolve_state r] by (simp add: install_app_def run_eval)
qed

definition sample_app_spec :: "host spec" where
  "sample_app_spec = \<lparr>sp_name = ''blog'', sp_display = ''Blog'', sp_description = [], sp_icon = [], sp_subdomain = ''blog'',
     sp_port = 18080, sp_preserve = True, sp_oidc = True, sp_gate = False,
     sp_redirects = Some (\<lambda>ic. [public_url ic @ ''/cb'']), sp_template = ''port: {{.BackendPort}}'',
     sp_pre_up = None, sp_post_up = None\<rparr>"

definition sample_context :: install_context where
  "sample_context = \<lparr>ic_name = [], ic_subdomain = [], ic_base = ''nas.example'', ic_scheme = [], ic_public_port = [],
     ic_port = 0, ic_range = ''9-12'', ic_explicit = False, ic_data = ''/d/blog'', ic_compose = ''/c/blog/x.yaml'',
     ic_password = [], ic_client = [], ic_secret = [], ic_issuer = ''https://auth.nas.example'', ic_db = True,
     ic_orch = Some (new_orchestrator ''/c'' [])\<rparr>"

lemma install_refuses_untouched_witness:
  "\<exists>e w'. install_app sample_bcrypt (\<lambda>_. None) (Some (sample_context\<lparr>ic_subdomain := ''Auth''\<rparr>)) (Some sample_app_spec)
     sample_host = (Inl e, w') \<and> host_state w' = host_state sample_host"
  by (rule install_refuses_untouched) code_simp

subsection \<open>What a finished installation leaves\<close>

lemma upsert_app_spec:
  assumes "upsert_app n st t d = Inr ((), d')"
  shows "(\<exists>a. app_by n d' = Some a \<and> ap_enabled a = 1 \<and> (case st of None \<Rightarrow> True | Some s \<Rightarrow> ap_settings a = s)) \<and>
    (\<forall>m. m \<noteq> n \<longrightarrow> app_by m d' = app_by m d) \<and> db_clients d' = db_clients d"
proof (cases "n \<in> ap_name ` set (db_apps d)")
  case True
  define f where "f = (\<lambda>a :: app_row. a\<lparr>ap_enabled := 1, ap_settings := (case st of None \<Rightarrow> ap_settings a | Some s \<Rightarrow> s), ap_enabled_at := Some t\<rparr>)"
  have d': "d' = d\<lparr>db_apps := map (\<lambda>a. if ap_name a = n then f a else a) (db_apps d)\<rparr>"
    using assms True unfolding upsert_app_def f_def by auto
  have by_map: "app_by m d' = map_option (\<lambda>a. if ap_name a = n then f a else a) (app_by m d)" for m
    unfolding d' app_by_def by (simp add: row_by_map [where key = ap_name] f_def)
  obtain r where "app_by n d = Some r" "ap_name r = n"
    using True by (metis app_by_def not_None_eq row_by_None row_by_Some)
  moreover have "ap_name r \<noteq> n" if "app_by m d = Some r" "m \<noteq> n" for m r
    using that by (auto simp: app_by_def dest: row_by_Some)
  moreover have "db_clients d' = db_clients d" by (simp add: d')
  ultimately show ?thesis
    by (cases st) (auto simp: by_map f_def map_option_case split: option.split)
next
  case False
  then show ?thesis
    using assms by (cases st) (auto simp: upsert_app_def app_by_def row_by_append row_by_not_in split: option.split)
qed

lemma save_settings_Inr:
  assumes "save_settings n st w = (Inr u, w')"
  shows "(\<exists>a. app_by n (w_db w') = Some a \<and> ap_enabled a = 1 \<and> ap_settings a = Json st) \<and>
    (\<forall>m. m \<noteq> n \<longrightarrow> app_by m (w_db w') = app_by m (w_db w)) \<and> db_clients (w_db w') = db_clients (w_db w)"
proof -
  obtain t where "upsert_app n (Some (Json st)) t (w_db w) = Inr ((), w_db w')"
    using assms by (auto simp: save_settings_def bindR_Inr_iff now_run dest!: exec_InrD)
  then show ?thesis by (auto dest!: upsert_app_spec)
qed

lemma ins_client_apps: "ins_client r d = Inr (u, d') \<Longrightarrow> db_apps d' = db_apps d"
  by (auto simp: ins_client_def split: if_splits)

lemma provision_client_Inr:
  assumes "provision_client bc sp ic1 w = (Inr ic, w')"
  shows "(\<exists>cid sec. ic = ic1\<lparr>ic_client := cid, ic_secret := sec\<rparr>) \<and>
    (\<forall>n. n \<noteq> ic_name ic \<longrightarrow> app_by n (w_db w') = app_by n (w_db w)) \<and>
    (if sp_oidc sp then \<exists>uris salt h. sp_redirects sp = Some uris \<and> bc_gen bc salt (ic_secret ic) = Some h \<and>
        client_by (ic_client ic) (w_db w') = Some (new_client_row (ic_client ic) (ic_name ic) h (uris ic1))
     else w' = w)"
proof (cases "sp_oidc sp")
  case False
  then have "ic = ic1 \<and> w' = w" using assms by (simp add: provision_client_def ret_run)
  moreover have "ic1 = ic1\<lparr>ic_client := ic_client ic1, ic_secret := ic_secret ic1\<rparr>" by simp
  ultimately show ?thesis using False by metis
next
  case True
  then obtain uris pv where u: "sp_redirects sp = Some uris" "provision bc (ic_name ic1) (uris ic1) w = (Inr pv, w')"
      "ic = ic1\<lparr>ic_client := pv_client pv, ic_secret := pv_secret pv\<rparr>"
    using assms by (auto simp: provision_client_def bindR_Inr_iff ret_run throw_run split: option.splits if_splits)
  obtain salt h d where p: "bc_gen bc salt (pv_secret pv) = Some h"
      "upsert_app (ic_name ic1) None (w_clock w) (w_db w) = Inr ((), d)"
      "ins_client (new_client_row (pv_client pv) (ic_name ic1) h (uris ic1)) d = Inr ((), w_db w')"
    using provision_Inr [OF u(2)] by blast
  have "app_by n (w_db w') = app_by n (w_db w)" if "n \<noteq> ic_name ic1" for n
    using upsert_app_spec [OF p(2)] ins_client_apps [OF p(3)] that by (simp add: app_by_def)
  moreover have "client_by (pv_client pv) (w_db w') = Some (new_client_row (pv_client pv) (ic_name ic1) h (uris ic1))"
    using clients.inserted_found [OF p(3)] by (simp add: new_client_row_def)
  ultimately show ?thesis using True u(1,3) p(1) by auto
qed

lemma frame_render [preserves_intro]: "frame w_db (render_compose sp ic)"
  unfolding render_compose_def by (intro preserves_intro)

definition hooks_keep_db :: "('r host_scheme) spec \<Rightarrow> bool" where
  "hooks_keep_db sp \<longleftrightarrow> (\<forall>f ic. sp_pre_up sp = Some f \<or> sp_post_up sp = Some f \<longrightarrow> frame w_db (f ic))"

lemma frame_start_app:
  assumes "hooks_keep_db sp"
  shows "frame w_db (start_app sp ic)"
proof -
  have "frame w_db (run_hook what (sp_pre_up sp) ic)" "frame w_db (run_hook what (sp_post_up sp) ic)" for what
    using assms by (cases "sp_pre_up sp"; cases "sp_post_up sp"; auto simp: hooks_keep_db_def run_hook_def intro!: preserves_intro)+
  then show ?thesis unfolding start_app_def by (intro preserves_intro)
qed

text \<open>C25: A finished installation is published as it was built: the app's row is enabled and its settings send the proxy
  to the very port the app was given, which was free; if the app signs users in, its client is in the database
  with the redirect URIs of the app and a hash of the secret that was handed out; no other app is touched. The hooks
  must leave nass's database alone.\<close>

theorem install_publishes:
  assumes "install_app bc ip6 (Some ic0) (Some sp) w = (Inr res, w')"
    and "hooks_keep_db sp"
  shows "\<exists>a ic. app_by (ir_app res) (w_db w') = Some a \<and> ap_enabled a = 1 \<and> ap_settings a = Json (settings_of sp ic) \<and>
    ir_app res = ic_name (default_context sp ic0) \<and> ic_subdomain ic = ic_subdomain (default_context sp ic0) \<and>
    ic_port ic = ir_port res \<and> st_backend (settings_of sp ic) = ''http://127.0.0.1:'' @ format_int (ir_port res) \<and>
    ir_port res \<notin> hs_busy w \<and>
    (sp_oidc sp \<longrightarrow> (\<exists>row salt uris ic2. client_by (ir_client res) (w_db w') = Some row \<and> cl_app row = ir_app res \<and>
       sp_redirects sp = Some uris \<and> cl_redirects row = Json (uris ic2) \<and> public_url ic2 = public_url ic \<and>
       bc_gen bc salt (ir_secret res) = Some (cl_secret_hash row))) \<and>
    (\<forall>n. n \<noteq> ir_app res \<longrightarrow> app_by n (w_db w') = app_by n (w_db w))"
proof -
  obtain ic1 ic w1 w2 w3 w4 w5 w6 where steps:
    "resolve_context ip6 sp ic0 w = (Inr ic1, w1)" "provision_client bc sp ic1 w1 = (Inr ic, w2)"
    "mkdir_all (path_dir (ic_compose ic)) w2 = (Inr (), w3)" "render_compose sp ic w3 = (Inr (), w4)"
    "mkdir_all (ic_data ic) w4 = (Inr (), w5)" "save_settings (ic_name ic) (settings_of sp ic) w5 = (Inr (), w6)"
    "start_app sp ic w6 = (Inr (), w')"
    "res = \<lparr>ir_app = ic_name ic, ir_compose = ic_compose ic, ir_password = ic_password ic, ir_port = ic_port ic,
       ir_client = ic_client ic, ir_secret = ic_secret ic\<rparr>"
    using assms(1) by (auto simp: install_app_def bindR_Inr_iff ret_run)
  obtain port pw sch w0 where r: "select_backend_port (ic_port (default_context sp ic0)) (ic_range (default_context sp ic0))
      (ic_explicit (default_context sp ic0)) w = (Inr port, w0)"
    "ic1 = (default_context sp ic0)\<lparr>ic_port := port, ic_scheme := sch, ic_password := pw\<rparr>" "w_db w1 = w_db w"
    using resolve_context_Inr [OF steps(1)] by (auto simp: host_state_def)
  have free: "port \<notin> hs_busy w" by (rule selected_free [OF r(1)])
  note pc = provision_client_Inr [OF steps(2)]
  have db: "w_db w5 = w_db w2" "w_db w' = w_db w6"
    using frame_pair [OF frame_files_db(1) steps(3)] frame_pair [OF frame_render steps(4)]
      frame_pair [OF frame_files_db(1) steps(5)] frame_pair [OF frame_start_app [OF assms(2)] steps(7)] by simp_all
  note st = save_settings_Inr [OF steps(6), unfolded db(1)]
  have cl: "client_by c (w_db w') = client_by c (w_db w2)" for c using st db(2) by (simp add: client_by_def)
  have same: "ic_name ic = ic_name ic1" "public_url ic1 = public_url ic" "ic_port ic = port"
      "ic_subdomain ic = ic_subdomain (default_context sp ic0)" "ic_name ic1 = ic_name (default_context sp ic0)"
    using pc r(2) by (auto simp: public_url_def public_host_def)
  have oidc: "sp_oidc sp \<longrightarrow> (\<exists>row salt uris ic2. client_by (ir_client res) (w_db w') = Some row \<and> cl_app row = ir_app res \<and>
       sp_redirects sp = Some uris \<and> cl_redirects row = Json (uris ic2) \<and> public_url ic2 = public_url ic \<and>
       bc_gen bc salt (ir_secret res) = Some (cl_secret_hash row))"
  proof
    assume "sp_oidc sp"
    then obtain uris salt h where "sp_redirects sp = Some uris" "bc_gen bc salt (ic_secret ic) = Some h"
        "client_by (ic_client ic) (w_db w2) = Some (new_client_row (ic_client ic) (ic_name ic) h (uris ic1))"
      using pc by auto
    then show "\<exists>row salt uris ic2. client_by (ir_client res) (w_db w') = Some row \<and> cl_app row = ir_app res \<and>
       sp_redirects sp = Some uris \<and> cl_redirects row = Json (uris ic2) \<and> public_url ic2 = public_url ic \<and>
       bc_gen bc salt (ir_secret res) = Some (cl_secret_hash row)"
      using cl steps(8) same(2)
      by (intro exI [of _ "new_client_row (ic_client ic) (ic_name ic) h (uris ic1)"] exI [of _ salt] exI [of _ uris] exI [of _ ic1])
        (simp add: new_client_row_def)
  qed
  obtain a where a: "app_by (ic_name ic) (w_db w6) = Some a" "ap_enabled a = 1" "ap_settings a = Json (settings_of sp ic)"
    using st by blast
  have others: "\<forall>n. n \<noteq> ic_name ic \<longrightarrow> app_by n (w_db w') = app_by n (w_db w)"
    using st pc r(3) db(2) by simp
  show ?thesis
    using a oidc others same free db(2) steps(8) by (intro exI [of _ a] exI [of _ ic]) (simp add: settings_of_def)
qed

definition sample_install :: "(error + install_result) \<times> host" where
  "sample_install = install_app sample_bcrypt (\<lambda>_. None) (Some sample_context) (Some sample_app_spec) sample_host"

lemma sample_install_run:
  "install_app sample_bcrypt (\<lambda>_. None) (Some sample_context) (Some sample_app_spec) sample_host =
     (Inr \<lparr>ir_app = ''blog'', ir_compose = ''/c/blog/x.yaml'', ir_password = ''aa'', ir_port = 9, ir_client = ''bb'', ir_secret = ''cc''\<rparr>,
      snd sample_install)"
  by code_simp

lemma install_publishes_witness:
  "\<exists>a. app_by ''blog'' (w_db (snd sample_install)) = Some a \<and> ap_enabled a = 1"
proof -
  have "hooks_keep_db sample_app_spec" by (simp add: hooks_keep_db_def sample_app_spec_def)
  from install_publishes [OF sample_install_run this] show ?thesis by auto
qed

end
