(* ===== verification/App_Modules.thy ===== *)
theory App_Modules
  imports App_Install
begin

text \<open>
  The app modules (\<^verbatim>\<open>internal/apps/*/\<close>) but the two with an algorithm of their own: their specifications,
  redirect URIs and hooks, in the order of the directory. The text of a compose file or of an embedded
  script is an argument (\<open>template\<close>, \<open>py\<close>); the address of the host that jitsi advertises (\<open>host_ip\<close>, what a UDP
  socket reports) and the driver that opens Calibre-Web's own database (\<open>seed\<close>) are too. A timeout of \<open>n\<close>
  seconds with polls every two seconds is \<open>n\<close> polls of the context (\<open>poll_until\<close> polls twice per round).
\<close>

subsection \<open>What the hooks share\<close>

definition local_url :: "install_context \<Rightarrow> string \<Rightarrow> string" where
  "local_url ic path = ''http://127.0.0.1:'' @ format_int (ic_port ic) @ path"

definition wait_app :: "(string \<Rightarrow> string option) \<Rightarrow> nat \<Rightarrow> string \<Rightarrow> ('r host_scheme, unit) run" where
  "wait_app ip6 secs target = with_timeout secs (wait_for ip6 target)"

definition with_orch :: "install_context \<Rightarrow> (orchestrator \<Rightarrow> ('w, 'a) run) \<Rightarrow> ('w, 'a) run" where
  "with_orch ic f = (case ic_orch ic of None \<Rightarrow> throw (GoPanic ''nil pointer dereference'') | Some o1 \<Rightarrow> f o1)"

definition restart_app :: "install_context \<Rightarrow> ('r host_scheme, string) run" where
  "restart_app ic = with_orch ic (\<lambda>o1. orch_restart o1 (ic_compose ic))"

definition exec_in :: "install_context \<Rightarrow> string \<Rightarrow> string list \<Rightarrow> ('r host_scheme, string \<times> error option) run" where
  "exec_in ic service args = with_orch ic (\<lambda>o1. orch_exec o1 (ic_compose ic) service args)"

definition exec_in_as :: "install_context \<Rightarrow> string \<Rightarrow> string \<Rightarrow> string list \<Rightarrow> ('r host_scheme, string \<times> error option) run" where
  "exec_in_as ic service usr args = with_orch ic (\<lambda>o1. orch_exec_as o1 (ic_compose ic) service usr args)"

text \<open>\<open>waitForFile\<close>: one look per second, one poll of the deadline after each that finds nothing.\<close>

fun wait_file_loop :: "nat \<Rightarrow> string \<Rightarrow> ('r host_scheme, unit) run" where
  "wait_file_loop 0 p = throw diverges"
| "wait_file_loop (Suc n) p =
     bindR (attempt (file_exists p)) (\<lambda>r.
     if r = Inr True then ret ()
     else bindR ctx_done (\<lambda>done. if done then throw ErrCanceled else wait_file_loop n p))"

definition wait_for_file :: "nat \<Rightarrow> string \<Rightarrow> ('r host_scheme, unit) run" where
  "wait_for_file secs p = with_timeout secs (\<lambda>w. wait_file_loop (wait_budget w) p w)"

definition post_json :: "string \<Rightarrow> string \<Rightarrow> ('r host_scheme, unit) run" where
  "post_json target body = bindR (http_do ''POST'' target body) (\<lambda>rep. case rep of
       NetFail \<Rightarrow> throw (Msg (''Post '' @ go_quote target @ '': connection refused''))
     | NetReply st ct b \<Rightarrow>
         if 400 \<le> st then throw (Msg (''status '' @ format_int st @ '': '' @ trim_space b)) else ret ())"

text \<open>Replacing every quote character by two: \<open>strings.ReplaceAll(s, "'", "''")\<close>.\<close>

definition sql_quote :: "string \<Rightarrow> string" where
  "sql_quote s = replace_char (CHR 0x27) [CHR 0x27, CHR 0x27] s"

subsection \<open>Blinko\<close>

definition blinko_redirects :: "install_context \<Rightarrow> string list" where
  "blinko_redirects ic = [public_url ic @ ''/api/auth/callback/nass'']"

definition blinko_config :: "install_context \<Rightarrow> jval" where
  "blinko_config ic = JObj [(''type'', JStr ''object''), (''value'', JArr [JObj [
     (''id'', JStr ''nass''), (''name'', JStr ''nass''), (''icon'', JStr ''tabler:server''),
     (''wellKnown'', JStr (discovery_url ic)), (''scope'', JStr ''openid profile email''),
     (''authorizationUrl'', JStr []), (''tokenUrl'', JStr []), (''userinfoUrl'', JStr []),
     (''clientId'', JStr (ic_client ic)), (''clientSecret'', JStr (ic_secret ic))]])]"

definition oauth_provider_sql :: "install_context \<Rightarrow> string" where
  "oauth_provider_sql ic =
     ''DELETE FROM config WHERE key = '' @ [CHR 0x27] @ ''oauth2Providers'' @ [CHR 0x27]
     @ ''; INSERT INTO config (key, config) VALUES ('' @ [CHR 0x27] @ ''oauth2Providers'' @ [CHR 0x27] @ '', '' @ [CHR 0x27]
     @ sql_quote (json_write (blinko_config ic)) @ [CHR 0x27] @ '');''"

text \<open>The loop has no deadline of its own: \<open>ctx\<close> is the installation's context.\<close>

fun seed_loop :: "nat \<Rightarrow> install_context \<Rightarrow> string \<Rightarrow> ('r host_scheme, unit) run" where
  "seed_loop 0 ic sql = throw diverges"
| "seed_loop (Suc n) ic sql =
     bindR (exec_in ic ''postgres'' [''psql'', ''-U'', ''postgres'', ''-d'', ''postgres'', ''-c'', sql]) (\<lambda>(out, e).
     case e of
       None \<Rightarrow> ret ()
     | Some x \<Rightarrow> bindR ctx_done (\<lambda>done.
         if done then throw (Wrap (error_text ErrCanceled) x) else seed_loop n ic sql))"

definition seed_budget :: "'r host_scheme \<Rightarrow> nat" where
  "seed_budget w = (case hs_polls w of Some k \<Rightarrow> Suc k | None \<Rightarrow> Suc (length (hs_outs w)))"

definition seed_oauth_provider :: "install_context \<Rightarrow> ('r host_scheme, unit) run" where
  "seed_oauth_provider ic w = seed_loop (seed_budget w) ic (oauth_provider_sql ic) w"

definition blinko_post_up :: "(string \<Rightarrow> string option) \<Rightarrow> install_context \<Rightarrow> ('r host_scheme, unit) run" where
  "blinko_post_up ip6 ic =
     bindR (map_error (Wrap ''wait for blinko'') (wait_app ip6 300 (local_url ic []))) (\<lambda>_.
     bindR (map_error (Wrap ''seed blinko oauth config'') (seed_oauth_provider ic)) (\<lambda>_.
     bindR (map_error (Wrap ''restart blinko'') (restart_app ic)) (\<lambda>_.
     wait_app ip6 120 (local_url ic []))))"

definition blinko_spec :: "(string \<Rightarrow> string option) \<Rightarrow> string \<Rightarrow> ('r host_scheme) spec" where
  "blinko_spec ip6 template = \<lparr>sp_name = ''blinko'', sp_display = ''Blinko'', sp_description = ''AI note-taking'',
     sp_icon = [CHR 0xF0, CHR 0x9F, CHR 0x93, CHR 0x9D], sp_subdomain = ''blinko'', sp_port = 11111, sp_preserve = True, sp_oidc = True, sp_gate = False,
     sp_redirects = Some blinko_redirects, sp_template = template, sp_pre_up = None,
     sp_post_up = Some (blinko_post_up ip6)\<rparr>"

subsection \<open>Calibre-Web Automated\<close>

definition calibreweb_redirects :: "install_context \<Rightarrow> string list" where
  "calibreweb_redirects ic = [public_url ic @ ''/login/generic/authorized'']"

text \<open>The two tables of the app's own database that nass writes.\<close>

record cwa_settings =
  cs_login_type :: int
  cs_redirect_host :: string

record cwa_provider =
  cp_name :: string
  cp_client :: string
  cp_secret :: string
  cp_metadata :: string
  cp_scope :: string
  cp_username :: string
  cp_email :: string
  cp_button :: string
  cp_admin_group :: string
  cp_active :: int

record cwa_db =
  cd_settings :: "cwa_settings list"
  cd_providers :: "cwa_provider list"

definition cwa_generic :: "install_context \<Rightarrow> cwa_provider" where
  "cwa_generic ic = \<lparr>cp_name = ''generic'', cp_client = ic_client ic, cp_secret = ic_secret ic, cp_metadata = discovery_url ic,
     cp_scope = ''openid profile email groups'', cp_username = ''preferred_username'', cp_email = ''email'',
     cp_button = ''nass'', cp_admin_group = ''admin'', cp_active = 1\<rparr>"

definition seed_oidc_config :: "install_context \<Rightarrow> cwa_db \<Rightarrow> cwa_db" where
  "seed_oidc_config ic d =
     (let d1 = d\<lparr>cd_settings := map (\<lambda>s. s\<lparr>cs_login_type := 2, cs_redirect_host := public_url ic\<rparr>) (cd_settings d)\<rparr>;
          d2 = d1\<lparr>cd_providers := map (\<lambda>p. if cp_name p = ''generic'' then cwa_generic ic else p) (cd_providers d1)\<rparr>
      in if list_ex (\<lambda>p. cp_name p = ''generic'') (cd_providers d2) then d2
         else d2\<lparr>cd_providers := cd_providers d2 @ [cwa_generic ic]\<rparr>)"

definition calibreweb_post_up ::
  "(string \<Rightarrow> string option) \<Rightarrow> (string \<Rightarrow> (cwa_db \<Rightarrow> cwa_db) \<Rightarrow> ('r host_scheme, unit) run) \<Rightarrow> install_context \<Rightarrow>
     ('r host_scheme, unit) run" where
  "calibreweb_post_up ip6 seed ic =
     (let db = path_join [ic_data ic, ''config'', ''app.db''] in
      bindR (map_error (Wrap ''wait for calibre-web automated'') (wait_app ip6 300 (local_url ic []))) (\<lambda>_.
      bindR (map_error (Wrap ''wait for app.db'') (wait_for_file 120 db)) (\<lambda>_.
      bindR (map_error (Wrap ''seed calibre-web automated oidc config'') (seed db (seed_oidc_config ic))) (\<lambda>_.
      bindR (map_error (Wrap ''restart calibre-web automated'') (restart_app ic)) (\<lambda>_.
      wait_app ip6 120 (local_url ic []))))))"

definition calibreweb_spec :: "(string \<Rightarrow> string option) \<Rightarrow> (string \<Rightarrow> (cwa_db \<Rightarrow> cwa_db) \<Rightarrow> ('r host_scheme, unit) run) \<Rightarrow> string \<Rightarrow> ('r host_scheme) spec" where
  "calibreweb_spec ip6 seed template = \<lparr>sp_name = ''calibreweb'', sp_display = ''Calibre-Web Automated'', sp_description = ''Automated e-book library manager'',
     sp_icon = [CHR 0xF0, CHR 0x9F, CHR 0x93, CHR 0x9A], sp_subdomain = ''calibre'', sp_port = 18083, sp_preserve = True, sp_oidc = True, sp_gate = False,
     sp_redirects = Some calibreweb_redirects, sp_template = template, sp_pre_up = None,
     sp_post_up = Some (calibreweb_post_up ip6 seed)\<rparr>"

subsection \<open>Firefly III\<close>

definition firefly_env :: "install_context \<Rightarrow> string" where
  "firefly_env ic = path_join [ic_data ic, ''firefly.env'']"

definition firefly_body :: "string \<Rightarrow> string \<Rightarrow> string" where
  "firefly_body key cron = ''APP_KEY='' @ key @ [CHR 0x0A] @ ''STATIC_CRON_TOKEN='' @ cron @ [CHR 0x0A]"

definition firefly_pre_up :: "install_context \<Rightarrow> ('r host_scheme, unit) run" where
  "firefly_pre_up ic =
     bindR (attempt (file_exists (firefly_env ic))) (\<lambda>r.
     if r = Inr True then ret ()
     else bindR (map_error (Wrap ''APP_KEY'') draw) (\<lambda>key.
          bindR (map_error (Wrap ''STATIC_CRON_TOKEN'') draw) (\<lambda>cron.
          write_file (firefly_env ic) (firefly_body key cron))))"

definition firefly_post_up :: "(string \<Rightarrow> string option) \<Rightarrow> install_context \<Rightarrow> ('r host_scheme, unit) run" where
  "firefly_post_up ip6 ic = map_error (Wrap ''wait for firefly'') (wait_app ip6 300 (local_url ic ''/''))"

definition firefly_spec :: "(string \<Rightarrow> string option) \<Rightarrow> string \<Rightarrow> ('r host_scheme) spec" where
  "firefly_spec ip6 template = \<lparr>sp_name = ''firefly'', sp_display = ''Firefly III'', sp_description = ''Personal finance manager'',
     sp_icon = [CHR 0xF0, CHR 0x9F, CHR 0x92, CHR 0xB0], sp_subdomain = ''firefly'', sp_port = 18030, sp_preserve = True, sp_oidc = False, sp_gate = True,
     sp_redirects = None, sp_template = template, sp_pre_up = Some firefly_pre_up,
     sp_post_up = Some (firefly_post_up ip6)\<rparr>"

subsection \<open>Gitea\<close>

definition gitea_redirects :: "install_context \<Rightarrow> string list" where
  "gitea_redirects ic = [public_url ic @ ''/user/oauth2/nass/callback'']"

definition already_exists :: "string \<Rightarrow> error option \<Rightarrow> bool" where
  "already_exists out e =
     (let t = to_lower out @ (case e of None \<Rightarrow> [] | Some x \<Rightarrow> [CHR 0x0A] @ to_lower (error_text x))
      in contains_str t ''already exist'' \<or> contains_str t ''already been taken'' \<or> contains_str t ''duplicate'')"

definition gitea_command :: "string \<Rightarrow> install_context \<Rightarrow> string list \<Rightarrow> ('r host_scheme, unit) run" where
  "gitea_command what ic args = bindR (exec_in_as ic ''gitea'' ''git'' args) (\<lambda>(out, e). case e of
       None \<Rightarrow> ret ()
     | Some x \<Rightarrow> if already_exists out e then ret () else throw (Wrap what x))"

definition create_admin_user :: "install_context \<Rightarrow> ('r host_scheme, unit) run" where
  "create_admin_user ic = gitea_command ''create gitea admin user'' ic
     [''gitea'', ''admin'', ''user'', ''create'', ''--username'', ''admin'', ''--password'', ic_password ic,
      ''--email'', ''admin@'' @ ic_base ic, ''--admin'', ''--must-change-password=false'']"

definition add_oidc_provider :: "install_context \<Rightarrow> ('r host_scheme, unit) run" where
  "add_oidc_provider ic = gitea_command ''add gitea OIDC provider'' ic
     [''gitea'', ''admin'', ''auth'', ''add-oauth'', ''--name'', ''nass'', ''--provider'', ''openidConnect'',
      ''--key'', ic_client ic, ''--secret'', ic_secret ic, ''--auto-discover-url'', discovery_url ic,
      ''--scopes'', ''email profile groups'', ''--group-claim-name'', ''groups'', ''--admin-group'', ''admin'', ''--skip-local-2fa'']"

definition gitea_post_up :: "(string \<Rightarrow> string option) \<Rightarrow> install_context \<Rightarrow> ('r host_scheme, unit) run" where
  "gitea_post_up ip6 ic =
     bindR (map_error (Wrap ''wait for gitea'') (wait_app ip6 300 (local_url ic ''/''))) (\<lambda>_.
     bindR (create_admin_user ic) (\<lambda>_. add_oidc_provider ic))"

definition gitea_spec :: "(string \<Rightarrow> string option) \<Rightarrow> string \<Rightarrow> ('r host_scheme) spec" where
  "gitea_spec ip6 template = \<lparr>sp_name = ''gitea'', sp_display = ''Gitea'', sp_description = ''Lightweight Git hosting'',
     sp_icon = [CHR 0xF0, CHR 0x9F, CHR 0x90, CHR 0x99], sp_subdomain = ''gitea'', sp_port = 13000, sp_preserve = True, sp_oidc = True, sp_gate = False,
     sp_redirects = Some gitea_redirects, sp_template = template, sp_pre_up = None,
     sp_post_up = Some (gitea_post_up ip6)\<rparr>"

subsection \<open>Immich\<close>

definition immich_redirects :: "install_context \<Rightarrow> string list" where
  "immich_redirects ic = [public_url ic @ ''/auth/login'']"

definition immich_config :: "install_context \<Rightarrow> jval" where
  "immich_config ic = JObj [
     (''oauth'', JObj [(''autoLaunch'', JBool True), (''autoRegister'', JBool True), (''buttonText'', JStr ''Sign in with SSO''),
        (''clientId'', JStr (ic_client ic)), (''clientSecret'', JStr (ic_secret ic)), (''defaultStorageQuota'', JNum ''0''),
        (''enabled'', JBool True), (''issuerUrl'', JStr (discovery_url ic)), (''mobileOverrideEnabled'', JBool False),
        (''mobileRedirectUri'', JStr []), (''profileSigningAlgorithm'', JStr ''none''), (''scope'', JStr ''openid email profile''),
        (''signingAlgorithm'', JStr ''RS256''), (''storageLabelClaim'', JStr ''preferred_username''),
        (''storageQuotaClaim'', JStr ''immich_quota'')]),
     (''passwordLogin'', JObj [(''enabled'', JBool True)]),
     (''server'', JObj [(''externalDomain'', JStr (public_url ic)), (''loginPageMessage'', JStr []), (''publicUsers'', JBool True)])]"

definition immich_pre_up :: "install_context \<Rightarrow> ('r host_scheme, unit) run" where
  "immich_pre_up ic =
     (let path = path_join [path_dir (ic_compose ic), ''immich-config.json''] in
      map_error (Wrap (''write '' @ path)) (write_file path (json_indent 0 (immich_config ic))))"

definition probe_immich :: "string \<Rightarrow> ('r host_scheme, unit option) run" where
  "probe_immich base = bindR (http_do ''GET'' (base @ ''/api/server/config'') []) (\<lambda>rep. ret (case rep of
       NetFail \<Rightarrow> None
     | NetReply st ct body \<Rightarrow> if contains_str body ''isInitialized'' then Some () else None))"

definition is_initialized :: "string \<Rightarrow> ('r host_scheme, bool) run" where
  "is_initialized base = bindR (http_do ''GET'' (base @ ''/api/server/config'') []) (\<lambda>rep. case rep of
       NetFail \<Rightarrow> throw (Msg (''Get '' @ go_quote (base @ ''/api/server/config'') @ '': connection refused''))
     | NetReply st ct body \<Rightarrow> (case json_first body of
         None \<Rightarrow> throw (Msg ''invalid JSON'')
       | Some v \<Rightarrow> (case bool_field ''isInitialized'' v of None \<Rightarrow> throw (Msg ''invalid JSON'') | Some b \<Rightarrow> ret b)))"

definition immich_post_up :: "install_context \<Rightarrow> ('r host_scheme, unit) run" where
  "immich_post_up ic =
     (let base = local_url ic [] in
      bindR (map_error (Wrap ''wait for immich'') (with_timeout 300 (poll_until (probe_immich base) ErrCanceled))) (\<lambda>_.
      bindR (map_error (Wrap ''check init state'') (is_initialized base)) (\<lambda>done.
      if done then ret ()
      else map_error (Wrap ''admin signup'') (post_json (base @ ''/api/auth/admin-sign-up'')
        (json_write (JObj [(''email'', JStr ''admin@admin''), (''name'', JStr ''admin''), (''password'', JStr (ic_password ic))]))))))"

definition immich_spec :: "string \<Rightarrow> ('r host_scheme) spec" where
  "immich_spec template = \<lparr>sp_name = ''immich'', sp_display = ''Immich'', sp_description = ''Photos and videos'',
     sp_icon = [CHR 0xF0, CHR 0x9F, CHR 0x93, CHR 0xB7], sp_subdomain = ''immich'', sp_port = 18283, sp_preserve = True, sp_oidc = True, sp_gate = False,
     sp_redirects = Some immich_redirects, sp_template = template, sp_pre_up = Some immich_pre_up,
     sp_post_up = Some immich_post_up\<rparr>"

subsection \<open>Jitsi Meet\<close>

definition jitsi_pre_up :: "error + string \<Rightarrow> install_context \<Rightarrow> ('r host_scheme, unit) run" where
  "jitsi_pre_up host_ip ic = bindR (map_error (Wrap ''detect host IP'') (lift_result host_ip)) (\<lambda>ip.
     write_file (path_join [path_dir (ic_compose ic), ''.env'']) (''JITSI_DOCKER_HOST_ADDRESS='' @ ip @ [CHR 0x0A]))"

definition jitsi_post_up :: "(string \<Rightarrow> string option) \<Rightarrow> install_context \<Rightarrow> ('r host_scheme, unit) run" where
  "jitsi_post_up ip6 ic = map_error (Wrap ''wait for jitsi'') (wait_app ip6 300 (local_url ic ''/''))"

definition jitsi_spec :: "(string \<Rightarrow> string option) \<Rightarrow> (error + string) \<Rightarrow> string \<Rightarrow> ('r host_scheme) spec" where
  "jitsi_spec ip6 host_ip template = \<lparr>sp_name = ''jitsi'', sp_display = ''Jitsi Meet'', sp_description = ''Video conferencing in the browser'',
     sp_icon = [CHR 0xF0, CHR 0x9F, CHR 0x8E, CHR 0xA5], sp_subdomain = ''meet'', sp_port = 18060, sp_preserve = True, sp_oidc = False, sp_gate = True,
     sp_redirects = None, sp_template = template, sp_pre_up = Some (jitsi_pre_up host_ip),
     sp_post_up = Some (jitsi_post_up ip6)\<rparr>"

subsection \<open>Linkwarden, Miniflux, Vaultwarden\<close>

definition linkwarden_redirects :: "install_context \<Rightarrow> string list" where
  "linkwarden_redirects ic = [public_url ic @ ''/api/v1/auth/callback/authelia'']"

definition linkwarden_post_up :: "(string \<Rightarrow> string option) \<Rightarrow> install_context \<Rightarrow> ('r host_scheme, unit) run" where
  "linkwarden_post_up ip6 ic = map_error (Wrap ''wait for linkwarden'') (wait_app ip6 300 (local_url ic ''/''))"

definition linkwarden_spec :: "(string \<Rightarrow> string option) \<Rightarrow> string \<Rightarrow> ('r host_scheme) spec" where
  "linkwarden_spec ip6 template = \<lparr>sp_name = ''linkwarden'', sp_display = ''Linkwarden'', sp_description = ''Bookmark and web archive manager'',
     sp_icon = [CHR 0xF0, CHR 0x9F, CHR 0x94, CHR 0x96], sp_subdomain = ''linkwarden'', sp_port = 13001, sp_preserve = True, sp_oidc = True, sp_gate = False,
     sp_redirects = Some linkwarden_redirects, sp_template = template, sp_pre_up = None,
     sp_post_up = Some (linkwarden_post_up ip6)\<rparr>"

definition miniflux_redirects :: "install_context \<Rightarrow> string list" where
  "miniflux_redirects ic = [public_url ic @ ''/oauth2/oidc/callback'']"

definition miniflux_post_up :: "(string \<Rightarrow> string option) \<Rightarrow> install_context \<Rightarrow> ('r host_scheme, unit) run" where
  "miniflux_post_up ip6 ic = map_error (Wrap ''wait for miniflux'') (wait_app ip6 300 (local_url ic ''/healthcheck''))"

definition miniflux_spec :: "(string \<Rightarrow> string option) \<Rightarrow> string \<Rightarrow> ('r host_scheme) spec" where
  "miniflux_spec ip6 template = \<lparr>sp_name = ''miniflux'', sp_display = ''Miniflux'', sp_description = ''Minimalist RSS reader'',
     sp_icon = [CHR 0xF0, CHR 0x9F, CHR 0x93, CHR 0xB0], sp_subdomain = ''miniflux'', sp_port = 18070, sp_preserve = True, sp_oidc = True, sp_gate = False,
     sp_redirects = Some miniflux_redirects, sp_template = template, sp_pre_up = None,
     sp_post_up = Some (miniflux_post_up ip6)\<rparr>"

definition vaultwarden_redirects :: "install_context \<Rightarrow> string list" where
  "vaultwarden_redirects ic = [public_url ic @ ''/identity/connect/oidc-signin'']"

definition vaultwarden_post_up :: "(string \<Rightarrow> string option) \<Rightarrow> install_context \<Rightarrow> ('r host_scheme, unit) run" where
  "vaultwarden_post_up ip6 ic = map_error (Wrap ''wait for vaultwarden'') (wait_app ip6 300 (local_url ic ''/alive''))"

definition vaultwarden_spec :: "(string \<Rightarrow> string option) \<Rightarrow> string \<Rightarrow> ('r host_scheme) spec" where
  "vaultwarden_spec ip6 template = \<lparr>sp_name = ''vaultwarden'', sp_display = ''Vaultwarden'', sp_description = ''Bitwarden-compatible password manager'',
     sp_icon = [CHR 0xF0, CHR 0x9F, CHR 0x94, CHR 0x90], sp_subdomain = ''vault'', sp_port = 18050, sp_preserve = True, sp_oidc = True, sp_gate = False,
     sp_redirects = Some vaultwarden_redirects, sp_template = template, sp_pre_up = None,
     sp_post_up = Some (vaultwarden_post_up ip6)\<rparr>"

subsection \<open>Nextcloud\<close>

definition nextcloud_redirects :: "install_context \<Rightarrow> string list" where
  "nextcloud_redirects ic = [public_url ic @ ''/apps/user_oidc/code'']"

definition nextcloud_config :: string where
  "nextcloud_config = ''/var/www/html/config/config.php''"

definition nextcloud_occ :: string where
  "nextcloud_occ = ''/var/www/html/occ''"

definition provider_args :: "install_context \<Rightarrow> string list" where
  "provider_args ic = [''php'', nextcloud_occ, ''user_oidc:provider'', ''nass'', ''-d'', discovery_url ic, ''-c'', ic_client ic,
     ''-s'', ic_secret ic, ''--scope'', ''openid profile email groups'', ''--unique-uid=0'', ''--group-provisioning=1'',
     ''--group-whitelist-regex=/^(admin|user)$/'']"

definition ensure_local_remote_servers :: "(string \<Rightarrow> string option) \<Rightarrow> install_context \<Rightarrow> ('r host_scheme, unit) run" where
  "ensure_local_remote_servers ip6 ic =
     bindR (map_error (Wrap ''read config.php'') (checked (exec_in ic ''nextcloud'' [''cat'', nextcloud_config]))) (\<lambda>out.
     if contains_str out ''allow_local_remote_servers'' then ret ()
     else
       bindR (map_error (Wrap ''sed config.php'') (checked (exec_in ic ''nextcloud'' [''sed'', ''-i'',
           ''4i'' @ [CHR 0x5C] @ ''  '' @ [CHR 0x27] @ ''allow_local_remote_servers'' @ [CHR 0x27] @ '' => true,'', nextcloud_config]))) (\<lambda>_.
       bindR (map_error (Wrap ''restart after config.php patch'') (restart_app ic)) (\<lambda>_.
       wait_app ip6 120 (local_url ic ''/status.php''))))"

definition nextcloud_post_up :: "(string \<Rightarrow> string option) \<Rightarrow> install_context \<Rightarrow> ('r host_scheme, unit) run" where
  "nextcloud_post_up ip6 ic =
     bindR (map_error (Wrap ''wait for nextcloud'') (wait_app ip6 300 (local_url ic ''/status.php''))) (\<lambda>_.
     bindR (map_error (Wrap ''patch config.php'') (ensure_local_remote_servers ip6 ic)) (\<lambda>_.
     bindR (attempt (checked (exec_in_as ic ''nextcloud'' ''www-data'' [''php'', nextcloud_occ, ''app:install'', ''user_oidc'']))) (\<lambda>r.
     bindR (case r of
         Inr _ \<Rightarrow> ret []
       | Inl e \<Rightarrow> map_error (\<lambda>e2. Wrap ''install/enable user_oidc'' e2)
           (checked (exec_in_as ic ''nextcloud'' ''www-data'' [''php'', nextcloud_occ, ''app:enable'', ''user_oidc'']))) (\<lambda>_.
     bindR (map_error (Wrap ''register user_oidc provider'') (checked (exec_in_as ic ''nextcloud'' ''www-data'' (provider_args ic)))) (\<lambda>_.
     ret ())))))"

definition nextcloud_spec :: "(string \<Rightarrow> string option) \<Rightarrow> string \<Rightarrow> ('r host_scheme) spec" where
  "nextcloud_spec ip6 template = \<lparr>sp_name = ''nextcloud'', sp_display = ''Nextcloud'', sp_description = ''Files, calendar, contacts'',
     sp_icon = [CHR 0xE2, CHR 0x98, CHR 0x81, CHR 0xEF, CHR 0xB8, CHR 0x8F], sp_subdomain = ''nextcloud'', sp_port = 18080, sp_preserve = True, sp_oidc = True, sp_gate = False,
     sp_redirects = Some nextcloud_redirects, sp_template = template, sp_pre_up = None,
     sp_post_up = Some (nextcloud_post_up ip6)\<rparr>"

subsection \<open>Paperless-ngx\<close>

definition paperless_redirects :: "install_context \<Rightarrow> string list" where
  "paperless_redirects ic = [public_url ic @ ''/accounts/oidc/nass/login/callback/'']"

text \<open>\<open>py\<close> lists the embedded files by name, in the order in which the map is enumerated.\<close>

definition paperless_pre_up :: "(string \<times> string) list \<Rightarrow> install_context \<Rightarrow> ('r host_scheme, unit) run" where
  "paperless_pre_up py ic =
     (let dir = path_join [ic_data ic, ''nass_sso''] in
      bindR (map_error (Wrap ''mkdir nass_sso'') (mkdir_all dir)) (\<lambda>_.
      forR py (\<lambda>(name, body). map_error (Wrap (''write nass_sso/'' @ name)) (write_file (path_join [dir, name]) body))))"

definition paperless_post_up :: "(string \<Rightarrow> string option) \<Rightarrow> install_context \<Rightarrow> ('r host_scheme, unit) run" where
  "paperless_post_up ip6 ic = map_error (Wrap ''wait for paperless'') (wait_app ip6 600 (local_url ic ''/''))"

definition paperless_spec :: "(string \<Rightarrow> string option) \<Rightarrow> (string \<times> string) list \<Rightarrow> string \<Rightarrow> ('r host_scheme) spec" where
  "paperless_spec ip6 py template = \<lparr>sp_name = ''paperless'', sp_display = ''Paperless-ngx'', sp_description = ''Document management for scanned paper'',
     sp_icon = [CHR 0xF0, CHR 0x9F, CHR 0x93, CHR 0x84], sp_subdomain = ''paperless'', sp_port = 18040, sp_preserve = True, sp_oidc = True, sp_gate = False,
     sp_redirects = Some paperless_redirects, sp_template = template, sp_pre_up = Some (paperless_pre_up py),
     sp_post_up = Some (paperless_post_up ip6)\<rparr>"

subsection \<open>Vikunja\<close>

definition vikunja_redirects :: "install_context \<Rightarrow> string list" where
  "vikunja_redirects ic = [public_url ic @ ''/auth/openid/nass'']"

definition vikunja_config :: "install_context \<Rightarrow> string" where
  "vikunja_config ic = concat (map (\<lambda>l. l @ [CHR 0x0A])
     [''service:'', ''  publicurl: '' @ go_quote (public_url ic), ''  enableregistration: false'', ''  timezone: UTC'',
      ''files:'', ''  basepath: /app/vikunja/files'', ''database:'', ''  type: sqlite'', ''  path: /db/vikunja.db'',
      ''auth:'', ''  local:'', ''    enabled: false'', ''  openid:'', ''    enabled: true'', ''    providers:'',
      ''      nass:'', ''        name: nass'', ''        authurl: '' @ go_quote (ic_issuer ic),
      ''        clientid: '' @ go_quote (ic_client ic), ''        clientsecret: '' @ go_quote (ic_secret ic),
      ''        scope: openid profile email''])"

text \<open>\<open>os.Chmod\<close> of a directory that was just made: it can only fail.\<close>

definition chmod_dir :: "string \<Rightarrow> ('r host_scheme, unit) run" where
  "chmod_dir p = disk_fault"

definition vikunja_pre_up :: "install_context \<Rightarrow> ('r host_scheme, unit) run" where
  "vikunja_pre_up ic =
     bindR (forR [path_join [ic_data ic, ''files''], path_join [ic_data ic, ''db'']] (\<lambda>dir.
       bindR (map_error (Wrap (''mkdir '' @ dir)) (mkdir_all dir)) (\<lambda>_.
       map_error (Wrap (''chmod '' @ dir)) (chmod_dir dir)))) (\<lambda>_.
     map_error (Wrap ''write config.yml'') (write_file (path_join [ic_data ic, ''config.yml'']) (vikunja_config ic)))"

definition vikunja_post_up :: "(string \<Rightarrow> string option) \<Rightarrow> install_context \<Rightarrow> ('r host_scheme, unit) run" where
  "vikunja_post_up ip6 ic = map_error (Wrap ''wait for vikunja'') (wait_app ip6 300 (local_url ic ''/''))"

definition vikunja_spec :: "(string \<Rightarrow> string option) \<Rightarrow> string \<Rightarrow> ('r host_scheme) spec" where
  "vikunja_spec ip6 template = \<lparr>sp_name = ''vikunja'', sp_display = ''Vikunja'', sp_description = ''Task and project management'',
     sp_icon = [CHR 0xE2, CHR 0x9C, CHR 0x85], sp_subdomain = ''vikunja'', sp_port = 18095, sp_preserve = True, sp_oidc = True, sp_gate = False,
     sp_redirects = Some vikunja_redirects, sp_template = template, sp_pre_up = Some vikunja_pre_up,
     sp_post_up = Some (vikunja_post_up ip6)\<rparr>"

subsection \<open>Blinko: what the SQL literal stands for\<close>

text \<open>How a server reads a literal, from behind its opening quote: two quotes are one character, a single
  quote ends it. The result is the value and what follows.\<close>

fun sql_literal :: "string \<Rightarrow> (string \<times> string) option" where
  "sql_literal [] = None"
| "sql_literal (c # s) =
     (if c \<noteq> CHR 0x27 then map_option (\<lambda>(v, r). (c # v, r)) (sql_literal s)
      else (case s of
          [] \<Rightarrow> Some ([], [])
        | d # t \<Rightarrow> if d = CHR 0x27 then map_option (\<lambda>(v, r). (CHR 0x27 # v, r)) (sql_literal t) else Some ([], s)))"

lemma sql_literal_quote:
  "rest = [] \<or> hd rest \<noteq> CHR 0x27 \<Longrightarrow> sql_literal (sql_quote s @ CHR 0x27 # rest) = Some (s, rest)"
  unfolding sql_quote_def
proof (induction s)
  case Nil
  then show ?case by (cases rest) auto
qed auto

text \<open>What nass writes into Blinko's configuration is data only: the server reads the literal of the second
  statement back as exactly the JSON text, with nothing left but the end of the statement, whatever quotes the
  client id, its secret or the issuer hold, and that text parses to the configuration.\<close>

theorem blinko_literal_safe:
  "\<exists>lit. oauth_provider_sql ic =
      ''DELETE FROM config WHERE key = '' @ [CHR 0x27] @ ''oauth2Providers'' @ [CHR 0x27]
      @ ''; INSERT INTO config (key, config) VALUES ('' @ [CHR 0x27] @ ''oauth2Providers'' @ [CHR 0x27] @ '', '' @ [CHR 0x27] @ lit \<and>
    map_option (\<lambda>(v, rest). (json_parse v, rest)) (sql_literal lit) = Some (Some (blinko_config ic), '');'')"
proof -
  have "sql_literal (sql_quote (json_write (blinko_config ic)) @ CHR 0x27 # '');'') =
      Some (json_write (blinko_config ic), '');'')"
    by (rule sql_literal_quote) simp
  moreover have "json_parse (json_write (blinko_config ic)) = Some (blinko_config ic)"
    by (rule json_roundtrip) (simp_all add: blinko_config_def)
  ultimately show ?thesis unfolding oauth_provider_sql_def by auto
qed

subsection \<open>Calibre-Web: seeding again changes nothing\<close>

text \<open>Seeding Calibre-Web's database twice is seeding it once; afterwards every generic provider is the one of
  nass, there is one, and the other providers are as they were.\<close>

theorem calibreweb_seed_idempotent:
  "seed_oidc_config ic (seed_oidc_config ic d) = seed_oidc_config ic d \<and>
   set (filter (\<lambda>p. cp_name p = ''generic'') (cd_providers (seed_oidc_config ic d))) = {cwa_generic ic} \<and>
   filter (\<lambda>p. cp_name p \<noteq> ''generic'') (cd_providers (seed_oidc_config ic d)) =
     filter (\<lambda>p. cp_name p \<noteq> ''generic'') (cd_providers d)"
proof -
  have n: "cp_name (cwa_generic ic) = ''generic''" by (simp add: cwa_generic_def)
  let ?m = "map (\<lambda>p. if cp_name p = ''generic'' then cwa_generic ic else p)"
  have f: "filter (\<lambda>p. cp_name p \<noteq> ''generic'') (?m ps) = filter (\<lambda>p. cp_name p \<noteq> ''generic'') ps" for ps
    by (induction ps) (auto simp: n)
  have i: "?m (?m ps) = ?m ps" for ps by (simp add: n)
  have l: "list_ex (\<lambda>p. cp_name p = ''generic'') (?m ps) = list_ex (\<lambda>p. cp_name p = ''generic'') ps" for ps
    by (induction ps) (auto simp: n)
  let ?r = "\<lambda>ps. if list_ex (\<lambda>p. cp_name p = ''generic'') ps then ?m ps else ?m ps @ [cwa_generic ic]"
  let ?s = "map (\<lambda>s. s\<lparr>cs_login_type := 2, cs_redirect_host := public_url ic\<rparr>)"
  have d: "seed_oidc_config ic d = d\<lparr>cd_settings := ?s (cd_settings d), cd_providers := ?r (cd_providers d)\<rparr>" for d
    unfolding seed_oidc_config_def Let_def using l by simp
  have e: "list_ex (\<lambda>p. cp_name p = ''generic'') (?r ps)" for ps
    using l [of ps] n by simp
  have r: "?r (?r ps) = ?r ps" for ps
    using e [of ps] i [of ps] n by simp
  have t: "?s (?s ss) = ?s ss" for ss by simp
  have "seed_oidc_config ic (seed_oidc_config ic d) =
      d\<lparr>cd_settings := ?s (?s (cd_settings d)), cd_providers := ?r (?r (cd_providers d))\<rparr>"
    unfolding d by (simp del: map_map)
  then have "seed_oidc_config ic (seed_oidc_config ic d) = seed_oidc_config ic d"
    unfolding t r by (simp only: d)
  moreover have "set (filter (\<lambda>p. cp_name p = ''generic'') (?r (cd_providers d))) = {cwa_generic ic}"
    using n by (auto simp: list_ex_iff)
  moreover have "filter (\<lambda>p. cp_name p \<noteq> ''generic'') (?r (cd_providers d)) = filter (\<lambda>p. cp_name p \<noteq> ''generic'') (cd_providers d)"
    using f [of "cd_providers d"] n by simp
  ultimately show ?thesis unfolding d by simp
qed

end
