(* ===== verification/App_Qbittorrent.thy ===== *)
theory App_Qbittorrent
  imports App_Modules "HOL-Library.Sublist"
begin

text \<open>
  The qBittorrent module (\<^verbatim>\<open>internal/apps/qbittorrent/qbittorrent.go\<close>), whose post-up hook edits the app's
  INI file: \<open>patch_conf\<close> forces the lines of some keys and adds the keys that are missing to the section
  \<^verbatim>\<open>[Preferences]\<close>. Go's map of keys is a list here, in the order of its enumeration; the results hold for
  every order. Shown: afterwards every key has its value wherever it occurs, no other line is lost, and
  patching again changes nothing.
\<close>

definition web_ui_settings :: "(string \<times> string) list" where
  "web_ui_settings =
     [([CHR ''W'', CHR ''e'', CHR ''b'', CHR ''U'', CHR ''I'', CHR 0x5C] @ ''HostHeaderValidation'', ''false''),
      ([CHR ''W'', CHR ''e'', CHR ''b'', CHR ''U'', CHR ''I'', CHR 0x5C] @ ''AuthSubnetWhitelistEnabled'', ''true''),
      ([CHR ''W'', CHR ''e'', CHR ''b'', CHR ''U'', CHR ''I'', CHR 0x5C] @ ''AuthSubnetWhitelist'', ''0.0.0.0/0''),
      ([CHR ''W'', CHR ''e'', CHR ''b'', CHR ''U'', CHR ''I'', CHR 0x5C] @ ''CSRFProtection'', ''false'')]"

subsection \<open>Patching the configuration\<close>

definition conf_line :: "string \<times> string \<Rightarrow> string" where
  "conf_line e = fst e @ ''='' @ snd e"

definition sets_key :: "string \<Rightarrow> string \<Rightarrow> bool" where
  "sets_key line k \<longleftrightarrow> has_prefix line (k @ ''='')"

text \<open>The loop over the keys for one line: the line to store.\<close>

definition patch_line :: "(string \<times> string) list \<Rightarrow> string \<Rightarrow> string" where
  "patch_line kv line = fold (\<lambda>e new. if sets_key line (fst e) \<and> line \<noteq> conf_line e then conf_line e else new) kv line"

definition keys_seen :: "(string \<times> string) list \<Rightarrow> string list \<Rightarrow> string list" where
  "keys_seen kv lines = filter (\<lambda>k. list_ex (\<lambda>line. sets_key line k) lines) (map fst kv)"

definition conf_changed :: "(string \<times> string) list \<Rightarrow> string list \<Rightarrow> bool" where
  "conf_changed kv lines \<longleftrightarrow> list_ex (\<lambda>line. list_ex (\<lambda>e. sets_key line (fst e) \<and> line \<noteq> conf_line e) kv) lines"

definition missing_lines :: "(string \<times> string) list \<Rightarrow> string list \<Rightarrow> string list" where
  "missing_lines kv lines = sort (map conf_line (filter (\<lambda>e. fst e \<notin> set (keys_seen kv lines)) kv))"

text \<open>The scan for the place of the missing keys: behind the last line of the section that is not blank.\<close>

fun insert_at :: "nat \<Rightarrow> bool \<Rightarrow> nat option \<Rightarrow> string list \<Rightarrow> nat option" where
  "insert_at i prefs at [] = at"
| "insert_at i prefs at (l # ls) =
     (let t = trim_space l in
      if t = ''[Preferences]'' then insert_at (Suc i) True (Some (Suc i)) ls
      else if prefs then
        (if has_prefix t ''['' \<and> has_suffix t '']'' then at
         else insert_at (Suc i) prefs (if t \<noteq> [] then Some (Suc i) else at) ls)
      else insert_at (Suc i) prefs at ls)"

definition insert_lines :: "string list \<Rightarrow> string list \<Rightarrow> string list" where
  "insert_lines missing lines = (case insert_at 0 False None lines of
       None \<Rightarrow> (if lines \<noteq> [] \<and> last lines \<noteq> [] then lines @ [[]] else lines) @ [''[Preferences]''] @ missing
     | Some i \<Rightarrow> take i lines @ missing @ drop i lines)"

definition patch_conf :: "string \<Rightarrow> (string \<times> string) list \<Rightarrow> string \<times> bool" where
  "patch_conf body kv =
     (let lines = split_at (CHR 0x0A) body;
          lines1 = map (patch_line kv) lines;
          changed = conf_changed kv lines;
          missing = missing_lines kv lines
      in if missing = [] then (if \<not> changed then (body, False) else (join_with [CHR 0x0A] lines1, True))
         else (join_with [CHR 0x0A] (insert_lines missing lines1), True))"

subsection \<open>The hook\<close>

definition qbittorrent_post_up :: "(string \<Rightarrow> string option) \<Rightarrow> install_context \<Rightarrow> ('r host_scheme, unit) run" where
  "qbittorrent_post_up ip6 ic =
     (let target = local_url ic []; conf = path_join [ic_data ic, ''config'', ''qBittorrent/qBittorrent.conf''] in
      bindR (map_error (Wrap ''wait for qbittorrent'') (wait_app ip6 300 target)) (\<lambda>_.
      bindR (map_error (Wrap ''wait for conf file'') (wait_for_file 30 conf)) (\<lambda>_.
      bindR (map_error (Wrap (''read '' @ conf)) (read_file conf)) (\<lambda>body.
      let (patched, changed) = patch_conf body web_ui_settings in
      if \<not> changed then ret ()
      else
        bindR (map_error (Wrap ''kill qbittorrent'') (with_orch ic (\<lambda>o1. orch_kill o1 (ic_compose ic) ''qbittorrent''))) (\<lambda>_.
        bindR (map_error (Wrap (''write '' @ conf)) (write_file conf patched)) (\<lambda>_.
        bindR (map_error (Wrap ''restart qbittorrent'') (with_orch ic (\<lambda>o1. orch_up o1 (ic_compose ic)))) (\<lambda>_.
        wait_app ip6 120 target)))))))"

definition qbittorrent_spec :: "(string \<Rightarrow> string option) \<Rightarrow> string \<Rightarrow> ('r host_scheme) spec" where
  "qbittorrent_spec ip6 template = \<lparr>sp_name = ''qbittorrent'', sp_display = ''qBittorrent'', sp_description = ''Torrent client'',
     sp_icon = [CHR 0xF0, CHR 0x9F, CHR 0xA7, CHR 0xB2], sp_subdomain = ''qbittorrent'', sp_port = 18100, sp_preserve = True, sp_oidc = False, sp_gate = True,
     sp_redirects = None, sp_template = template, sp_pre_up = None,
     sp_post_up = Some (qbittorrent_post_up ip6)\<rparr>"

subsection \<open>What patching achieves\<close>

text \<open>A key is one line of text without an equals sign, a value one line.\<close>

definition conf_keys :: "(string \<times> string) list \<Rightarrow> bool" where
  "conf_keys kv \<longleftrightarrow> distinct (map fst kv) \<and>
     list_all (\<lambda>(k, v). k \<noteq> [] \<and> hd k \<noteq> CHR ''['' \<and> CHR ''='' \<notin> set k \<and> CHR 0x0A \<notin> set k \<and> CHR 0x0A \<notin> set v) kv"

definition owned :: "(string \<times> string) list \<Rightarrow> string \<Rightarrow> bool" where
  "owned kv line \<longleftrightarrow> list_ex (\<lambda>e. sets_key line (fst e)) kv"

definition conf_settled :: "(string \<times> string) list \<Rightarrow> string list \<Rightarrow> bool" where
  "conf_settled kv lines \<longleftrightarrow> list_all (\<lambda>e. conf_line e \<in> set lines \<and>
     filter (\<lambda>l. sets_key l (fst e) \<and> l \<noteq> conf_line e) lines = []) kv"

lemma sets_key_unique:
  assumes "sets_key l k" "sets_key l k2" "CHR ''='' \<notin> set k" "CHR ''='' \<notin> set k2"
  shows "k = k2"
proof -
  obtain a where a: "l = k @ CHR ''='' # a" using assms(1) by (auto simp: sets_key_def has_prefix_iff)
  obtain b where b: "l = k2 @ CHR ''='' # b" using assms(2) by (auto simp: sets_key_def has_prefix_iff)
  show ?thesis
    using a b cut_at_found [OF assms(3), of a] cut_at_found [OF assms(4), of b] by simp
qed

lemma sets_key_line [simp]: "sets_key (conf_line e) (fst e)"
  by (auto simp: sets_key_def conf_line_def has_prefix_iff)

lemma conf_keys_mem:
  "conf_keys kv \<Longrightarrow> e \<in> set kv \<Longrightarrow> fst e \<noteq> [] \<and> hd (fst e) \<noteq> CHR ''['' \<and> CHR ''='' \<notin> set (fst e) \<and> CHR 0x0A \<notin> set (conf_line e)"
  by (auto simp: conf_keys_def list_all_iff conf_line_def)

lemma conf_keys_same:
  "conf_keys kv \<Longrightarrow> e \<in> set kv \<Longrightarrow> f \<in> set kv \<Longrightarrow> sets_key l (fst e) \<Longrightarrow> sets_key l (fst f) \<Longrightarrow> e = f"
  using sets_key_unique [of l "fst e" "fst f"] conf_keys_mem [of kv e] conf_keys_mem [of kv f]
  by (auto simp: conf_keys_def distinct_map inj_on_def)

lemma fold_last:
  "(\<And>e. e \<in> set es \<Longrightarrow> P e \<Longrightarrow> f e = y) \<Longrightarrow> fold (\<lambda>e n. if P e then f e else n) es x = (if list_ex P es then y else x)"
  by (induction es arbitrary: x) auto

lemma patch_line_owned:
  assumes "conf_keys kv" "e \<in> set kv" "sets_key l (fst e)"
  shows "patch_line kv l = conf_line e"
proof -
  have "patch_line kv l = (if list_ex (\<lambda>f. sets_key l (fst f) \<and> l \<noteq> conf_line f) kv then conf_line e else l)"
    unfolding patch_line_def using assms
    by (intro fold_last [where P = "\<lambda>f. sets_key l (fst f) \<and> l \<noteq> conf_line f" and f = conf_line]) (auto dest: conf_keys_same)
  then show ?thesis using assms by (auto simp: list_ex_iff)
qed

lemma patch_line_foreign: "\<not> owned kv l \<Longrightarrow> patch_line kv l = l"
proof -
  assume "\<not> owned kv l"
  then have "patch_line kv l = (if list_ex (\<lambda>f. sets_key l (fst f) \<and> l \<noteq> conf_line f) kv then l else l)"
    unfolding patch_line_def owned_def list_ex_iff
    using fold_last [where P = "\<lambda>f. sets_key l (fst f) \<and> l \<noteq> conf_line f" and f = conf_line and es = kv and y = l and x = l]
    by (auto simp: list_ex_iff)
  then show ?thesis by simp
qed
lemma patched_owned:
  assumes "conf_keys kv" "e \<in> set kv" "l \<in> set (map (patch_line kv) lines)" "sets_key l (fst e)"
  shows "l = conf_line e"
proof -
  obtain l0 where l: "l = patch_line kv l0" using assms(3) by auto
  show ?thesis
  proof (cases "owned kv l0")
    case True
    then obtain f where f: "f \<in> set kv" "sets_key l0 (fst f)" by (auto simp: owned_def list_ex_iff)
    then have "l = conf_line f" using l patch_line_owned [OF assms(1) f] by simp
    then have "e = f" using conf_keys_same [OF assms(1,2) f(1) assms(4)] by simp
    then show ?thesis using \<open>l = conf_line f\<close> by simp
  next
    case False
    then have "owned kv l \<Longrightarrow> False" using l patch_line_foreign [of kv l0] by simp
    then show ?thesis using assms(2,4) by (auto simp: owned_def list_ex_iff)
  qed
qed

lemma missing_mem: "m \<in> set (missing_lines kv lines) \<longleftrightarrow>
    (\<exists>e \<in> set kv. m = conf_line e \<and> (\<forall>l \<in> set lines. \<not> sets_key l (fst e)))"
  by (auto simp: missing_lines_def keys_seen_def list_ex_iff)

lemma set_insert_lines: "set missing \<union> set lines \<subseteq> set (insert_lines missing lines)"
    "set (insert_lines missing lines) \<subseteq> set missing \<union> set lines \<union> {[], ''[Preferences]''}"
    "subseq lines (insert_lines missing lines)"
proof -
  have s: "subseq (take n lines @ drop n lines) (take n lines @ missing @ drop n lines)" for n
    by (intro list_emb_append_mono) (auto intro: list_emb_append2)
  have u: "set lines = set (take n lines) \<union> set (drop n lines)" for n
    by (metis append_take_drop_id set_append)
  show "set missing \<union> set lines \<subseteq> set (insert_lines missing lines)"
    using u by (auto simp: insert_lines_def split: option.split)
  show "set (insert_lines missing lines) \<subseteq> set missing \<union> set lines \<union> {[], ''[Preferences]''}"
    using u by (auto simp: insert_lines_def split: option.splits if_splits dest: in_set_takeD in_set_dropD)
  show "subseq lines (insert_lines missing lines)"
    using s by (auto simp: insert_lines_def split: option.split)
qed

text \<open>The lines of the result.\<close>

definition patched_lines :: "(string \<times> string) list \<Rightarrow> string list \<Rightarrow> string list" where
  "patched_lines kv lines = (if missing_lines kv lines = [] then map (patch_line kv) lines
     else insert_lines (missing_lines kv lines) (map (patch_line kv) lines))"

lemma patched_settled:
  assumes "conf_keys kv"
  shows "conf_settled kv (patched_lines kv lines)"
  unfolding conf_settled_def list_all_iff
proof
  fix e assume e: "e \<in> set kv"
  let ?L = "patched_lines kv lines" and ?M = "missing_lines kv lines"
  have sub: "set ?M \<union> set (map (patch_line kv) lines) \<subseteq> set ?L"
    using set_insert_lines(1) [of ?M "map (patch_line kv) lines"] by (simp add: patched_lines_def)
  have sup: "set ?L \<subseteq> set ?M \<union> set (map (patch_line kv) lines) \<union> {[], ''[Preferences]''}"
    using set_insert_lines(2) [of ?M "map (patch_line kv) lines"] by (auto simp: patched_lines_def)
  have "conf_line e \<in> set ?L"
  proof (cases "\<exists>l \<in> set lines. sets_key l (fst e)")
    case True
    then show ?thesis using sub patch_line_owned [OF assms e] by force
  next
    case False
    then show ?thesis using sub e missing_mem [of "conf_line e" kv lines] by auto
  qed
  moreover have "l = conf_line e" if l: "l \<in> set ?L" "sets_key l (fst e)" for l
  proof -
    consider "l \<in> set ?M" | "l \<in> set (map (patch_line kv) lines)" | "l = []" | "l = ''[Preferences]''"
      using l(1) sup by auto
    then show ?thesis
    proof cases
      case 1
      then obtain f where f: "f \<in> set kv" "l = conf_line f" using missing_mem [of l kv lines] by auto
      then have "e = f" using l(2) conf_keys_same [OF assms e f(1), of l] by simp
      then show ?thesis using f by simp
    next
      case 2
      then show ?thesis using patched_owned [OF assms e 2 l(2)] by simp
    next
      case 3
      then show ?thesis using l(2) by (auto simp: sets_key_def has_prefix_iff)
    next
      case 4
      then show ?thesis
        using l(2) conf_keys_mem [OF assms e] by (cases "fst e") (auto simp: sets_key_def has_prefix_def)
    qed
  qed
  ultimately have "conf_line e \<in> set ?L" "\<forall>l \<in> set ?L. sets_key l (fst e) \<longrightarrow> l = conf_line e" by blast+
  then show "conf_line e \<in> set ?L \<and> filter (\<lambda>l. sets_key l (fst e) \<and> l \<noteq> conf_line e) ?L = []"
    unfolding filter_empty_conv by blast
qed

lemma patch_conf_lines:
  assumes "conf_keys kv"
  shows "split_at (CHR 0x0A) (fst (patch_conf body kv)) = patched_lines kv (split_at (CHR 0x0A) body)"
proof -
  let ?ls = "split_at (CHR 0x0A) body"
  have nl: "CHR 0x0A \<notin> set l" if l: "l \<in> set (map (patch_line kv) ?ls)" for l
  proof -
    obtain l0 where l0: "l = patch_line kv l0" "l0 \<in> set ?ls" using l unfolding set_map by blast
    show ?thesis
    proof (cases "owned kv l0")
      case True
      then show ?thesis using l0 patch_line_owned [OF assms] conf_keys_mem [OF assms] by (auto simp: owned_def list_ex_iff)
    next
      case False
      then show ?thesis using l0 patch_line_foreign split_at_no_sep by fastforce
    qed
  qed
  have nm: "CHR 0x0A \<notin> set m" if "m \<in> set (missing_lines kv ?ls)" for m
    using that missing_mem [of m kv ?ls] conf_keys_mem [OF assms] by auto
  have "CHR 0x0A \<notin> set l" if "l \<in> set (patched_lines kv ?ls)" for l
    using that nl nm set_insert_lines(2) [of "missing_lines kv ?ls" "map (patch_line kv) ?ls"]
    by (auto simp: patched_lines_def split: if_splits)
  moreover have "patched_lines kv ?ls \<noteq> []"
    using set_insert_lines(1) [of "missing_lines kv ?ls" "map (patch_line kv) ?ls"] by (auto simp: patched_lines_def)
  ultimately have j: "split_at (CHR 0x0A) (join_with [CHR 0x0A] (patched_lines kv ?ls)) = patched_lines kv ?ls"
    by (intro split_join)
  have "map (patch_line kv) ?ls = ?ls" if "\<not> conf_changed kv ?ls"
  proof -
    have "patch_line kv l = l" if "l \<in> set ?ls" for l
      using that \<open>\<not> conf_changed kv ?ls\<close> patch_line_foreign [of kv l] patch_line_owned [OF assms, of _ l]
      by (cases "owned kv l") (auto simp: conf_changed_def owned_def list_ex_iff)
    then show ?thesis by (simp add: map_idI)
  qed
  then show ?thesis using j by (auto simp: patch_conf_def Let_def patched_lines_def)
qed

lemma patch_conf_changed:
  "conf_settled kv (split_at (CHR 0x0A) body) \<Longrightarrow> patch_conf body kv = (body, False)"
  "\<not> conf_settled kv (split_at (CHR 0x0A) body) \<Longrightarrow> snd (patch_conf body kv)"
proof -
  let ?ls = "split_at (CHR 0x0A) body"
  have m: "missing_lines kv ?ls = [] \<longleftrightarrow> (\<forall>e \<in> set kv. \<exists>l \<in> set ?ls. sets_key l (fst e))"
    unfolding missing_lines_def keys_seen_def by (simp add: filter_empty_conv list_ex_iff flip: set_empty2) force
  have "conf_settled kv ?ls \<longleftrightarrow> missing_lines kv ?ls = [] \<and> \<not> conf_changed kv ?ls"
    unfolding m conf_settled_def conf_changed_def list_all_iff list_ex_iff filter_empty_conv
    using sets_key_line by blast
  then show "conf_settled kv ?ls \<Longrightarrow> patch_conf body kv = (body, False)" "\<not> conf_settled kv ?ls \<Longrightarrow> snd (patch_conf body kv)"
    by (auto simp: patch_conf_def Let_def)
qed

lemma subseq_patched: "subseq (filter (\<lambda>l. \<not> owned kv l) lines) (patched_lines kv lines)"
proof -
  have "subseq (filter (\<lambda>l. \<not> owned kv l) ls) (map (patch_line kv) ls)" for ls
    by (induction ls) (auto simp: patch_line_foreign)
  then have m: "subseq (filter (\<lambda>l. \<not> owned kv l) lines) (map (patch_line kv) lines)" .
  show ?thesis
  proof (cases "missing_lines kv lines = []")
    case False
    have "subseq (filter (\<lambda>l. \<not> owned kv l) lines)
        (insert_lines (missing_lines kv lines) (map (patch_line kv) lines))"
      by (rule subseq_order.order_trans [OF m set_insert_lines(3)])
    then show ?thesis using False by (simp add: patched_lines_def)
  qed (use m in \<open>simp add: patched_lines_def\<close>)
qed

lemma web_ui_keys: "conf_keys web_ui_settings"
  by (simp add: conf_keys_def web_ui_settings_def)

text \<open>C31: Patching qBittorrent's configuration settles it: afterwards each forced key has its line and no line sets
  it otherwise, every line that sets none of the keys is still there, in order, and patching again reports
  that nothing changed. It reports a change exactly if the text was not settled before; then the text
  differs, and a text that was settled comes back as it was.\<close>

theorem patch_conf_settles:
  "case patch_conf body web_ui_settings of (body2, changed) \<Rightarrow>
     conf_settled web_ui_settings (split_at (CHR 0x0A) body2) \<and>
     subseq (filter (\<lambda>l. \<not> owned web_ui_settings l) (split_at (CHR 0x0A) body)) (split_at (CHR 0x0A) body2) \<and>
     patch_conf body2 web_ui_settings = (body2, False) \<and>
     (changed \<longleftrightarrow> \<not> conf_settled web_ui_settings (split_at (CHR 0x0A) body)) \<and>
     (changed \<longleftrightarrow> body2 \<noteq> body)"
proof -
  note l = patch_conf_lines [OF web_ui_keys, of body]
  have s: "conf_settled web_ui_settings (split_at (CHR 0x0A) (fst (patch_conf body web_ui_settings)))"
    unfolding l by (rule patched_settled [OF web_ui_keys])
  have c: "snd (patch_conf body web_ui_settings) \<longleftrightarrow> fst (patch_conf body web_ui_settings) \<noteq> body"
    using s patch_conf_changed [of web_ui_settings body] by (metis fst_conv snd_conv)
  have d: "snd (patch_conf body web_ui_settings) \<longleftrightarrow> \<not> conf_settled web_ui_settings (split_at (CHR 0x0A) body)"
    using patch_conf_changed [of web_ui_settings body] by fastforce
  show ?thesis
    using s c d patch_conf_changed(1) [OF s] subseq_patched [of web_ui_settings "split_at (CHR 0x0A) body"]
    by (simp add: case_prod_beta l)
qed

end
