(* ===== verification/App_Jellyfin.thy ===== *)
theory App_Jellyfin
  imports App_Modules
begin

text \<open>
  The Jellyfin module (\<^verbatim>\<open>internal/apps/jellyfin/jellyfin.go\<close>): the first-run wizard over HTTP, the download of
  the sign-on plugin, the unpacking of its archive, and the configuration files. Parameters are the bytes
  embedded in the binary (\<open>ja_branding\<close>, \<open>ja_sso\<close>), the working directory and the reader of zip archives
  (\<open>ja_zip\<close>), which gives the entries in order or refuses the bytes. Shown: whatever the archive holds, no
  file outside the plugin directory changes, and the proxies Jellyfin is told to trust are addresses.
\<close>

text \<open>An entry: its name, whether it is a directory, and what opening it gives: an error, or the bytes read
  and the error that ended the reading, if any.\<close>

record zip_entry =
  ze_name :: string
  ze_dir :: bool
  ze_open :: "error + string \<times> error option"

record jellyfin_assets =
  ja_ip6 :: "string \<Rightarrow> string option"
  ja_branding :: string
  ja_sso :: string
  ja_cwd :: string
  ja_zip :: "string \<Rightarrow> error + zip_entry list"

definition jellyfin_redirects :: "install_context \<Rightarrow> string list" where
  "jellyfin_redirects ic =
     (let path = ''/sso/OID/redirect/nass''; h = public_host ic in [''https://'' @ h @ path, ''http://'' @ h @ path])"

subsection \<open>Waiting and the wizard\<close>

definition startup_ready :: "string \<Rightarrow> ('r host_scheme, bool) run" where
  "startup_ready base = bindR (http_do ''GET'' (base @ ''/Startup/User'') []) (\<lambda>rep. ret (case rep of
       NetFail \<Rightarrow> False
     | NetReply st ct body \<Rightarrow> st = 200 \<and> has_prefix ct ''application/json''))"

definition poll_public_info :: "string \<Rightarrow> ('r host_scheme, bool \<times> bool) run" where
  "poll_public_info base = bindR (http_do ''GET'' (base @ ''/System/Info/Public'') []) (\<lambda>rep. ret (case rep of
       NetFail \<Rightarrow> (False, False)
     | NetReply st ct body \<Rightarrow>
         if st \<noteq> 200 \<or> \<not> has_prefix ct ''application/json'' then (False, False)
         else (case json_first body of
             None \<Rightarrow> (False, False)
           | Some v \<Rightarrow> (case bool_field ''StartupWizardCompleted'' v of None \<Rightarrow> (False, False) | Some b \<Rightarrow> (b, True)))))"

definition probe_jellyfin :: "string \<Rightarrow> ('r host_scheme, bool option) run" where
  "probe_jellyfin base = bindR (poll_public_info base) (\<lambda>(completed, ok).
     if \<not> ok then ret None
     else if completed then ret (Some completed)
     else bindR (startup_ready base) (\<lambda>ready. ret (if ready then Some completed else None)))"

definition wait_for_jellyfin :: "string \<Rightarrow> ('r host_scheme, bool) run" where
  "wait_for_jellyfin base = poll_until (probe_jellyfin base) ErrCanceled"

definition request_failed :: "string \<Rightarrow> string \<Rightarrow> error" where
  "request_failed meth u = Msg (meth @ '' '' @ go_quote u @ '': connection refused'')"

definition jellyfin_get_json :: "string \<Rightarrow> ('r host_scheme, unit) run" where
  "jellyfin_get_json u = bindR (http_do ''GET'' u []) (\<lambda>rep. case rep of
       NetFail \<Rightarrow> throw (request_failed ''Get'' u)
     | NetReply st ct b \<Rightarrow>
         if 400 \<le> st then throw (Msg (''status '' @ format_int st @ '': '' @ trim_space b)) else ret ())"

definition jellyfin_post_json :: "string \<Rightarrow> string \<Rightarrow> ('r host_scheme, unit) run" where
  "jellyfin_post_json u body = bindR (http_do ''POST'' u body) (\<lambda>rep. case rep of
       NetFail \<Rightarrow> throw (request_failed ''Post'' u)
     | NetReply st ct b \<Rightarrow>
         if 400 \<le> st then throw (Msg (''status '' @ format_int st @ '': '' @ trim_space b)) else ret ())"

definition startup_user :: "string \<Rightarrow> jval" where
  "startup_user pw = JObj [(''Name'', JStr ''admin''), (''Password'', JStr pw)]"

definition startup_configuration :: jval where
  "startup_configuration = JObj [(''UICulture'', JStr ''en-US''), (''MetadataCountryCode'', JStr ''US''),
     (''PreferredMetadataLanguage'', JStr ''en'')]"

definition startup_remote :: jval where
  "startup_remote = JObj [(''EnableRemoteAccess'', JBool True), (''EnableAutomaticPortMapping'', JBool False)]"

definition run_startup_wizard :: "string \<Rightarrow> string \<Rightarrow> ('r host_scheme, unit) run" where
  "run_startup_wizard base pw =
     bindR (map_error (Wrap ''GET /Startup/User'') (jellyfin_get_json (base @ ''/Startup/User''))) (\<lambda>_.
     bindR (map_error (Wrap ''POST /Startup/User'') (jellyfin_post_json (base @ ''/Startup/User'') (json_write (startup_user pw)))) (\<lambda>_.
     bindR (map_error (Wrap ''POST /Startup/Configuration'')
       (jellyfin_post_json (base @ ''/Startup/Configuration'') (json_write startup_configuration))) (\<lambda>_.
     bindR (map_error (Wrap ''POST /Startup/RemoteAccess'')
       (jellyfin_post_json (base @ ''/Startup/RemoteAccess'') (json_write startup_remote))) (\<lambda>_.
     map_error (Wrap ''POST /Startup/Complete'') (jellyfin_post_json (base @ ''/Startup/Complete'') [])))))"

subsection \<open>The plugin\<close>

definition plugin_manifest_url :: string where
  "plugin_manifest_url =
     ''https://raw.githubusercontent.com/9p4/jellyfin-plugin-sso/manifest-release/manifest.json''"

definition fetch_url :: "jellyfin_assets \<Rightarrow> string \<Rightarrow> ('r host_scheme, string) run" where
  "fetch_url assets u =
     (if url_parse (ja_ip6 assets) u = None then throw (Msg (''parse '' @ go_quote u))
      else bindR (http_do ''GET'' u []) (\<lambda>rep. case rep of
          NetFail \<Rightarrow> throw (request_failed ''Get'' u)
        | NetReply st ct b \<Rightarrow> if 400 \<le> st then throw (Msg (''GET '' @ u @ '': status '' @ format_int st)) else ret b))"

text \<open>The manifest: a list of entries, each with a list of versions, each with its \<open>sourceUrl\<close>; of equal keys
  the last counts.\<close>

definition json_list :: "(jval \<Rightarrow> 'a option) \<Rightarrow> jval \<Rightarrow> 'a list option" where
  "json_list f v = (case v of JArr vs \<Rightarrow> all_some (map f vs) | JNull \<Rightarrow> Some [] | _ \<Rightarrow> None)"

definition manifest_entry :: "jval \<Rightarrow> string list option" where
  "manifest_entry v = (case v of
       JNull \<Rightarrow> Some []
     | JObj ms \<Rightarrow> map_option (last_of []) (all_some (map (json_list (string_field ''sourceUrl'')) (field_members ''versions'' ms)))
     | _ \<Rightarrow> None)"

definition plugin_url :: "string \<Rightarrow> error + string" where
  "plugin_url body = (case json_parse body of
       None \<Rightarrow> Inl (Wrap ''parse manifest'' (Msg ''invalid JSON''))
     | Some v \<Rightarrow> (case json_list manifest_entry v of
         None \<Rightarrow> Inl (Wrap ''parse manifest'' (Msg ''invalid JSON''))
       | Some ((u # us) # es) \<Rightarrow> Inr u
       | _ \<Rightarrow> Inl (Msg ''manifest has no versions'')))"

definition latest_plugin_url :: "jellyfin_assets \<Rightarrow> ('r host_scheme, string) run" where
  "latest_plugin_url assets = bindR (fetch_url assets plugin_manifest_url) (\<lambda>body. lift_result (plugin_url body))"

text \<open>\<open>filepath.Abs\<close>.\<close>

definition path_abs :: "string \<Rightarrow> string \<Rightarrow> string" where
  "path_abs cwd p = (if is_abs p then path_clean p else path_join [cwd, p])"

definition unzip_entry :: "string \<Rightarrow> zip_entry \<Rightarrow> ('r host_scheme, unit) run" where
  "unzip_entry dest f =
     (let out = path_join [dest, ze_name f] in
      if \<not> has_prefix out (dest @ ''/'') \<and> out \<noteq> dest then throw (Msg (''zip entry escapes dest: '' @ go_quote (ze_name f)))
      else if ze_dir f then mkdir_all out
      else bindR (mkdir_all (path_dir out)) (\<lambda>_.
           bindR (lift_result (ze_open f)) (\<lambda>(bytes, e).
           bindR (write_file out bytes) (\<lambda>_.
           case e of None \<Rightarrow> ret () | Some x \<Rightarrow> throw x))))"

definition unzip_into :: "jellyfin_assets \<Rightarrow> string \<Rightarrow> string \<Rightarrow> ('r host_scheme, unit) run" where
  "unzip_into assets bytes dest = bindR (lift_result (ja_zip assets bytes)) (\<lambda>entries.
     forR entries (unzip_entry (path_abs (ja_cwd assets) dest)))"

definition install_sso_plugin :: "jellyfin_assets \<Rightarrow> string \<Rightarrow> ('r host_scheme, unit) run" where
  "install_sso_plugin assets dir =
     bindR (map_error (Wrap ''resolve plugin url'') (latest_plugin_url assets)) (\<lambda>u.
     bindR (map_error (Wrap ''download plugin'') (fetch_url assets u)) (\<lambda>bytes.
     bindR (map_error (Wrap ''mkdir plugin dir'') (mkdir_all dir)) (\<lambda>_.
     map_error (Wrap ''unzip plugin'') (unzip_into assets bytes dir))))"

subsection \<open>The configuration files\<close>

text \<open>\<open>net.ParseIP(f) \<noteq> nil\<close>: four decimal fields, or eight groups of hexadecimal digits of which a double colon
  may stand for one or more and the last two may be an IPv4 address.\<close>

definition ip4_field :: "string \<Rightarrow> bool" where
  "ip4_field s \<longleftrightarrow> (case parse_nat s of None \<Rightarrow> False | Some n \<Rightarrow> n \<le> 255) \<and> (s = ''0'' \<or> \<not> has_prefix s ''0'')"

definition parse_ip4 :: "string \<Rightarrow> bool" where
  "parse_ip4 s \<longleftrightarrow> (let fs = split_at (CHR ''.'') s in length fs = 4 \<and> list_all ip4_field fs)"

definition hex_group :: "string \<Rightarrow> bool" where
  "hex_group s \<longleftrightarrow> s \<noteq> [] \<and> length s \<le> 4 \<and> list_all (\<lambda>c. hex_val c \<noteq> None) s"

text \<open>The number of 16-bit groups that a list of parts between colons stands for.\<close>

definition ip6_groups :: "string list \<Rightarrow> nat option" where
  "ip6_groups gs =
     (if list_all hex_group gs then Some (length gs)
      else if gs \<noteq> [] \<and> list_all hex_group (butlast gs) \<and> parse_ip4 (last gs) then Some (Suc (length gs))
      else None)"

definition colon_parts :: "string \<Rightarrow> string list" where
  "colon_parts s = (if s = [] then [] else split_at (CHR '':'') s)"

definition parse_ip6 :: "string \<Rightarrow> bool" where
  "parse_ip6 s = (case cut_string ''::'' s of
       None \<Rightarrow> ip6_groups (colon_parts s) = Some 8
     | Some (a, b) \<Rightarrow> list_all hex_group (colon_parts a) \<and> (case ip6_groups (colon_parts b) of
           None \<Rightarrow> False | Some n \<Rightarrow> length (colon_parts a) + n < 8))"

definition is_ip :: "string \<Rightarrow> bool" where
  "is_ip s \<longleftrightarrow> parse_ip4 s \<or> parse_ip6 s"

definition gateway_format :: string where
  "gateway_format = ''{{range $name, $cfg := .NetworkSettings.Networks}}{{$cfg.Gateway}} {{end}}''"

definition discover_proxy_ips :: "string \<Rightarrow> ('r host_scheme, string list) run" where
  "discover_proxy_ips container =
     bindR (run_command [''docker'', ''inspect'', ''--format'', gateway_format, container]) (\<lambda>(ok, out).
     if \<not> ok then throw (Wrap (''docker inspect '' @ container) (Msg ''exit status 1''))
     else
       (let ips = filter is_ip (fields_of out) in
        if ips = [] then throw (Msg (''docker inspect '' @ container @ '': no gateway IPs found'')) else ret ips))"

definition xml_line :: "string \<Rightarrow> string" where
  "xml_line s = s @ [CHR 0x0A]"

definition xml_attr :: "string \<Rightarrow> string \<Rightarrow> string" where
  "xml_attr n v = '' '' @ n @ ''='' @ [CHR 0x22] @ v @ [CHR 0x22]"

definition render_network_xml :: "string list \<Rightarrow> string" where
  "render_network_xml gateways =
     xml_line (''<?xml'' @ xml_attr ''version'' ''1.0'' @ xml_attr ''encoding'' ''utf-8'' @ ''?>'')
     @ xml_line (''<NetworkConfiguration'' @ xml_attr ''xmlns:xsi'' ''http://www.w3.org/2001/XMLSchema-instance''
         @ xml_attr ''xmlns:xsd'' ''http://www.w3.org/2001/XMLSchema'' @ ''>'')
     @ ''  <KnownProxies>'' @ concat (map (\<lambda>g. [CHR 0x0A] @ ''    <string>'' @ g @ ''</string>'') gateways) @ [CHR 0x0A]
     @ xml_line ''    <string>127.0.0.1</string>'' @ xml_line ''  </KnownProxies>'' @ xml_line ''</NetworkConfiguration>''"

definition sso_fields :: "install_context \<Rightarrow> (string \<times> string) list" where
  "sso_fields ic = [(''ProviderName'', ''nass''), (''OIDCDiscoveryURL'', discovery_url ic),
     (''OIDCClientID'', ic_client ic), (''OIDCClientSecret'', ic_secret ic)]"

definition render_sso_config :: "jellyfin_assets \<Rightarrow> install_context \<Rightarrow> error + string" where
  "render_sso_config assets ic = (case parse_template (ja_sso assets) of
       None \<Rightarrow> Inl (Msg ''template: sso'')
     | Some ps \<Rightarrow> (case fill_pieces (map_of (sso_fields ic)) ps of None \<Rightarrow> Inl (Msg ''template: sso'') | Some s \<Rightarrow> Inr s))"

definition write_branding_and_sso_config :: "jellyfin_assets \<Rightarrow> install_context \<Rightarrow> ('r host_scheme, unit) run" where
  "write_branding_and_sso_config assets ic =
     (let branding = path_join [ic_data ic, ''config'', ''config''];
          configs = path_join [ic_data ic, ''config'', ''plugins'', ''configurations''] in
      bindR (map_error (Wrap ''mkdir branding dir'') (mkdir_all branding)) (\<lambda>_.
      bindR (map_error (Wrap ''write branding.xml'') (write_file (path_join [branding, ''branding.xml'']) (ja_branding assets))) (\<lambda>_.
      bindR (map_error (Wrap ''discover docker gateway'') (discover_proxy_ips (ic_name ic))) (\<lambda>gateways.
      bindR (map_error (Wrap ''write network.xml'')
        (write_file (path_join [branding, ''network.xml'']) (render_network_xml gateways))) (\<lambda>_.
      bindR (map_error (Wrap ''mkdir plugin configs dir'') (mkdir_all configs)) (\<lambda>_.
      bindR (map_error (Wrap ''render SSO-Auth.xml'') (lift_result (render_sso_config assets ic))) (\<lambda>xml.
      map_error (Wrap ''write SSO-Auth.xml'') (write_file (path_join [configs, ''SSO-Auth.xml'']) xml))))))))"

definition jellyfin_post_up :: "jellyfin_assets \<Rightarrow> install_context \<Rightarrow> ('r host_scheme, unit) run" where
  "jellyfin_post_up assets ic =
     (let base = local_url ic []; dir = path_join [ic_data ic, ''config'', ''plugins'', ''SSO_Authentication''] in
      bindR (map_error (Wrap ''wait for jellyfin'') (with_timeout 300 (wait_for_jellyfin base))) (\<lambda>completed.
      bindR (if completed then ret () else map_error (Wrap ''startup wizard'') (run_startup_wizard base (ic_password ic))) (\<lambda>_.
      bindR (map_error (Wrap ''stat plugin dir'') (file_exists dir)) (\<lambda>there.
      bindR (if there then ret () else map_error (Wrap ''install SSO plugin'') (install_sso_plugin assets dir)) (\<lambda>_.
      bindR (write_branding_and_sso_config assets ic) (\<lambda>_.
      bindR (map_error (Wrap ''restart jellyfin'') (restart_app ic)) (\<lambda>_.
      bindR (map_error (Wrap ''wait for jellyfin restart'') (with_timeout 120 (wait_for_jellyfin base))) (\<lambda>_. ret ()))))))))"

definition jellyfin_spec :: "jellyfin_assets \<Rightarrow> string \<Rightarrow> ('r host_scheme) spec" where
  "jellyfin_spec assets template = \<lparr>sp_name = ''jellyfin'', sp_display = ''Jellyfin'', sp_description = ''Media server'',
     sp_icon = [CHR 0xF0, CHR 0x9F, CHR 0x8E, CHR 0xAC], sp_subdomain = ''jellyfin'', sp_port = 18096, sp_preserve = True, sp_oidc = True, sp_gate = False,
     sp_redirects = Some jellyfin_redirects, sp_template = template, sp_pre_up = None,
     sp_post_up = Some (jellyfin_post_up assets)\<rparr>"

subsection \<open>The archive cannot escape\<close>

text \<open>The files outside a directory.\<close>

definition outside_files :: "string \<Rightarrow> 'r host_scheme \<Rightarrow> string \<Rightarrow> string option" where
  "outside_files d w q = (case map_of (hs_fs w) q of Some (FsFile s) \<Rightarrow> if under d q then None else Some s | _ \<Rightarrow> None)"

lemma mkdir_fold_lookup: "map_of (fold (\<lambda>q fs. fs_put q FsDir fs) qs fs) q = (if q \<in> set qs then Some FsDir else map_of fs q)"
  by (induction qs arbitrary: fs) auto

lemma frame_fault_files [preserves_intro]: "frame (outside_files d) disk_fault"
  unfolding frame_def by (auto simp: disk_fault_def outside_files_def fun_eq_iff split: list.splits bool.splits)

lemma frame_mkdir_files [preserves_intro]: "frame (outside_files d) (mkdir_all p)"
  unfolding mkdir_all_def
  by (rule frame_bindR [OF frame_fault_files])
    (auto simp: frame_def outside_files_def fun_eq_iff mkdir_fold_lookup list_ex_iff split: option.splits fs_node.splits)

lemma frame_write_files: "under d (path_clean p) \<Longrightarrow> frame (outside_files d) (write_file p s)"
  unfolding write_file_def
  by (rule frame_bindR [OF frame_fault_files])
    (auto simp: frame_def outside_files_def fun_eq_iff Let_def split: option.splits fs_node.splits)

lemma path_join_clean: "path_clean (path_join es) = path_join es \<or> path_join es = []"
  by (simp add: path_join_def path_clean_idem split: list.split)

lemma frame_unzip_entry:
  assumes "d \<noteq> []"
  shows "frame (outside_files d) (unzip_entry d f)"
proof -
  let ?out = "path_join [d, ze_name f]"
  have "?out \<noteq> []" using assms by (cases "ze_name f = []") (auto simp: path_join_def path_clean_def Let_def)
  then have c: "path_clean ?out = ?out" using path_join_clean by blast
  show ?thesis
  proof (cases "under d ?out")
    case True
    then have "frame (outside_files d) (write_file ?out b)" for b using c frame_write_files by metis
    then show ?thesis using True unfolding unzip_entry_def Let_def
      by (intro preserves_intro) (auto simp: under_def intro!: preserves_intro split: option.split)
  next
    case False
    then show ?thesis unfolding unzip_entry_def Let_def by (simp add: under_def frame_def throw_run)
  qed
qed

text \<open>C30: The plugin archive cannot write outside its directory: whatever the archive holds, and whether or not the
  unpacking succeeds, the files outside the destination are the same before and after it.\<close>

theorem unzip_stays_inside:
  assumes "ja_cwd assets \<noteq> []"
  shows "outside_files (path_abs (ja_cwd assets) dest) (snd (unzip_into assets bytes dest w)) =
    outside_files (path_abs (ja_cwd assets) dest) w"
proof -
  have "path_abs (ja_cwd assets) dest \<noteq> []"
    using assms by (auto simp: path_abs_def path_join_def path_clean_def Let_def)
  then have "frame (outside_files (path_abs (ja_cwd assets) dest)) (unzip_into assets bytes dest)"
    unfolding unzip_into_def using frame_unzip_entry by (intro preserves_intro) auto
  then show ?thesis unfolding frame_def by blast
qed

text \<open>An archive with one honest entry and one that climbs out.\<close>

definition sample_assets :: jellyfin_assets where
  "sample_assets = \<lparr>ja_ip6 = (\<lambda>_. None), ja_branding = [], ja_sso = [], ja_cwd = ''/srv'',
     ja_zip = (\<lambda>_. Inr [\<lparr>ze_name = ''sso.dll'', ze_dir = False, ze_open = Inr (''code'', None)\<rparr>,
       \<lparr>ze_name = ''../../passwd'', ze_dir = False, ze_open = Inr (''root'', None)\<rparr>])\<rparr>"

lemma unzip_stays_inside_witness:
  "let w = sample_host; r = unzip_into sample_assets [] ''/srv/plugins/sso'' w in
     ja_cwd sample_assets \<noteq> [] \<and> fst r = Inl (Msg (''zip entry escapes dest: '' @ go_quote ''../../passwd'')) \<and>
     map_of (hs_fs (snd r)) ''/srv/plugins/sso/sso.dll'' = Some (FsFile ''code'') \<and>
     outside_files (path_abs ''/srv'' ''/srv/plugins/sso'') (snd r) = outside_files (path_abs ''/srv'' ''/srv/plugins/sso'') w"
proof -
  have c: "ja_cwd sample_assets = ''/srv''" by (simp add: sample_assets_def)
  have "fst (unzip_into sample_assets [] ''/srv/plugins/sso'' sample_host) = Inl (Msg (''zip entry escapes dest: '' @ go_quote ''../../passwd''))
    \<and> map_of (hs_fs (snd (unzip_into sample_assets [] ''/srv/plugins/sso'' sample_host))) ''/srv/plugins/sso/sso.dll'' = Some (FsFile ''code'')"
    by code_simp
  then show ?thesis
    using unzip_stays_inside [of sample_assets "''/srv/plugins/sso''" "[]" sample_host] c by (simp add: Let_def)
qed

subsection \<open>The trusted proxies are addresses\<close>

definition ip_char :: "char \<Rightarrow> bool" where
  "ip_char c \<longleftrightarrow> hex_val c \<noteq> None \<or> c = CHR ''.'' \<or> c = CHR '':''"

lemma join_chars: "set (join_with sep ps) \<subseteq> set sep \<union> (\<Union>p \<in> set ps. set p)"
  by (induction sep ps rule: join_with.induct) auto

lemma split_chars: "c \<in> set s \<Longrightarrow> c = d \<or> (\<exists>p \<in> set (split_at d s). c \<in> set p)"
  using join_chars [of "[d]" "split_at d s"] by auto

lemma digits_acc_chars: "digits_acc n s = Some m \<Longrightarrow> c \<in> set s \<Longrightarrow> digit_val c \<noteq> None"
  by (induction s arbitrary: n) (auto split: option.splits)

lemma digit_is_hex: "digit_val c \<noteq> None \<Longrightarrow> hex_val c \<noteq> None"
  by (auto simp: digit_val_def hex_val_def Let_def split: if_splits)

lemma ip4_chars: "parse_ip4 s \<Longrightarrow> c \<in> set s \<Longrightarrow> ip_char c"
proof -
  assume s: "parse_ip4 s" and c: "c \<in> set s"
  have "ip_char c" if p: "p \<in> set (split_at (CHR ''.'') s)" "c \<in> set p" for p
  proof -
    have "ip4_field p" using s p(1) by (simp add: parse_ip4_def Let_def list_all_iff)
    then obtain n where "digits_acc 0 p = Some n" by (auto simp: ip4_field_def parse_nat_def split: option.splits if_splits)
    then show ?thesis using digits_acc_chars p(2) digit_is_hex by (auto simp: ip_char_def)
  qed
  then show "ip_char c" using split_chars [OF c, of "CHR ''.''"] by (auto simp: ip_char_def)
qed

lemma hex_group_chars: "hex_group p \<Longrightarrow> c \<in> set p \<Longrightarrow> ip_char c"
  by (auto simp: hex_group_def list_all_iff ip_char_def)

lemma colon_part_chars:
  assumes "\<And>p c. p \<in> set (colon_parts s) \<Longrightarrow> c \<in> set p \<Longrightarrow> ip_char c" "c \<in> set s"
  shows "ip_char c"
proof -
  have "colon_parts s = split_at (CHR '':'') s" using assms(2) by (auto simp: colon_parts_def)
  then show ?thesis using assms(1) split_chars [OF assms(2), of "CHR '':''"] by (auto simp: ip_char_def)
qed

lemma ip6_group_chars: "ip6_groups gs = Some n \<Longrightarrow> p \<in> set gs \<Longrightarrow> c \<in> set p \<Longrightarrow> ip_char c"
proof -
  assume a: "ip6_groups gs = Some n" "p \<in> set gs" "c \<in> set p"
  consider "list_all hex_group gs" | "gs \<noteq> []" "list_all hex_group (butlast gs)" "parse_ip4 (last gs)"
    using a(1) by (auto simp: ip6_groups_def split: if_splits)
  then show "ip_char c"
  proof cases
    case 2
    then have "p \<in> set (butlast gs) \<or> p = last gs"
      using a(2) by (metis append_butlast_last_id rotate1.simps(2) set_ConsD set_rotate1)
    then show ?thesis using 2 a(3) hex_group_chars ip4_chars by (auto simp: list_all_iff)
  qed (use a hex_group_chars in \<open>auto simp: list_all_iff\<close>)
qed

lemma is_ip_chars: "is_ip s \<Longrightarrow> list_all ip_char s"
  unfolding list_all_iff
proof
  fix c assume s: "is_ip s" and c: "c \<in> set s"
  show "ip_char c"
  proof (cases "parse_ip4 s")
    case False
    then have p6: "parse_ip6 s" using s by (simp add: is_ip_def)
    show ?thesis
    proof (cases "cut_string ''::'' s")
      case None
      then have "ip6_groups (colon_parts s) = Some 8" using p6 by (simp add: parse_ip6_def)
      then show ?thesis using colon_part_chars [OF _ c] ip6_group_chars by blast
    next
      case (Some ab)
      obtain a b where ab: "ab = (a, b)" by fastforce
      have s2: "s = a @ ''::'' @ b" using Some ab cut_string_Some by blast
      obtain n where h: "list_all hex_group (colon_parts a)" "ip6_groups (colon_parts b) = Some n"
        using p6 Some ab by (auto simp: parse_ip6_def split: option.splits)
      have "ip_char c" if "c \<in> set a"
        using colon_part_chars [OF _ that] h(1) hex_group_chars by (auto simp: list_all_iff)
      moreover have "ip_char c" if "c \<in> set b"
        using colon_part_chars [OF _ that] h(2) ip6_group_chars by blast
      ultimately show ?thesis using c s2 by (auto simp: ip_char_def)
    qed
  qed (use c ip4_chars in blast)
qed

text \<open>Jellyfin is told to trust addresses only: what docker prints about the container never reaches
  \<^verbatim>\<open>network.xml\<close> unless it is an IP address, made of hexadecimal digits, dots and colons; without one the
  discovery fails. It reads only and writes no file.\<close>

theorem trusted_proxies_are_addresses:
  "case discover_proxy_ips container w of (r, w') \<Rightarrow> hs_fs w' = hs_fs w \<and>
     (case r of Inl e \<Rightarrow> e = Wrap (''docker inspect '' @ container) (Msg ''exit status 1'') \<or>
         e = Msg (''docker inspect '' @ container @ '': no gateway IPs found'')
      | Inr ips \<Rightarrow> ips \<noteq> [] \<and> list_all (\<lambda>ip. is_ip ip \<and> list_all ip_char ip) ips)"
  using is_ip_chars
  by (auto simp: discover_proxy_ips_def bindR_run run_command_def throw_run ret_run Let_def list_all_iff
      split: list.split if_splits)

end
