(* ===== verification/App_Uninstall.thy ===== *)
theory App_Uninstall
  imports App_Install
begin

text \<open>
  Removing an app (\<^verbatim>\<open>internal/apps/uninstall.go\<close>): bring the containers down, delete the client and
  the row, then the files; and the paths an app was installed with. The main results: the files of an
  app are deleted only after docker reported success or an error that reads like a missing file, and a
  removal that succeeds leaves neither row, client, token nor file; what counts as a missing compose
  file is wider than it should be, so files can be deleted although docker never brought the
  containers down (\<open>socket_error_deletes_data\<close>).
\<close>

record uninstall_context =
  uc_name :: string
  uc_compose :: string
  uc_data :: string
  uc_keep :: bool
  uc_force :: bool
  uc_db :: bool
  uc_orch :: "orchestrator option"

definition or_none :: "string \<Rightarrow> string" where
  "or_none p = (if p = [] then ''(none)'' else p)"

definition is_missing_compose_file :: "error \<Rightarrow> bool" where
  "is_missing_compose_file e \<longleftrightarrow> error_is e ErrNotExist \<or>
     contains_str (error_text e) ''no such file or directory'' \<or> contains_str (error_text e) ''Cannot find file''"

text \<open>\<open>downErr\<close>: what is left to report, \<open>None\<close> when nothing may still be running.\<close>

definition bring_down :: "uninstall_context \<Rightarrow> ('r host_scheme, error option) run" where
  "bring_down uc = (case uc_orch uc of
       None \<Rightarrow> ret None
     | Some o1 \<Rightarrow>
         if uc_compose uc = [] then ret None
         else bindR (attempt (orch_down_volumes o1 (uc_compose uc))) (\<lambda>r. case r of
             Inr out \<Rightarrow> ret None
           | Inl e \<Rightarrow>
               if is_missing_compose_file e then ret None
               else if \<not> uc_force uc then throw (Wrap ''compose down'' e)
               else ret (Some e)))"

definition remove_files :: "uninstall_context \<Rightarrow> ('r host_scheme, unit) run" where
  "remove_files uc =
     bindR (if \<not> uc_keep uc \<and> uc_data uc \<noteq> []
            then map_error (Wrap (''remove data root '' @ uc_data uc)) (remove_all (uc_data uc)) else ret ()) (\<lambda>_.
     if uc_compose uc = [] then ret ()
     else bindR (attempt (remove_file (uc_compose uc))) (\<lambda>r. case r of
         Inl e \<Rightarrow>
           if \<not> error_is e ErrNotExist then throw (Wrap (''remove compose file '' @ uc_compose uc) e)
           else bindR (attempt (remove_file (path_dir (uc_compose uc)))) (\<lambda>_. ret ())
       | Inr _ \<Rightarrow> bindR (attempt (remove_file (path_dir (uc_compose uc)))) (\<lambda>_. ret ())))"

definition left_behind :: "uninstall_context \<Rightarrow> string" where
  "left_behind uc = ''app '' @ go_quote (uc_name uc) @ '' removed from nass, but its containers may still be running, ''
     @ ''so data '' @ or_none (uc_data uc) @ '' and compose file '' @ or_none (uc_compose uc)
     @ '' were left in place; stop the containers, then delete them by hand: compose down''"

text \<open>The client, the row, and the files unless something may still be running.\<close>

definition forget_app :: "uninstall_context \<Rightarrow> error option \<Rightarrow> ('r host_scheme, unit) run" where
  "forget_app uc down =
     bindR (map_error (Wrap ''cleanup oidc client'') (cleanup_client (uc_name uc))) (\<lambda>_.
     bindR (map_error (Wrap ''delete app row'') (exec (del_apps (\<lambda>a. ap_name a = uc_name uc)))) (\<lambda>n.
     if n = 0 then throw (Msg (''app '' @ go_quote (uc_name uc) @ '' is not installed''))
     else (case down of Some e \<Rightarrow> throw (Wrap (left_behind uc) e) | None \<Rightarrow> remove_files uc)))"

definition uninstall_app :: "uninstall_context option \<Rightarrow> ('r host_scheme, unit) run" where
  "uninstall_app uco = (case uco of
       None \<Rightarrow> throw (Msg ''uninstall: nil context'')
     | Some uc \<Rightarrow>
         if uc_name uc = [] then throw (Msg ''uninstall: name required'')
         else if \<not> uc_db uc then throw (Msg ''uninstall: db required'')
         else bindR (bring_down uc) (forget_app uc))"

definition load_app_paths :: "string \<Rightarrow> ('r world_scheme, (string \<times> string) option) run" where
  "load_app_paths n = bindR (query (\<lambda>d. map_option ap_settings (app_by n d))) (\<lambda>r. case r of
       None \<Rightarrow> ret None
     | Some EmptyText \<Rightarrow> ret (Some ([], []))
     | Some BadJson \<Rightarrow> throw (Wrap ''decode settings'' (Msg ''invalid JSON''))
     | Some (Json s) \<Rightarrow> ret (Some (st_compose_file s, st_data_root s)))"

subsection \<open>Invariant and frames\<close>

lemma frame_bring_down [preserves_intro]: "frame w_db (bring_down uc)"
  unfolding bring_down_def by (intro preserves_intro)

lemma frame_remove_files [preserves_intro]: "frame w_db (remove_files uc)"
  unfolding remove_files_def by (intro preserves_intro)

lemma preserves_uninstall [preserves_intro]: "preserves world_ok (uninstall_app uc)"
proof -
  have "preserves world_ok (bring_down u)" "preserves world_ok (remove_files u)" for u
    unfolding world_ok_def by (intro frame_preserves preserves_intro)+
  then show ?thesis unfolding uninstall_app_def forget_app_def by (intro preserves_intro)
qed

lemma frame_load_app_paths [preserves_intro]: "frame w_db (load_app_paths n)"
  unfolding load_app_paths_def by (auto simp: frame_def bindR_def ret_run throw_run split: prod.split sum.split option.split json.split dest!: query_InrD query_InlD)

text \<open>The files: only their removal changes them.\<close>

lemma frame_commands_fs [preserves_intro]: "frame hs_fs (run_command argv)"
  by (auto simp: frame_def run_command_def split: list.splits)

lemma frame_orch_fs [preserves_intro]: "frame hs_fs (orch_call o1 f a)"
  unfolding orch_call_def orch_run_def by (intro preserves_intro)

lemma frame_down_fs [preserves_intro]: "frame hs_fs (bring_down uc)"
  unfolding bring_down_def orch_down_volumes_def by (intro preserves_intro)

lemma frame_cleanup_fs [preserves_intro]: "frame hs_fs (cleanup_client n)"
  unfolding cleanup_client_def delete_client_def by (intro preserves_intro) simp_all

subsection \<open>When files are deleted\<close>

text \<open>C26: When docker compose fails to bring an app down with an error that is not a missing file, that has
  neither the phrase \<open>no such file or directory\<close> nor \<open>Cannot find file\<close> anywhere in its text, the removal
  reports an error and every file of the host stays as it was; without Force nothing changes in
  the database either. (The excluded errors are taken for a missing compose file, whatever they are
  really about: then the data is deleted under containers that may be running, see
  \<open>socket_error_deletes_data\<close>.)\<close>

theorem failed_down_keeps_files:
  assumes "orch_down_volumes o1 (uc_compose uc) w = (Inl e, w1)"
    and "\<not> error_is e ErrNotExist" "\<not> contains_str (error_text e) ''no such file or directory''"
      "\<not> contains_str (error_text e) ''Cannot find file''"
    and "uc_orch uc = Some o1" "uc_compose uc \<noteq> []"
  shows "\<exists>e' w'. uninstall_app (Some uc) w = (Inl e', w') \<and> hs_fs w' = hs_fs w \<and>
    (uc_force uc \<or> w_db w' = w_db w)"
proof -
  obtain r w' where run: "uninstall_app (Some uc) w = (r, w')" by fastforce
  have down: "bring_down uc w = (if uc_force uc then (Inr (Some e), w1) else (Inl (Wrap ''compose down'' e), w1))"
    using assms by (simp add: bring_down_def is_missing_compose_file_def run_eval run_simps)
  have w1: "hs_fs w1 = hs_fs w" "w_db w1 = w_db w"
    using frameD [OF frame_down_fs, of uc w] frameD [OF frame_bring_down, of uc w] down by (auto split: if_splits)
  show ?thesis
  proof (cases "uc_name uc = [] \<or> \<not> uc_db uc \<or> \<not> uc_force uc")
    case True
    then show ?thesis using down w1 by (auto simp: uninstall_app_def run_eval run_simps)
  next
    case False
    have f: "frame hs_fs (forget_app uc (Some e) :: ('a host_scheme, unit) run)"
      unfolding forget_app_def option.case by (intro preserves_intro) simp_all
    obtain r2 w2 where r: "forget_app uc (Some e) w1 = (r2, w2)" by fastforce
    have u: "uninstall_app (Some uc) w = (r2, w2)"
      using down False r by (simp add: uninstall_app_def bindR_run)
    have "hs_fs w2 = hs_fs w" using frame_pair [OF f r] w1 by simp
    moreover obtain e' where "r2 = Inl e'"
      using r by (auto simp: forget_app_def bindR_def throw_run split: prod.splits sum.splits if_splits)
    ultimately show ?thesis using u r False by auto
  qed
qed

definition sample_uninstall :: uninstall_context where
  "sample_uninstall = \<lparr>uc_name = ''blog'', uc_compose = ''/c/blog/x.yaml'', uc_data = ''/d/blog'', uc_keep = False, uc_force = False,
     uc_db = True, uc_orch = Some (new_orchestrator ''/c'' [])\<rparr>"

definition sample_down_error :: "string \<Rightarrow> error" where
  "sample_down_error out = Wrap ''docker compose -f /c/blog/x.yaml down -v --remove-orphans'' (Msg (''exit status 1 ('' @ out @ '')''))"

lemma failed_down_keeps_files_witness:
  "\<exists>e' w'. uninstall_app (Some sample_uninstall) ((snd sample_install)\<lparr>hs_outs := [(False, ''permission denied'')]\<rparr>) = (Inl e', w') \<and>
     hs_fs w' = hs_fs (snd sample_install)"
proof -
  let ?w = "(snd sample_install)\<lparr>hs_outs := [(False, ''permission denied'')]\<rparr>"
  have d: "orch_down_volumes (new_orchestrator ''/c'' []) (uc_compose sample_uninstall) ?w =
      (Inl (sample_down_error ''permission denied''), snd (orch_down_volumes (new_orchestrator ''/c'' []) (uc_compose sample_uninstall) ?w))"
    by code_simp
  have m: "\<not> error_is (sample_down_error ''permission denied'') ErrNotExist"
    "\<not> contains_str (error_text (sample_down_error ''permission denied'')) ''no such file or directory''"
    "\<not> contains_str (error_text (sample_down_error ''permission denied'')) ''Cannot find file''"
    by code_simp+
  from failed_down_keeps_files [OF d m] show ?thesis by (force simp: sample_uninstall_def)
qed

text \<open>Docker's error text is searched for \<open>no such file or directory\<close>. When the daemon cannot be reached because its
  socket is not there, the error has that phrase too: the containers, if they run, are not brought down, and the data and
  the compose file are deleted, although Force was not asked for, and success is reported.\<close>

theorem socket_error_deletes_data:
  "case uninstall_app (Some sample_uninstall) ((snd sample_install)\<lparr>hs_outs :=
      [(False, ''dial unix /var/run/docker.sock: connect: no such file or directory'')]\<rparr>) of
     (r, w') \<Rightarrow> r = Inr () \<and> map_of (hs_fs (snd sample_install)) ''/d/blog'' = Some FsDir \<and> map_of (hs_fs w') ''/d/blog'' = None \<and>
       map_of (hs_fs w') ''/c/blog/x.yaml'' = None"
  by code_simp

subsection \<open>What a removal leaves\<close>

text \<open>Removing files only takes entries away.\<close>

lemma remove_file_cases:
  assumes "remove_file p w = (r, w')"
  shows "(case r of Inr u \<Rightarrow> hs_fs w' = filter (\<lambda>e. fst e \<noteq> path_clean p) (hs_fs w)
    | Inl e \<Rightarrow> hs_fs w' = hs_fs w \<and> (error_is e ErrNotExist \<longrightarrow> map_of (hs_fs w) (path_clean p) = None))"
proof -
  obtain r0 w0 where d: "disk_fault w = (r0, w0)" by fastforce
  have r0: "r0 = Inr () \<or> r0 = Inl (Msg ''input/output error'')" and fs: "hs_fs w0 = hs_fs w"
    using disk_fault_cases [OF d] by auto
  show ?thesis
  proof (cases r0)
    case (Inl e)
    then show ?thesis using assms d r0 fs by (auto simp: remove_file_def bindR_run)
  next
    case (Inr u)
    then show ?thesis
      using assms d fs by (cases "map_of (hs_fs w) (path_clean p)")
        (auto simp: remove_file_def bindR_run Let_def split: if_splits)
  qed
qed

lemma remove_all_Inr:
  "remove_all p w = (Inr u, w') \<Longrightarrow> hs_fs w' = filter (\<lambda>e. \<not> under (path_clean p) (fst e)) (hs_fs w)"
  by (auto simp: remove_all_def bindR_Inr_iff dest!: disk_fault_cases)

lemma remove_file_subset: "remove_file p w = (r, w') \<Longrightarrow> set (hs_fs w') \<subseteq> set (hs_fs w)"
  by (drule remove_file_cases) (auto split: sum.splits)

lemma map_of_subset_None: "set xs \<subseteq> set ys \<Longrightarrow> map_of ys k = None \<Longrightarrow> map_of xs k = None"
  by (auto simp: map_of_eq_None_iff)

lemma remove_files_Inr:
  assumes "remove_files uc w = (Inr u, w')"
  shows "(uc_compose uc \<noteq> [] \<longrightarrow> map_of (hs_fs w') (path_clean (uc_compose uc)) = None) \<and>
    (\<not> uc_keep uc \<longrightarrow> uc_data uc \<noteq> [] \<longrightarrow> (\<forall>e \<in> set (hs_fs w'). \<not> under (path_clean (uc_data uc)) (fst e)))"
proof -
  obtain w1 where w1: "(if \<not> uc_keep uc \<and> uc_data uc \<noteq> []
            then map_error (Wrap (''remove data root '' @ uc_data uc)) (remove_all (uc_data uc)) else ret ()) w = (Inr (), w1)"
    and rest: "(if uc_compose uc = [] then ret () else bindR (attempt (remove_file (uc_compose uc))) (\<lambda>r. case r of
         Inl e \<Rightarrow>
           if \<not> error_is e ErrNotExist then throw (Wrap (''remove compose file '' @ uc_compose uc) e)
           else bindR (attempt (remove_file (path_dir (uc_compose uc)))) (\<lambda>_. ret ())
       | Inr _ \<Rightarrow> bindR (attempt (remove_file (path_dir (uc_compose uc)))) (\<lambda>_. ret ()))) w1 = (Inr u, w')"
    using assms by (auto simp: remove_files_def bindR_Inr_iff)
  have data: "\<not> uc_keep uc \<longrightarrow> uc_data uc \<noteq> [] \<longrightarrow> (\<forall>e \<in> set (hs_fs w1). \<not> under (path_clean (uc_data uc)) (fst e))"
    using w1 by (auto dest!: remove_all_Inr)
  show ?thesis
  proof (cases "uc_compose uc = []")
    case True
    then show ?thesis using rest data by (auto simp: ret_run)
  next
    case False
    obtain q w2 where q: "remove_file (uc_compose uc) w1 = (q, w2)" by fastforce
    obtain r3 w3 where r3: "remove_file (path_dir (uc_compose uc)) w2 = (r3, w3)" by fastforce
    have ok: "case q of Inl e \<Rightarrow> error_is e ErrNotExist | Inr _ \<Rightarrow> True" and w': "w' = w3"
      using rest False q r3 by (cases q; auto simp: run_eval run_simps split: if_splits)+
    have gone: "map_of (hs_fs w2) (path_clean (uc_compose uc)) = None"
      using remove_file_cases [OF q] ok
      by (cases q) (auto simp: fs_filter_lookup [of "\<lambda>x. x \<noteq> path_clean (uc_compose uc)"])
    have "set (hs_fs w2) \<subseteq> set (hs_fs w1)" "set (hs_fs w') \<subseteq> set (hs_fs w2)"
      using remove_file_subset [OF q] remove_file_subset [OF r3] w' by simp_all
    then show ?thesis using data gone map_of_subset_None [of "hs_fs w'" "hs_fs w2"] by blast
  qed
qed

lemma del_apps_spec:
  assumes "del_apps (\<lambda>a. ap_name a = n) d = Inr (k, d')"
  shows "app_by m d' = (if m = n then None else app_by m d) \<and> row_by cl_app n (db_clients d') = None \<and>
    (\<forall>r \<in> set (db_access d'). r \<in> set (db_access d)) \<and> (\<forall>r \<in> set (db_refresh d'). r \<in> set (db_refresh d)) \<or> k = 0"
  using assms
  by (auto simp: del_apps_def Let_def app_by_def row_by_delete_key row_by_None filter_empty_conv)

text \<open>C27: A removal that reports success leaves nothing of the app: its row and its OIDC client are gone, with every token
  issued to the client; the compose file is gone, and so is everything in the data folder unless the data was to be
  kept. The other apps keep their rows.\<close>

theorem uninstall_leaves_nothing:
  assumes "uninstall_app (Some uc) w = (Inr u, w')"
  shows "app_by (uc_name uc) (w_db w') = None \<and> row_by cl_app (uc_name uc) (db_clients (w_db w')) = None \<and>
    (\<forall>c. row_by cl_app (uc_name uc) (db_clients (w_db w)) = Some c \<longrightarrow> no_client_tokens (cl_id c) (w_db w')) \<and>
    (uc_compose uc \<noteq> [] \<longrightarrow> map_of (hs_fs w') (path_clean (uc_compose uc)) = None) \<and>
    (\<not> uc_keep uc \<longrightarrow> uc_data uc \<noteq> [] \<longrightarrow> (\<forall>e \<in> set (hs_fs w'). \<not> under (path_clean (uc_data uc)) (fst e))) \<and>
    (\<forall>n. n \<noteq> uc_name uc \<longrightarrow> app_by n (w_db w') = app_by n (w_db w))"
proof -
  obtain down w1 w2 k w3 where steps: "bring_down uc w = (Inr down, w1)" "cleanup_client (uc_name uc) w1 = (Inr (), w2)"
      "exec (del_apps (\<lambda>a. ap_name a = uc_name uc)) w2 = (Inr k, w3)" "k \<noteq> 0" "remove_files uc w3 = (Inr u, w')"
    using assms by (auto simp: uninstall_app_def forget_app_def bindR_Inr_iff throw_run split: if_splits option.splits)
  obtain found where found: "delete_client (uc_name uc) w1 = (Inr found, w2)"
    using steps(2) by (auto simp: cleanup_client_def bindR_Inr_iff ret_run)
  obtain d3 where d3: "del_apps (\<lambda>a. ap_name a = uc_name uc) (w_db w2) = Inr (k, d3)" "w_db w3 = d3"
    using exec_InrD [OF steps(3)] by auto
  have db: "w_db w1 = w_db w" "w_db w' = d3"
    using frame_pair [OF frame_bring_down steps(1)] frame_pair [OF frame_remove_files steps(5)] d3 by simp_all
  note del = del_apps_spec [OF d3(1)]
  note cl = delete_client_cases [OF found]
  have "app_by n (w_db w2) = app_by n (w_db w)" for n
    using cl db(1) by (auto simp: app_by_def client_gone_def split: option.splits)
  moreover have "no_client_tokens (cl_id c) d3" if "row_by cl_app (uc_name uc) (db_clients (w_db w)) = Some c" for c
  proof -
    have "no_client_tokens (cl_id c) (w_db w2)" using cl db(1) that client_gone_tokens by auto
    then show ?thesis using d3(1) by (auto simp: del_apps_def Let_def no_client_tokens_def)
  qed
  ultimately show ?thesis
    using del db(2) steps(4) remove_files_Inr [OF steps(5)] by (auto split: if_splits)
qed

lemma uninstall_leaves_nothing_witness:
  "app_by ''blog'' (w_db (snd (uninstall_app (Some sample_uninstall) (snd sample_install)))) = None"
proof -
  have "uninstall_app (Some sample_uninstall) (snd sample_install) =
      (Inr (), snd (uninstall_app (Some sample_uninstall) (snd sample_install)))" by code_simp
  from uninstall_leaves_nothing [OF this] show ?thesis by (simp add: sample_uninstall_def)
qed

end
