(* ===== verification/App_Wait.thy ===== *)
theory App_Wait
  imports App_Install
begin

text \<open>
  \<open>WaitFor\<close> of \<^verbatim>\<open>internal/apps/install.go\<close> on the clock. The installation counts the polls of a context
  (\<open>hs_polls\<close>); here the same loop is written over time: the context is done from the instant \<open>dl\<close> on,
  every attempt takes its time and is answered or not, and a failed attempt is followed by a pause of
  one interval. Nothing bounds the number of rounds but the clock, so that the loop ends is a
  theorem, and so is that the loop over polls computes the same (\<open>rounds_refine\<close>).
\<close>

record attempt =
  at_time :: nat
  at_reply :: net_reply

record waited =
  wt_ok :: bool
  wt_end :: nat
  wt_sent :: nat
  wt_polls :: nat

definition second_dur :: nat where
  "second_dur = 10 ^ 9"

text \<open>The loop with the interval \<open>Suc iv\<close>, from its \<open>i\<close>-th attempt at the instant \<open>tm\<close>. When the pause and
  the end of the context fall on one instant, \<open>select\<close> may choose either; the next round then finds the
  context done at that same instant. \<open>wt_polls\<close> counts the times the loop found the context not done.\<close>

function wait_rounds :: "nat \<Rightarrow> nat \<Rightarrow> (nat \<Rightarrow> attempt) \<Rightarrow> nat \<Rightarrow> nat \<Rightarrow> waited" where
  "wait_rounds iv dl at i tm =
     (if dl \<le> tm then \<lparr>wt_ok = False, wt_end = tm, wt_sent = i, wt_polls = 0\<rparr>
      else let t = tm + at_time (at i) in
        if at_reply (at i) \<noteq> NetFail then \<lparr>wt_ok = True, wt_end = t, wt_sent = Suc i, wt_polls = 1\<rparr>
        else if dl \<le> t + Suc iv then \<lparr>wt_ok = False, wt_end = max t dl, wt_sent = Suc i, wt_polls = 1\<rparr>
        else (let r = wait_rounds iv dl at (Suc i) (t + Suc iv) in r\<lparr>wt_polls := Suc (Suc (wt_polls r))\<rparr>))"
  by pat_completeness auto

termination
  by (relation "measure (\<lambda>(iv, dl, at, i, tm). dl - tm)") auto

declare wait_rounds.simps [simp del]

definition wait_timed :: "nat \<Rightarrow> nat \<Rightarrow> (nat \<Rightarrow> attempt) \<Rightarrow> nat \<Rightarrow> waited" where
  "wait_timed interval dl at tm =
     wait_rounds ((if interval = 0 then second_dur else interval) - 1) dl at 0 tm"

subsection \<open>What the loop does\<close>

text \<open>Every attempt but the last failed and was followed by a pause; the last one decides.\<close>

definition rounds_ok :: "nat \<Rightarrow> nat \<Rightarrow> (nat \<Rightarrow> attempt) \<Rightarrow> nat \<Rightarrow> nat \<Rightarrow> waited \<Rightarrow> bool" where
  "rounds_ok iv dl at i tm r \<longleftrightarrow> i \<le> wt_sent r \<and>
     (wt_ok r \<longleftrightarrow> i < wt_sent r \<and> at_reply (at (wt_sent r - 1)) \<noteq> NetFail) \<and>
     (\<forall>k. i \<le> k \<longrightarrow> Suc k < wt_sent r \<longrightarrow> at_reply (at k) = NetFail) \<and>
     (\<not> wt_ok r \<longrightarrow> dl \<le> wt_end r) \<and> wt_end r \<le> max tm (dl + Suc iv) \<and>
     (wt_sent r = i \<or> (wt_sent r - Suc i) * Suc iv < dl - tm)"

lemma rounds_spec:
  "\<forall>k. at_time (at k) \<le> Suc iv \<Longrightarrow> rounds_ok iv dl at i tm (wait_rounds iv dl at i tm)"
proof (induction iv dl at i tm rule: wait_rounds.induct)
  case (1 iv dl at i tm)
  define t where "t = tm + at_time (at i)"
  have t: "t \<le> tm + Suc iv" using 1(2) by (simp add: t_def)
  consider "dl \<le> tm" | "tm < dl" "at_reply (at i) \<noteq> NetFail"
    | "tm < dl" "at_reply (at i) = NetFail" "dl \<le> t + Suc iv"
    | "tm < dl" "at_reply (at i) = NetFail" "t + Suc iv < dl" by linarith
  then show ?case
  proof cases
    case 4
    let ?r = "wait_rounds iv dl at (Suc i) (t + Suc iv)"
    have ih: "rounds_ok iv dl at (Suc i) (t + Suc iv) ?r"
      using 1 4 unfolding t_def by simp
    have r: "wait_rounds iv dl at i tm = ?r\<lparr>wt_polls := Suc (Suc (wt_polls ?r))\<rparr>"
      using 4 by (subst wait_rounds.simps) (simp add: t_def Let_def)
    have "(wt_sent ?r - Suc i) * Suc iv < dl - tm"
    proof (cases "wt_sent ?r = Suc i")
      case False
      with ih obtain n where n: "wt_sent ?r = Suc (Suc (i + n))"
        unfolding rounds_ok_def by (metis Suc_leI add_Suc_right le_Suc_ex le_neq_implies_less add_Suc)
      with ih have "n * Suc iv < dl - (t + Suc iv)" by (simp add: rounds_ok_def)
      then show ?thesis using n 4 by (simp add: t_def)
    qed (use 4 in simp)
    moreover have "at_reply (at k) = NetFail" if "i \<le> k" "Suc k < wt_sent ?r" for k
      using ih that 4(2) by (cases "k = i") (auto simp: rounds_ok_def)
    ultimately show ?thesis using ih 4 unfolding r by (auto simp: rounds_ok_def)
  qed (subst wait_rounds.simps; use t in \<open>auto simp: rounds_ok_def Let_def t_def [symmetric]\<close>)+
qed

text \<open>The loop over polls does the same when the context allows as many polls and the attempts meet the
  same answers.\<close>

lemma wait_swap: "hs_polls_update f (hs_net_update g w) = hs_net_update g (hs_polls_update f w)"
  by (cases w) simp

lemma poll_loop_round:
  "poll_loop (Suc n) (probe_get target) e (w\<lparr>hs_polls := Some p, hs_net := x # xs\<rparr>) =
     (case p of 0 \<Rightarrow> (Inl e, w\<lparr>hs_polls := Some 0, hs_net := x # xs\<rparr>)
      | Suc q \<Rightarrow> (let w1 = w\<lparr>hs_reqs := hs_reqs w @ [(''GET'', target, [])]\<rparr> in
          if x \<noteq> NetFail then (Inr (), w1\<lparr>hs_polls := Some q, hs_net := xs\<rparr>)
          else (case q of 0 \<Rightarrow> (Inl e, w1\<lparr>hs_polls := Some 0, hs_net := xs\<rparr>)
            | Suc q' \<Rightarrow> poll_loop n (probe_get target) e (w1\<lparr>hs_polls := Some q', hs_net := xs\<rparr>))))"
  by (cases x; auto simp: run_eval run_simps probe_get_def http_do_def ctx_done_def wait_swap split: nat.split)

lemma rounds_sent: "i \<le> wt_sent (wait_rounds iv dl at i tm)"
proof (induction iv dl at i tm rule: wait_rounds.induct)
  case (1 iv dl at i tm)
  then show ?case by (subst wait_rounds.simps) (auto simp: Let_def)
qed

lemma rounds_refine:
  "wt_polls (wait_rounds iv dl at i tm) < n \<Longrightarrow>
    poll_loop n (probe_get target) e
      (w\<lparr>hs_polls := Some (wt_polls (wait_rounds iv dl at i tm)),
         hs_net := map (\<lambda>k. at_reply (at k)) [i..<wt_sent (wait_rounds iv dl at i tm)]\<rparr>) =
      ((if wt_ok (wait_rounds iv dl at i tm) then Inr () else Inl e),
       w\<lparr>hs_polls := Some 0, hs_net := [],
         hs_reqs := hs_reqs w @ replicate (wt_sent (wait_rounds iv dl at i tm) - i) (''GET'', target, [])\<rparr>)"
proof (induction iv dl at i tm arbitrary: n w rule: wait_rounds.induct)
  case (1 iv dl at i tm)
  obtain m where n: "n = Suc m" using 1(2) by (cases n) auto
  define t where "t = tm + at_time (at i)"
  consider "dl \<le> tm" | "tm < dl" "at_reply (at i) \<noteq> NetFail \<or> dl \<le> t + Suc iv"
    | "tm < dl" "at_reply (at i) = NetFail" "t + Suc iv < dl" by linarith
  then show ?case
  proof cases
    case 1
    then show ?thesis by (simp add: wait_rounds.simps n run_eval run_simps ctx_done_def)
  next
    case 2
    then show ?thesis
      by (subst (1 2 3 4) wait_rounds.simps) (auto simp: n t_def Let_def poll_loop_round wait_swap simp del: poll_loop.simps)
  next
    case 3
    let ?r = "wait_rounds iv dl at (Suc i) (t + Suc iv)"
    have r: "wait_rounds iv dl at i tm = ?r\<lparr>wt_polls := Suc (Suc (wt_polls ?r))\<rparr>"
      using 3 by (subst wait_rounds.simps) (simp add: t_def Let_def)
    have "[i..<wt_sent ?r] = i # [Suc i..<wt_sent ?r]"
      using rounds_sent [of "Suc i" iv dl at "t + Suc iv"] by (simp add: upt_rec)
    moreover have "wt_polls ?r < m" using "1.prems" r n by simp
    note ih = "1.IH" [unfolded t_def [symmetric], OF _ refl _ _ this]
    moreover have "wt_sent ?r - i = Suc (wt_sent ?r - Suc i)"
      using rounds_sent [of "Suc i" iv dl at "t + Suc iv"] by linarith
    ultimately show ?thesis
      using 3 ih unfolding r n
      by (simp add: poll_loop_round wait_swap del: poll_loop.simps)
  qed
qed

text \<open>C28: Waiting for an app comes to an end, and its result is the truth. Let the context end at the instant
  \<open>dl\<close> and let every attempt take at most one interval (the timeout of its HTTP client; an interval of zero
  means a second). Then \<open>WaitFor\<close> returns at the latest one interval after \<open>dl\<close>; it reports success exactly
  if the last request it sent was answered, whatever the answer says, and every earlier request was
  not; otherwise it returns the cancellation of the context, and never before \<open>dl\<close>; it sends fewer
  requests than the time allows intervals, plus one. The loop that the installation runs, which
  counts the polls of the context, computes exactly this result with exactly these requests.\<close>

theorem wait_for_terminates:
  assumes "url_parse ip6 target \<noteq> None"
    and "len = (if interval = 0 then second_dur else interval)" "\<forall>k. at_time (at k) \<le> len"
    and "r = wait_timed interval dl at t0"
  shows "wait_for ip6 target
      (w\<lparr>hs_polls := Some (wt_polls r), hs_net := map (\<lambda>k. at_reply (at k)) [0..<wt_sent r]\<rparr>) =
      ((if wt_ok r then Inr () else Inl (Wrap (''wait for '' @ target) ErrCanceled)),
       w\<lparr>hs_polls := Some 0, hs_net := [],
         hs_reqs := hs_reqs w @ replicate (wt_sent r) (''GET'', target, [])\<rparr>) \<and>
    wt_end r \<le> max t0 (dl + len) \<and>
    (wt_ok r \<longleftrightarrow> 0 < wt_sent r \<and> at_reply (at (wt_sent r - 1)) \<noteq> NetFail) \<and>
    (\<forall>k. Suc k < wt_sent r \<longrightarrow> at_reply (at k) = NetFail) \<and>
    (wt_ok r \<or> dl \<le> wt_end r) \<and>
    (wt_sent r = 0 \<or> (wt_sent r - 1) * len < dl - t0)"
proof -
  have len: "len = Suc (len - 1)" using assms(2) by (simp add: second_dur_def)
  have r: "r = wait_rounds (len - 1) dl at 0 t0" using assms(2,4) by (simp add: wait_timed_def)
  have "rounds_ok (len - 1) dl at 0 t0 r"
    unfolding r by (rule rounds_spec) (use assms(3) len in simp)
  moreover have "poll_loop (Suc (wt_polls r)) (probe_get target) (Wrap (''wait for '' @ target) ErrCanceled)
      (w\<lparr>hs_polls := Some (wt_polls r), hs_net := map (\<lambda>k. at_reply (at k)) [0..<wt_sent r]\<rparr>) =
      ((if wt_ok r then Inr () else Inl (Wrap (''wait for '' @ target) ErrCanceled)),
       w\<lparr>hs_polls := Some 0, hs_net := [],
         hs_reqs := hs_reqs w @ replicate (wt_sent r) (''GET'', target, [])\<rparr>)"
    using rounds_refine [of "len - 1" dl at 0 t0 "Suc (wt_polls r)"
      target "Wrap (''wait for '' @ target) ErrCanceled" w]
    unfolding r by (simp only: lessI simp_thms diff_zero minus_nat.diff_0)
  ultimately show ?thesis
    using assms(1) len
    by (auto simp: rounds_ok_def wait_for_def poll_until_def wait_budget_def wait_swap simp del: poll_loop.simps)
qed

definition sample_attempts :: "nat \<Rightarrow> attempt" where
  "sample_attempts k = \<lparr>at_time = 3, at_reply = (if k = 2 then NetReply 503 ''text/html'' [] else NetFail)\<rparr>"

lemma wait_for_terminates_witness:
  "wt_ok (wait_timed 5 100 sample_attempts 0) \<and> wt_sent (wait_timed 5 100 sample_attempts 0) = 3 \<and>
   fst (wait_for (\<lambda>_. None) ''http://127.0.0.1:18080'' (sample_host
      \<lparr>hs_polls := Some 5, hs_net := [NetFail, NetFail, NetReply 503 ''text/html'' []]\<rparr>)) = Inr ()"
proof -
  have u: "url_parse (\<lambda>_. None) ''http://127.0.0.1:18080'' \<noteq> None" by code_simp
  have r: "wait_timed 5 100 sample_attempts 0 = \<lparr>wt_ok = True, wt_end = 19, wt_sent = 3, wt_polls = 5\<rparr>" by code_simp
  have t: "\<forall>k. at_time (sample_attempts k) \<le> 5" by (simp add: sample_attempts_def)
  have m: "map (\<lambda>k. at_reply (sample_attempts k)) [0..<3] = [NetFail, NetFail, NetReply 503 ''text/html'' []]" by code_simp
  from wait_for_terminates [OF u _ t r [symmetric], of sample_host] show ?thesis
    unfolding r by (simp add: m)
qed

text \<open>It gives up at the deadline when nobody ever answers.\<close>

lemma wait_gives_up:
  "wait_timed 5 20 (\<lambda>_. \<lparr>at_time = 3, at_reply = NetFail\<rparr>) 0 =
     \<lparr>wt_ok = False, wt_end = 20, wt_sent = 3, wt_polls = 5\<rparr>"
  by code_simp

end
