(* ===== verification/Portal_Dashboard.thy ===== *)
theory Portal_Dashboard
  imports Portal_Login App_Uninstall
begin

text \<open>
  The dashboard (\<^verbatim>\<open>internal/portal/dashboard.go\<close>) and what the admin page shares with it: the apps as the
  database lists them and the state docker reports for each. The configuration of the portal beyond the
  login (\<^verbatim>\<open>portal.go\<close>, the fields of \<open>Portal\<close>) is here too; the fields that hold functions (\<open>InstallApp\<close>,
  \<open>UninstallApp\<close>, \<open>Reload\<close>) are operations on the world \<open>'w\<close>. A list of rows goes to its template as text, one
  line per row.
\<close>

subsection \<open>The portal\<close>

record 'w admin_config = portal_config +
  ac_orch :: "orchestrator option"
  ac_data_root :: string
  ac_issuer :: string
  ac_public_port :: string
  ac_range :: string
  ac_registry :: "'w spec list"
  ac_install :: "install_context option \<Rightarrow> 'w spec option \<Rightarrow> ('w, install_result) run"
  ac_uninstall :: "uninstall_context option \<Rightarrow> ('w, unit) run"
  ac_reload :: "('w, unit) run option"
  ac_log :: bool

definition new_portal ::
  "portal_config \<Rightarrow> orchestrator option \<Rightarrow> ('r host_scheme) spec list \<Rightarrow> ('r host_scheme) admin_config" where
  "new_portal p orch reg = \<lparr>pc_base = pc_base p, pc_title = pc_title p, pc_https = pc_https p, pc_store = pc_store p,
     pc_bcrypt = pc_bcrypt p, pc_ip6 = pc_ip6 p, ac_orch = orch, ac_data_root = [], ac_issuer = [],
     ac_public_port = [], ac_range = [], ac_registry = reg, ac_install = install_app (pc_bcrypt p) (pc_ip6 p),
     ac_uninstall = uninstall_app, ac_reload = None, ac_log = False\<rparr>"

subsection \<open>The apps\<close>

record db_app =
  da_name :: string
  da_enabled :: bool
  da_settings :: app_settings

definition display_name :: "db_app \<Rightarrow> string" where
  "display_name a = (if st_display_name (da_settings a) \<noteq> [] then st_display_name (da_settings a) else da_name a)"

definition decode_app :: "app_row \<Rightarrow> db_app option" where
  "decode_app a = (case ap_settings a of
       EmptyText \<Rightarrow> Some \<lparr>da_name = ap_name a, da_enabled = (ap_enabled a \<noteq> 0), da_settings = zero_settings\<rparr>
     | Json s \<Rightarrow> Some \<lparr>da_name = ap_name a, da_enabled = (ap_enabled a \<noteq> 0), da_settings = s\<rparr>
     | BadJson \<Rightarrow> None)"

definition load_apps :: "bool \<Rightarrow> ('r world_scheme, db_app list) run" where
  "load_apps enabled_only =
     bindR (query (\<lambda>d. sort_key ap_name (filter (\<lambda>a. enabled_only \<longrightarrow> ap_enabled a = 1) (db_apps d)))) (\<lambda>rows.
     case all_some (map decode_app rows) of None \<Rightarrow> throw (Msg ''invalid JSON'') | Some as \<Rightarrow> ret as)"

definition state_of :: "('r host_scheme) admin_config \<Rightarrow> db_app \<Rightarrow> ('r host_scheme, orch_state) run" where
  "state_of ac a = (case ac_orch ac of
       None \<Rightarrow> ret StateUnknown
     | Some o1 \<Rightarrow>
         if st_compose_file (da_settings a) = [] then ret StateUnknown
         else bindR (attempt (orch_status o1 (st_compose_file (da_settings a)))) (\<lambda>r.
           ret (case r of Inl e \<Rightarrow> StateUnknown | Inr s \<Rightarrow> s)))"

fun states_of :: "('r host_scheme) admin_config \<Rightarrow> db_app list \<Rightarrow> ('r host_scheme, (db_app \<times> orch_state) list) run" where
  "states_of ac [] = ret []"
| "states_of ac (a # as) = bindR (state_of ac a) (\<lambda>s. bindR (states_of ac as) (\<lambda>rest. ret ((a, s) # rest)))"

subsection \<open>The page\<close>

record dashboard_tile =
  dt_name :: string
  dt_display :: string
  dt_description :: string
  dt_icon :: string
  dt_url :: string
  dt_state :: orch_state

definition tile_of :: "'w admin_config \<Rightarrow> db_app \<times> orch_state \<Rightarrow> dashboard_tile" where
  "tile_of ac e = (case e of (a, s) \<Rightarrow> \<lparr>dt_name = da_name a, dt_display = display_name a,
     dt_description = st_description (da_settings a), dt_icon = st_icon (da_settings a),
     dt_url = app_host_url (portal_config.truncate ac) (st_subdomain (da_settings a)), dt_state = s\<rparr>)"

definition lines_text :: "string list list \<Rightarrow> string" where
  "lines_text rows = join_with [CHR 0x0A] (map (join_with [CHR 0x09]) rows)"

definition tile_text :: "dashboard_tile \<Rightarrow> string list" where
  "tile_text t = [dt_name t, dt_display t, dt_description t, dt_icon t, dt_url t, state_text (dt_state t)]"

definition dashboard_tiles :: "('r host_scheme) admin_config \<Rightarrow> ('r host_scheme, dashboard_tile list) run" where
  "dashboard_tiles ac = bindR (load_apps True) (\<lambda>as. bindR (states_of ac as) (\<lambda>es. ret (map (tile_of ac) es)))"

definition get_dashboard :: "('r host_scheme) admin_config \<Rightarrow> 'r host_scheme handler" where
  "get_dashboard ac r w =
     (if rq_path r \<noteq> ''/'' then ((HttpError 404 ''404 page not found'', []), w)
      else (case require_session r w of
          (Inl rep, w1) \<Rightarrow> ((rep, []), w1)
        | (Inr sess, w1) \<Rightarrow> (case dashboard_tiles ac w1 of
            (Inl e, w2) \<Rightarrow> ((HttpError 500 (error_text e), []), w2)
          | (Inr tiles, w2) \<Rightarrow>
              ((render (portal_config.truncate ac) ''dashboard.html'' (Some sess) [(''Apps'', lines_text (map tile_text tiles))], []), w2))))"

lemma frame_state_of [preserves_intro]: "frame w_db (state_of ac a)"
  unfolding state_of_def by (cases "ac_orch ac") (auto intro!: preserves_intro)

lemma frame_states_of [preserves_intro]: "frame w_db (states_of ac as)"
  by (induction as) (auto intro!: preserves_intro)

lemma frame_load_apps [preserves_intro]: "frame w_db (load_apps b)"
  unfolding load_apps_def
  by (auto simp: frame_def bindR_def ret_run throw_run split: prod.split sum.split option.split dest!: query_InrD query_InlD)

text \<open>What \<open>load_apps\<close> lists: every row once, by name, or nothing at all if some settings are unreadable.\<close>

lemma load_apps_Inr:
  assumes "load_apps b w = (Inr as, w')"
  shows "map Some as = map decode_app (sort_key ap_name (filter (\<lambda>a. b \<longrightarrow> ap_enabled a = 1) (db_apps (w_db w))))"
proof -
  have "all_some xs = Some ys \<Longrightarrow> map Some ys = xs" for xs :: "db_app option list" and ys
    by (induction xs arbitrary: ys rule: all_some.induct) auto
  then show ?thesis using assms
    by (auto simp: load_apps_def bindR_Inr_iff throw_run ret_run dest!: query_InrD split: option.splits)
qed

end
