(* ===== verification/Portal_Admin.thy ===== *)
theory Portal_Admin
  imports Portal_Dashboard
begin

text \<open>
  The administration of the portal (\<^verbatim>\<open>internal/portal/admin.go\<close>) and the routes of the portal
  (\<^verbatim>\<open>Portal.Mount\<close>). Installing and removing an app are jobs in the background: a handler puts the job at the
  head of the list and its task among the tasks of the world; \<open>run_job\<close> is the body of the goroutine, one step
  from start to end. A job is named by its pointer, a number never used before, since two jobs may have the same
  \<open>ID\<close>. Lines of the job log are records. Shown: who is not an admin, or comes from another site, changes
  nothing.
\<close>

subsection \<open>State\<close>

datatype app_task = TaskInstall string install_context | TaskUninstall uninstall_context

record log_line =
  ll_event :: string
  ll_action :: string
  ll_app :: string
  ll_duration :: int
  ll_error :: "error option"

record admin_state = portal +
  as_next :: nat
  as_tasks :: "(nat \<times> app_job \<times> app_task) list"
  as_log :: "log_line list"

definition round_ms :: "int \<Rightarrow> int" where
  "round_ms d = (d + 500000) div 1000000 * 1000000"

subsection \<open>Replies\<close>

definition encode_values :: "(string \<times> string) list \<Rightarrow> string" where
  "encode_values kvs = join_with ''&'' (map (\<lambda>(k, v). query_escape k @ ''='' @ query_escape v) kvs)"

definition redirect_admin :: "request \<Rightarrow> string \<Rightarrow> string \<Rightarrow> response" where
  "redirect_admin r flash err =
     (let v = (if err \<noteq> [] then [(''error'', err)] else []) @ (if flash \<noteq> [] then [(''flash'', flash)] else []);
          target = ''/portal/admin'' @ (if v \<noteq> [] then ''?'' @ encode_values v else [])
      in Redirect 303 (target @
           (if contains_str (rq_path r) ''/users'' then ''#users''
            else if contains_str (rq_path r) ''/apps'' then ''#apps'' else [])))"

definition admin_error :: "request \<Rightarrow> string \<Rightarrow> reply" where
  "admin_error r e = (redirect_admin r [] e, [])"

definition admin_flash :: "request \<Rightarrow> string \<Rightarrow> reply" where
  "admin_flash r m = (redirect_admin r m [], [])"

text \<open>What every changing handler starts with: the admin's session, then the origin.\<close>

definition admin_post ::
  "'w admin_config \<Rightarrow> (portal_session \<Rightarrow> ('r world_scheme) handler) \<Rightarrow> ('r world_scheme) handler" where
  "admin_post ac f r w = (case require_admin r w of
       (Inl rep, w1) \<Rightarrow> ((rep, []), w1)
     | (Inr sess, w1) \<Rightarrow>
         if \<not> same_origin (portal_config.truncate ac) r then ((HttpError 403 ''cross-origin request rejected'', []), w1)
         else f sess r w1)"

definition with_form :: "('w handler) \<Rightarrow> 'w handler" where
  "with_form f r w = (if rq_form r = None then ((HttpError 400 ''bad form'', []), w) else f r w)"

text \<open>An operation whose error is reported on the admin page.\<close>

definition try_op :: "request \<Rightarrow> (string \<Rightarrow> string) \<Rightarrow> ('w, 'a) run \<Rightarrow> ('a \<Rightarrow> 'w \<Rightarrow> reply \<times> 'w) \<Rightarrow> 'w \<Rightarrow> reply \<times> 'w" where
  "try_op r msg m f w = (case m w of (Inl e, w1) \<Rightarrow> (admin_error r (msg (error_text e)), w1) | (Inr x, w1) \<Rightarrow> f x w1)"

subsection \<open>Users\<close>

definition user_id_from_path :: "request \<Rightarrow> int option" where
  "user_id_from_path r = (case parse_int (rq_vars r ''id'') of None \<Rightarrow> None | Some i \<Rightarrow> if i \<le> 0 then None else Some i)"

definition with_user_id :: "(int \<Rightarrow> 'w handler) \<Rightarrow> 'w handler" where
  "with_user_id f r w = (case user_id_from_path r of
       None \<Rightarrow> ((HttpError 400 ''invalid user id'', []), w) | Some i \<Rightarrow> f i r w)"

text \<open>The loop over the users: how many admins there are, and whether the one in question is an admin.\<close>

definition count_admins :: "int \<Rightarrow> user list \<Rightarrow> nat \<times> bool" where
  "count_admins i us = fold (\<lambda>u (n, target). (if us_admin u then Suc n else n,
     if us_id u = i then us_admin u else target)) us (0, False)"

definition can_remove_admin :: "int \<Rightarrow> ('r world_scheme, bool) run" where
  "can_remove_admin i = bindR users_list (\<lambda>us. ret (case count_admins i us of (n, target) \<Rightarrow> \<not> target \<or> 1 < n))"

definition post_create_user :: "'w admin_config \<Rightarrow> ('r world_scheme) handler" where
  "post_create_user ac = admin_post ac (\<lambda>sess. with_form (\<lambda>r.
     try_op r (\<lambda>e. ''create user failed: '' @ e)
       (users_create (pc_bcrypt ac) (form_value r ''username'') (form_value r ''email'') (form_value r ''password'')
          (form_value r ''is_admin'' = ''1''))
       (\<lambda>u w. (admin_flash r (''created user '' @ us_name u), w))))"

definition guard_last_admin :: "request \<Rightarrow> string \<Rightarrow> int \<Rightarrow> ('r world_scheme \<Rightarrow> reply \<times> 'r world_scheme) \<Rightarrow>
    'r world_scheme \<Rightarrow> reply \<times> 'r world_scheme" where
  "guard_last_admin r msg i f =
     try_op r (\<lambda>e. e) (can_remove_admin i) (\<lambda>ok w. if ok then f w else (admin_error r msg, w))"

definition post_update_user :: "'w admin_config \<Rightarrow> ('r world_scheme) handler" where
  "post_update_user ac = admin_post ac (\<lambda>sess. with_form (with_user_id (\<lambda>i r w.
     let is_admin = (form_value r ''is_admin'' = ''1'');
         update = try_op r (\<lambda>e. ''update email failed: '' @ e) (users_set_email i (form_value r ''email'')) (\<lambda>_.
           try_op r (\<lambda>e. ''update role failed: '' @ e) (users_set_admin i is_admin) (\<lambda>_ w.
           (admin_flash r ''updated user'', w)))
     in if i = us_id (pn_user sess) \<and> \<not> is_admin then (admin_error r ''cannot remove admin from your own account'', w)
        else if \<not> is_admin then guard_last_admin r ''cannot remove the last admin'' i update w
        else update w)))"

definition post_set_user_password :: "'w admin_config \<Rightarrow> ('r world_scheme) handler" where
  "post_set_user_password ac = admin_post ac (\<lambda>sess. with_form (with_user_id (\<lambda>i r.
     try_op r (\<lambda>e. ''set password failed: '' @ e) (users_set_password (pc_bcrypt ac) i (form_value r ''password'')) (\<lambda>_.
     if i = us_id (pn_user sess) then
       try_op r (\<lambda>e. ''password updated, but re-issuing your session failed: '' @ e)
         (session_issue (pc_store ac) i) (\<lambda>(res, cks) w. (case res of
             Inl e \<Rightarrow> (redirect_admin r [] (''password updated, but re-issuing your session failed: '' @ error_text e), cks)
           | Inr s \<Rightarrow> (redirect_admin r ''updated password'' [], cks), w))
     else (\<lambda>w. (admin_flash r ''updated password'', w))))))"

definition post_delete_user :: "'w admin_config \<Rightarrow> ('r world_scheme) handler" where
  "post_delete_user ac = admin_post ac (\<lambda>sess. with_user_id (\<lambda>i r w.
     if i = us_id (pn_user sess) then (admin_error r ''cannot delete your own account'', w)
     else guard_last_admin r ''cannot delete the last admin'' i
       (try_op r (\<lambda>e. ''delete user failed: '' @ e) (users_delete i) (\<lambda>_ w. (admin_flash r ''deleted user'', w))) w))"

subsection \<open>Jobs\<close>

definition log_app_job :: "'w admin_config \<Rightarrow> string \<Rightarrow> app_job \<Rightarrow> error option \<Rightarrow> 'r admin_state_scheme \<Rightarrow> 'r admin_state_scheme" where
  "log_app_job ac event job e w = (if \<not> ac_log ac then w
     else w\<lparr>as_log := as_log w @ [\<lparr>ll_event = event, ll_action = jb_action job, ll_app = jb_app job,
       ll_duration = round_ms (w_clock w - jb_started job), ll_error = e\<rparr>]\<rparr>)"

text \<open>\<open>FinishedAt\<close> is the zero time until the job ends.\<close>

definition start_app_job ::
  "'w admin_config \<Rightarrow> string \<Rightarrow> string \<Rightarrow> app_task \<Rightarrow> 'r admin_state_scheme \<Rightarrow> 'r admin_state_scheme" where
  "start_app_job ac action name task w =
     (let job = \<lparr>jb_id = w_clock w, jb_action = action, jb_app = name, jb_status = JobRunning,
            jb_message = ''running'', jb_started = w_clock w, jb_finished = 0\<rparr>;
          jobs = (as_next w, job) # pt_jobs w;
          w1 = w\<lparr>pt_jobs := (if 20 < length jobs then take 20 jobs else jobs)\<rparr>;
          w2 = log_app_job ac ''started'' job None w1
      in w2\<lparr>as_tasks := as_tasks w2 @ [(as_next w, job, task)], as_next := Suc (as_next w)\<rparr>)"

definition reload :: "'w admin_config \<Rightarrow> ('w, unit) run" where
  "reload ac = (case ac_reload ac of None \<Rightarrow> ret () | Some f \<Rightarrow> f)"

definition run_task :: "'w admin_config \<Rightarrow> app_task \<Rightarrow> ('w, unit) run" where
  "run_task ac task = (case task of
       TaskInstall n ic \<Rightarrow> bindR (ac_install ac (Some ic) (get_spec n (ac_registry ac))) (\<lambda>_.
         map_error (Wrap ''installed but route reload failed'') (reload ac))
     | TaskUninstall uc \<Rightarrow> bindR (ac_uninstall ac (Some uc)) (\<lambda>_.
         map_error (Wrap ''uninstalled but route reload failed'') (reload ac)))"

text \<open>\<open>context.Background()\<close>: without a deadline.\<close>

definition in_background :: "('r host_scheme, 'a) run \<Rightarrow> ('r host_scheme, 'a) run" where
  "in_background m w = (case m (w\<lparr>hs_polls := None\<rparr>) of (res, w1) \<Rightarrow> (res, w1\<lparr>hs_polls := hs_polls w\<rparr>))"

definition finish_job :: "int \<Rightarrow> error + unit \<Rightarrow> app_job \<Rightarrow> app_job" where
  "finish_job t res job = (case res of
       Inl e \<Rightarrow> job\<lparr>jb_finished := t, jb_status := JobError, jb_message := error_text e\<rparr>
     | Inr _ \<Rightarrow> job\<lparr>jb_finished := t, jb_status := JobDone, jb_message := ''completed''\<rparr>)"

definition run_job :: "('r admin_state_scheme) admin_config \<Rightarrow> nat \<Rightarrow> app_job \<Rightarrow> app_task \<Rightarrow>
    'r admin_state_scheme \<Rightarrow> 'r admin_state_scheme" where
  "run_job ac ref job task w =
     (case in_background (run_task ac task) (w\<lparr>as_tasks := filter (\<lambda>t. fst t \<noteq> ref) (as_tasks w)\<rparr>) of (res, w1) \<Rightarrow>
        let w2 = w1\<lparr>pt_jobs := map (\<lambda>(n, j). (n, if n = ref then finish_job (w_clock w1) res j else j)) (pt_jobs w1)\<rparr>
        in case res of Inl e \<Rightarrow> log_app_job ac ''failed'' job (Some e) w2 | Inr _ \<Rightarrow> log_app_job ac ''completed'' job None w2)"

definition recent_jobs :: "'r portal_scheme \<Rightarrow> app_job list" where
  "recent_jobs w = map snd (pt_jobs w)"

definition has_running_job :: "string \<Rightarrow> string \<Rightarrow> 'r portal_scheme \<Rightarrow> bool" where
  "has_running_job action name w =
     list_ex (\<lambda>j. jb_action j = action \<and> jb_app j = name \<and> jb_status j = JobRunning) (recent_jobs w)"

subsection \<open>Apps\<close>

definition portal_context :: "'w admin_config \<Rightarrow> 'w spec \<Rightarrow> error + install_context" where
  "portal_context ac sp = (case ac_orch ac of
       None \<Rightarrow> Inl (Msg ''orchestrator not configured'')
     | Some o1 \<Rightarrow>
         if oc_root o1 = [] then Inl (Msg ''orchestrator compose root is not configured'')
         else if ac_data_root ac = [] then Inl (Msg ''app data root is not configured'')
         else if ac_issuer ac = [] then Inl (Msg ''oidc issuer is not configured'')
         else Inr \<lparr>ic_name = sp_name sp, ic_subdomain = sp_subdomain sp, ic_base = pc_base ac,
           ic_scheme = (if pc_https ac then ''https'' else ''http''), ic_public_port = ac_public_port ac,
           ic_port = sp_port sp, ic_range = ac_range ac, ic_explicit = False,
           ic_data = path_join [ac_data_root ac, sp_name sp],
           ic_compose = path_join [oc_root o1, sp_name sp, ''docker-compose.yaml''],
           ic_password = [], ic_client = [], ic_secret = [], ic_issuer = ac_issuer ac, ic_db = True, ic_orch = Some o1\<rparr>)"

definition valid_app_name :: "string \<Rightarrow> bool" where
  "valid_app_name s \<longleftrightarrow> s \<noteq> [] \<and> list_all (\<lambda>c. is_alnum c \<or> c = CHR ''_'' \<or> c = CHR ''-'') s"

definition post_add_app :: "('r admin_state_scheme) admin_config \<Rightarrow> ('r admin_state_scheme) handler" where
  "post_add_app ac = admin_post ac (\<lambda>sess. with_form (\<lambda>r w.
     let name = form_value r ''name'' in
     if \<not> valid_app_name name then (admin_error r ''invalid name (alnum + _ -)'', w)
     else (case get_spec name (ac_registry ac) of
         None \<Rightarrow> (admin_error r (''unknown app '' @ go_quote name), w)
       | Some sp \<Rightarrow> (case portal_context ac sp of
           Inl e \<Rightarrow> (admin_error r (error_text e), w)
         | Inr ic \<Rightarrow> (admin_flash r (''started installing '' @ name),
             start_app_job ac ''install'' name (TaskInstall name ic) w)))))"

definition compose_file_of :: "string \<Rightarrow> ('r world_scheme, string) run" where
  "compose_file_of name = bindR (load_apps False) (\<lambda>as. case row_by da_name name as of
       None \<Rightarrow> throw (Msg (''app '' @ go_quote name @ '' not found''))
     | Some a \<Rightarrow> if st_compose_file (da_settings a) = [] then throw (Msg (''app '' @ go_quote name @ '' has no compose_file''))
         else ret (st_compose_file (da_settings a)))"

definition orch_action :: "('r host_scheme) admin_config \<Rightarrow> (orchestrator \<Rightarrow> string \<Rightarrow> ('r host_scheme, string) run) \<Rightarrow>
    string \<Rightarrow> string \<Rightarrow> 'r host_scheme handler" where
  "orch_action ac f failed done = admin_post ac (\<lambda>sess r.
     let name = rq_vars r ''name'' in
     try_op r (\<lambda>e. e) (compose_file_of name) (\<lambda>file.
     case ac_orch ac of
       None \<Rightarrow> (\<lambda>w. (admin_error r ''orchestrator not configured'', w))
     | Some o1 \<Rightarrow> try_op r (\<lambda>e. failed @ '': '' @ e) (f o1 file) (\<lambda>_ w. (admin_flash r (done @ '' '' @ name), w))))"

definition post_start_app :: "('r host_scheme) admin_config \<Rightarrow> 'r host_scheme handler" where
  "post_start_app ac = orch_action ac orch_up ''start failed'' ''started''"

definition post_stop_app :: "('r host_scheme) admin_config \<Rightarrow> 'r host_scheme handler" where
  "post_stop_app ac = orch_action ac orch_down ''stop failed'' ''stopped''"

definition post_uninstall_app :: "('r admin_state_scheme) admin_config \<Rightarrow> ('r admin_state_scheme) handler" where
  "post_uninstall_app ac = admin_post ac (\<lambda>sess r.
     let name = rq_vars r ''name'' in
     try_op r (\<lambda>e. e) (load_app_paths name) (\<lambda>found w. case found of
         None \<Rightarrow> (admin_error r (''app '' @ go_quote name @ '' is not installed''), w)
       | Some (compose, data) \<Rightarrow> (admin_flash r (''started uninstalling '' @ name),
           start_app_job ac ''uninstall'' name (TaskUninstall \<lparr>uc_name = name, uc_compose = compose, uc_data = data,
             uc_keep = False, uc_force = True, uc_db = True, uc_orch = ac_orch ac\<rparr>) w)))"

subsection \<open>The admin page\<close>

record admin_app_row =
  aa_name :: string
  aa_display :: string
  aa_description :: string
  aa_subdomain :: string
  aa_settings :: app_settings
  aa_state :: "orch_state option"
  aa_installed :: bool
  aa_installing :: bool

record admin_user_row =
  au_id :: int
  au_username :: string
  au_email :: string
  au_admin :: bool
  au_self :: bool

text \<open>An app that is not installed has the empty state (\<open>None\<close>) and no settings.\<close>

definition installed_row :: "'w admin_config \<Rightarrow> 'r portal_scheme \<Rightarrow> db_app \<times> orch_state \<Rightarrow> admin_app_row" where
  "installed_row ac w e = (case e of (a, s) \<Rightarrow>
     \<lparr>aa_name = da_name a, aa_display = display_name a,
      aa_description = (case get_spec (da_name a) (ac_registry ac) of None \<Rightarrow> [] | Some sp \<Rightarrow> sp_description sp),
      aa_subdomain = (case get_spec (da_name a) (ac_registry ac) of None \<Rightarrow> [] | Some sp \<Rightarrow> sp_subdomain sp),
      aa_settings = da_settings a, aa_state = Some s, aa_installed = True,
      aa_installing = has_running_job ''install'' (da_name a) w\<rparr>)"

definition offered_row :: "'r portal_scheme \<Rightarrow> 'w spec \<Rightarrow> admin_app_row" where
  "offered_row w sp = \<lparr>aa_name = sp_name sp, aa_display = sp_display sp, aa_description = sp_description sp,
     aa_subdomain = sp_subdomain sp, aa_settings = zero_settings, aa_state = None, aa_installed = False,
     aa_installing = has_running_job ''install'' (sp_name sp) w\<rparr>"

definition admin_rows :: "'w admin_config \<Rightarrow> 'r portal_scheme \<Rightarrow> (db_app \<times> orch_state) list \<Rightarrow> admin_app_row list" where
  "admin_rows ac w es = map (installed_row ac w) es @
     map (offered_row w) (filter (\<lambda>sp. sp_name sp \<notin> set (map (da_name \<circ> fst) es)) (all_specs (ac_registry ac)))"

definition admin_users :: "portal_session \<Rightarrow> user list \<Rightarrow> admin_user_row list" where
  "admin_users sess us = map (\<lambda>u. \<lparr>au_id = us_id u, au_username = us_name u, au_email = us_email u,
     au_admin = us_admin u, au_self = (us_id u = us_id (pn_user sess))\<rparr>) us"

definition admin_view :: "('r portal_scheme) admin_config \<Rightarrow> portal_session \<Rightarrow>
    ('r portal_scheme, admin_app_row list \<times> admin_user_row list \<times> app_job list) run" where
  "admin_view ac sess =
     bindR (load_apps False) (\<lambda>as.
     bindR (states_of ac as) (\<lambda>es.
     bindR (reading (\<lambda>w. admin_rows ac w es)) (\<lambda>rows.
     bindR users_list (\<lambda>us.
     bindR (reading recent_jobs) (\<lambda>jobs. ret (rows, admin_users sess us, jobs))))))"

definition flag_text :: "bool \<Rightarrow> string" where
  "flag_text b = (if b then ''true'' else ''false'')"

definition app_row_text :: "admin_app_row \<Rightarrow> string list" where
  "app_row_text a = [aa_name a, aa_display a, aa_description a, aa_subdomain a, st_subdomain (aa_settings a),
     (case aa_state a of None \<Rightarrow> [] | Some s \<Rightarrow> state_text s), flag_text (aa_installed a), flag_text (aa_installing a)]"

definition user_row_text :: "admin_user_row \<Rightarrow> string list" where
  "user_row_text u = [format_int (au_id u), au_username u, au_email u, flag_text (au_admin u), flag_text (au_self u)]"

fun status_text :: "job_status \<Rightarrow> string" where
  "status_text JobRunning = ''running''"
| "status_text JobError = ''error''"
| "status_text JobDone = ''done''"

definition job_text :: "app_job \<Rightarrow> string list" where
  "job_text j = [format_int (jb_id j), jb_action j, jb_app j, status_text (jb_status j), jb_message j]"

definition get_admin :: "('r portal_scheme) admin_config \<Rightarrow> 'r portal_scheme handler" where
  "get_admin ac r w = (case require_admin r w of
       (Inl rep, w1) \<Rightarrow> ((rep, []), w1)
     | (Inr sess, w1) \<Rightarrow> (case admin_view ac sess w1 of
         (Inl e, w2) \<Rightarrow> ((HttpError 500 (error_text e), []), w2)
       | (Inr (rows, us, jobs), w2) \<Rightarrow>
           ((render (portal_config.truncate ac) ''admin.html'' (Some sess)
             [(''Apps'', lines_text (map app_row_text rows)), (''Users'', lines_text (map user_row_text us)),
              (''Jobs'', lines_text (map job_text jobs)), (''Flash'', query_get (rq_query r) ''flash''),
              (''Error'', query_get (rq_query r) ''error'')], []), w2)))"

subsection \<open>The routes\<close>

text \<open>The patterns of \<open>Portal.Mount\<close>, with \<open>{name}\<close> and \<open>{id}\<close> a segment that is not empty.\<close>

datatype portal_route =
    RLoginForm | RLogin | RLogout | RAdmin | RAddApp | RStartApp string | RStopApp string | RUninstallApp string
  | RCreateUser | RUpdateUser string | RSetPassword string | RDeleteUser string | RDashboard

definition post_route :: "string list \<Rightarrow> portal_route option" where
  "post_route p =
     (if p = [''portal'', ''login''] then Some RLogin
      else if p = [''portal'', ''logout''] then Some RLogout
      else if take 3 p = [''portal'', ''admin'', ''apps''] then (case drop 3 p of
          [] \<Rightarrow> Some RAddApp
        | [n, act] \<Rightarrow>
            if n = [] then None
            else if act = ''start'' then Some (RStartApp n)
            else if act = ''stop'' then Some (RStopApp n)
            else if act = ''uninstall'' then Some (RUninstallApp n) else None
        | _ \<Rightarrow> None)
      else if take 3 p = [''portal'', ''admin'', ''users''] then (case drop 3 p of
          [] \<Rightarrow> Some RCreateUser
        | [i] \<Rightarrow> if i = [] then None else Some (RUpdateUser i)
        | [i, act] \<Rightarrow>
            if i = [] then None
            else if act = ''password'' then Some (RSetPassword i)
            else if act = ''delete'' then Some (RDeleteUser i) else None
        | _ \<Rightarrow> None)
      else None)"

definition get_route :: "string list \<Rightarrow> portal_route" where
  "get_route p = (if p = [''portal'', ''login''] then RLoginForm
     else if p = [''portal'', ''admin''] then RAdmin else RDashboard)"

text \<open>The method and the path decide; a path that only \<open>GET /\<close> covers is not allowed for other methods. (The mux
  itself redirects a path that is not clean.)\<close>

definition portal_route :: "string \<Rightarrow> string \<Rightarrow> portal_route option" where
  "portal_route meth path =
     (let p = split_at (CHR ''/'') (drop 1 path) in
      if meth = ''GET'' \<or> meth = ''HEAD'' then Some (get_route p)
      else if meth = ''POST'' then post_route p else None)"

definition with_var :: "string \<Rightarrow> string \<Rightarrow> 'w handler \<Rightarrow> 'w handler" where
  "with_var k v h r = h (r\<lparr>rq_vars := (rq_vars r)(k := v)\<rparr>)"

fun portal_handler :: "('r admin_state_scheme) admin_config \<Rightarrow> portal_route \<Rightarrow> ('r admin_state_scheme) handler" where
  "portal_handler ac RLoginForm = get_login (portal_config.truncate ac)"
| "portal_handler ac RLogin = post_login (portal_config.truncate ac)"
| "portal_handler ac RLogout = post_logout (portal_config.truncate ac)"
| "portal_handler ac RAdmin = get_admin ac"
| "portal_handler ac RAddApp = post_add_app ac"
| "portal_handler ac (RStartApp n) = with_var ''name'' n (post_start_app ac)"
| "portal_handler ac (RStopApp n) = with_var ''name'' n (post_stop_app ac)"
| "portal_handler ac (RUninstallApp n) = with_var ''name'' n (post_uninstall_app ac)"
| "portal_handler ac RCreateUser = post_create_user ac"
| "portal_handler ac (RUpdateUser i) = with_var ''id'' i (post_update_user ac)"
| "portal_handler ac (RSetPassword i) = with_var ''id'' i (post_set_user_password ac)"
| "portal_handler ac (RDeleteUser i) = with_var ''id'' i (post_delete_user ac)"
| "portal_handler ac RDashboard = get_dashboard ac"

definition mount :: "('r admin_state_scheme) admin_config \<Rightarrow> string \<Rightarrow> ('r admin_state_scheme) handler" where
  "mount ac meth r w = (case portal_route meth (rq_path r) of
       None \<Rightarrow> ((HttpError 405 ''Method Not Allowed'', []), w)
     | Some rt \<Rightarrow> portal_handler ac rt r w)"

subsection \<open>Who may not, changes nothing\<close>

definition acting_admin :: "request \<Rightarrow> 'r world_scheme \<Rightarrow> bool" where
  "acting_admin r w \<longleftrightarrow> (\<exists>c s. req_cookie r session_cookie_name = Some c \<and> session_holds w c s \<and> us_admin (pn_user s))"

fun admin_route :: "portal_route \<Rightarrow> bool" where
  "admin_route RLoginForm = False"
| "admin_route RLogin = False"
| "admin_route RLogout = False"
| "admin_route RDashboard = False"
| "admin_route rt = True"

text \<open>All but the sessions that have expired, which a lookup removes.\<close>

definition untouched :: "'r admin_state_scheme \<Rightarrow> 'r admin_state_scheme \<Rightarrow> bool" where
  "untouched w w' \<longleftrightarrow> w_db w' = (w_db w)\<lparr>db_sessions := db_sessions (w_db w')\<rparr> \<and>
     set (db_sessions (w_db w')) \<subseteq> set (db_sessions (w_db w)) \<and>
     (\<forall>row \<in> set (db_sessions (w_db w)) - set (db_sessions (w_db w')). ss_expires row < w_clock w) \<and>
     hs_fs w' = hs_fs w \<and> hs_cmds w' = hs_cmds w \<and> hs_reqs w' = hs_reqs w \<and>
     pt_jobs w' = pt_jobs w \<and> as_tasks w' = as_tasks w \<and> as_log w' = as_log w"

definition refusal :: "response \<Rightarrow> bool" where
  "refusal rep \<longleftrightarrow> (case rep of HttpError st m \<Rightarrow> st = 403 \<or> st = 500
     | Redirect st u \<Rightarrow> st = 302 \<and> has_prefix u ''/portal/login?next='' | _ \<Rightarrow> False)"

definition outer_state :: "'r admin_state_scheme \<Rightarrow>
    (string \<times> fs_node) list \<times> string list list \<times> (string \<times> string \<times> string) list \<times> (nat \<times> app_job) list \<times>
    (nat \<times> app_job \<times> app_task) list \<times> log_line list" where
  "outer_state w = (hs_fs w, hs_cmds w, hs_reqs w, pt_jobs w, as_tasks w, as_log w)"

lemma frame_lookup_outer: "frame outer_state (session_lookup r)"
  unfolding session_lookup_def users_get_def
  by (intro preserves_intro) (simp_all add: outer_state_def)

lemma lookup_untouched:
  assumes "session_lookup r w = (res, w')" "world_ok w"
  shows "untouched w w'"
proof -
  have o: "outer_state w' = outer_state w" by (rule frame_pair [OF frame_lookup_outer assms(1)])
  consider "w_db w' = w_db w" | c s where "session_by c (w_db w) = Some s" "ss_expires s < w_clock w"
      "w_db w' = (w_db w)\<lparr>db_sessions := filter (\<lambda>x. ss_id x \<noteq> c) (db_sessions (w_db w))\<rparr>"
    using lookup_db [OF assms(1)] by blast
  then show ?thesis
  proof cases
    case 1
    then show ?thesis using o by (simp add: untouched_def outer_state_def)
  next
    case (2 c s)
    have "row = s" if "row \<in> set (db_sessions (w_db w))" "ss_id row = c" for row
      using that 2(1) row_by_member [of ss_id "db_sessions (w_db w)" row] assms(2)
      by (simp add: by_defs world_ok_def db_ok_def)
    then show ?thesis using 2 o by (auto simp: untouched_def outer_state_def)
  qed
qed

lemma require_admin_refuses:
  assumes "require_admin r w = (Inl rep, w')" "world_ok w"
  shows "untouched w w' \<and> refusal rep"
  using assms(1) lookup_untouched [OF _ assms(2)]
  by (auto simp: require_admin_def require_session_def refusal_def has_prefix_iff split: prod.splits sum.splits option.splits if_splits)

lemma require_admin_acting:
  assumes "require_admin r w = (Inr sess, w')"
  shows "acting_admin r w \<and> us_admin (pn_user sess) \<and> w_db w' = w_db w"
proof -
  have l: "session_lookup r w = (Inr (Some sess), w')" and a: "us_admin (pn_user sess)"
    using assms by (auto simp: require_admin_def require_session_def split: prod.splits sum.splits option.splits if_splits)
  obtain c where "req_cookie r session_cookie_name = Some c" "session_holds w c sess" "w_db w' = w_db w"
    using lookup_sound [OF l] by blast
  then show ?thesis using a by (auto simp: acting_admin_def)
qed

lemma admin_post_refuses:
  assumes "\<not> acting_admin r w \<or> \<not> same_origin (portal_config.truncate ac) r" "world_ok w"
  shows "\<exists>rep w'. admin_post ac f r w = ((rep, []), w') \<and> untouched w w' \<and> refusal rep"
proof -
  obtain q w1 where q: "require_admin r w = (q, w1)" by fastforce
  show ?thesis
  proof (cases q)
    case (Inl rep)
    then show ?thesis using q require_admin_refuses [of r w rep w1] assms(2) by (simp add: admin_post_def)
  next
    case (Inr sess)
    then have "\<not> same_origin (portal_config.truncate ac) r" using q require_admin_acting assms(1) by blast
    moreover have "untouched w w1"
      using q Inr lookup_untouched [OF _ assms(2)]
      by (auto simp: require_admin_def require_session_def split: prod.splits sum.splits option.splits if_splits)
    ultimately show ?thesis using q Inr by (simp add: admin_post_def refusal_def)
  qed
qed

lemma var_headers [simp]:
  "acting_admin (r\<lparr>rq_vars := v\<rparr>) w = acting_admin r w"
  "same_origin p (r\<lparr>rq_vars := v\<rparr>) = same_origin p r"
  by (auto simp: acting_admin_def same_origin_def req_cookie_def Let_def split: option.splits)

lemma guarded_handlers:
  "\<exists>f. post_add_app ac = admin_post ac f" "\<exists>f. post_start_app ac2 = admin_post ac2 f" "\<exists>f. post_stop_app ac2 = admin_post ac2 f"
  "\<exists>f. post_uninstall_app ac = admin_post ac f" "\<exists>f. post_create_user ac3 = admin_post ac3 f"
  "\<exists>f. post_update_user ac3 = admin_post ac3 f" "\<exists>f. post_set_user_password ac3 = admin_post ac3 f"
  "\<exists>f. post_delete_user ac3 = admin_post ac3 f"
  unfolding post_add_app_def post_start_app_def post_stop_app_def orch_action_def post_uninstall_app_def
    post_create_user_def post_update_user_def post_set_user_password_def post_delete_user_def by blast+

lemma guarded_form:
  assumes "admin_route rt" "rt \<noteq> RAdmin"
  shows "\<exists>f v. portal_handler ac rt r w = admin_post ac f (r\<lparr>rq_vars := v\<rparr>) w"
proof -
  have self: "r = r\<lparr>rq_vars := rq_vars r\<rparr>" by simp
  have var: "\<exists>f v. with_var k x h r w = admin_post ac f (r\<lparr>rq_vars := v\<rparr>) w" if "\<exists>f. h = admin_post ac f" for k x h
    using that unfolding with_var_def by blast
  have plain: "\<exists>f v. h r w = admin_post ac f (r\<lparr>rq_vars := v\<rparr>) w" if "\<exists>f. h = admin_post ac f" for h
    using that self by metis
  show ?thesis
    using assms by (cases rt) (simp_all only: portal_handler.simps admin_route.simps simp_thms var plain guarded_handlers)
qed

text \<open>C29: Only an admin administers, and only from the portal itself: a request to any route under the admin page
  that carries no valid session of an admin, or that changes something and comes from another origin, is refused
  with an error or sent to the login, and changes no row but expired sessions, no file, no container, no job.\<close>

theorem admin_routes_guarded:
  assumes "portal_route meth (rq_path r) = Some rt" "admin_route rt"
    and "\<not> acting_admin r w \<or> (rt \<noteq> RAdmin \<and> \<not> same_origin (portal_config.truncate ac) r)"
    and "world_ok w"
  shows "\<exists>rep w'. mount ac meth r w = ((rep, []), w') \<and> untouched w w' \<and> refusal rep"
proof (cases "rt = RAdmin")
  case True
  obtain q w1 where q: "require_admin r w = (q, w1)" by fastforce
  then obtain rep where "q = Inl rep" using require_admin_acting True assms(3) by (cases q) blast+
  then show ?thesis
    using q require_admin_refuses [of r w rep w1] assms(1,4) True by (simp add: mount_def get_admin_def)
next
  case False
  then obtain f v where "portal_handler ac rt r w = admin_post ac f (r\<lparr>rq_vars := v\<rparr>) w"
    using guarded_form assms(2) by blast
  then show ?thesis
    using admin_post_refuses [of "r\<lparr>rq_vars := v\<rparr>" w ac f] assms(1,3,4) by (auto simp: mount_def)
qed

subsection \<open>Witnesses\<close>

definition sample_admin_config :: "admin_state admin_config" where
  "sample_admin_config = (new_portal \<lparr>pc_base = ''nas.example'', pc_title = ''nas'', pc_https = True,
     pc_store = \<lparr>sn_domain = ''nas.example'', sn_insecure = False\<rparr>, pc_bcrypt = sample_bcrypt, pc_ip6 = (\<lambda>_. None)\<rparr>
     (Some (new_orchestrator ''/c'' [])) [])\<lparr>ac_data_root := ''/d'', ac_issuer := ''https://auth.nas.example''\<rparr>"

text \<open>Ana is an admin, Bob is not; both are signed in.\<close>

definition sample_row :: "int \<Rightarrow> string \<Rightarrow> int \<Rightarrow> user_row" where
  "sample_row i n a = \<lparr>usr_id = i, usr_name = n, usr_email = None, usr_hash = CHR 0x24 # ''password1'', usr_admin = a,
     usr_created = 0, usr_updated = 0\<rparr>"

definition sample_admin_db :: database where
  "sample_admin_db = empty_db\<lparr>db_user_seq := 2, db_users := [sample_row 1 ''ana'' 1, sample_row 2 ''bob'' 0],
     db_sessions := [\<lparr>ss_id = ''bb'', ss_user = 1, ss_expires = 100\<rparr>, \<lparr>ss_id = ''cc'', ss_user = 2, ss_expires = 100\<rparr>]\<rparr>"

definition sample_admin_state :: admin_state where
  "sample_admin_state = \<lparr>w_db = sample_admin_db, w_faults = [], w_clock = 0, w_rand = [''dd'', ''ee'', ''ff''],
     hs_fs = [], hs_disk_faults = [], hs_cmds = [], hs_outs = [], hs_busy = {}, hs_polls = None, hs_net = [], hs_reqs = [],
     pt_throttle = None, pt_jobs = [], as_next = 0, as_tasks = [], as_log = []\<rparr>"

definition sample_admin_request :: "string \<Rightarrow> string \<Rightarrow> (string \<times> string) list \<Rightarrow> request" where
  "sample_admin_request c path form = (sample_cookies c)\<lparr>rq_path := path, rq_form := Some form\<rparr>"

lemma sample_admin_ok: "world_ok sample_admin_state" "world_ok (sample_admin_state\<lparr>w_clock := t\<rparr>)"
  by (simp_all add: world_ok_def sample_admin_state_def sample_admin_db_def sample_row_def db_ok_def empty_db_def user_ids_def)

lemma admin_routes_guarded_witness:
  "\<exists>rep w'. mount sample_admin_config ''POST'' (sample_admin_request ''cc'' ''/portal/admin/users/2'' [(''is_admin'', ''1'')])
     sample_admin_state = ((rep, []), w') \<and> untouched sample_admin_state w' \<and> refusal rep"
proof -
  let ?r = "sample_admin_request ''cc'' ''/portal/admin/users/2'' [(''is_admin'', ''1'')]"
  have c: "req_cookie ?r session_cookie_name = Some ''cc''" by code_simp
  have s: "scan_user (user_by 2 sample_admin_db) = Inr \<lparr>us_id = 2, us_name = ''bob'', us_email = [], us_admin = False, us_created = 0, us_updated = 0\<rparr>"
    "session_by ''cc'' sample_admin_db = Some \<lparr>ss_id = ''cc'', ss_user = 2, ss_expires = 100\<rparr>"
    by code_simp+
  have "\<not> acting_admin ?r sample_admin_state"
    using s by (auto simp: acting_admin_def c session_holds_def sample_admin_state_def dest: arg_cong [where f = us_admin])
  moreover have "portal_route ''POST'' (rq_path ?r) = Some (RUpdateUser ''2'')" by code_simp
  ultimately show ?thesis
    by (intro admin_routes_guarded) (auto simp: sample_admin_ok)
qed

end
