(* ===== verification/Host_View.thy ===== *)
theory Host_View
  imports Portal_Admin
begin

text \<open>
  What the operations on the host and the database leave alone. \<open>g\<close> is any observation of the world that does not
  look at the database, the host's files, commands, network or the failures to come; every operation of the stores,
  the portal's pages, docker and the installer then leaves it as it is. Interpreted later for the portal's list of
  jobs and for the routes of the process.
\<close>

locale host_view =
  fixes g :: "'r host_scheme \<Rightarrow> 'b"
  assumes view_db: "g (w\<lparr>w_db := d\<rparr>) = g w"
    and view_faults: "g (w\<lparr>w_faults := fs\<rparr>) = g w"
    and view_rand: "g (w\<lparr>w_rand := rs\<rparr>) = g w"
    and view_fs: "g (w\<lparr>hs_fs := h1\<rparr>) = g w"
    and view_disk: "g (w\<lparr>hs_disk_faults := h2\<rparr>) = g w"
    and view_cmds: "g (w\<lparr>hs_cmds := h3\<rparr>) = g w"
    and view_outs: "g (w\<lparr>hs_outs := h4\<rparr>) = g w"
    and view_polls: "g (w\<lparr>hs_polls := h5\<rparr>) = g w"
    and view_net: "g (w\<lparr>hs_net := h6\<rparr>) = g w"
    and view_reqs: "g (w\<lparr>hs_reqs := h7\<rparr>) = g w"
begin

lemmas view = view_db view_faults view_rand view_fs view_disk view_cmds view_outs view_polls view_net view_reqs

lemma frame_host [preserves_intro]:
  "frame g disk_fault" "frame g (run_command argv)" "frame g ctx_done" "frame g (port_available p)" "frame g (http_do m u b)"
  by (auto simp: frame_def disk_fault_def run_command_def ctx_done_def port_available_def http_do_def run_simps view
      split: list.splits bool.splits option.splits nat.splits)

lemma frame_files [preserves_intro]:
  "frame g (mkdir_all p)" "frame g (write_file p s)" "frame g (read_file p)"
  "frame g (remove_file p)" "frame g (remove_all p)" "frame g (file_exists p)"
  unfolding file_exists_def mkdir_all_def write_file_def read_file_def remove_file_def remove_all_def
  by (intro frame_bindR frame_host; auto simp: frame_def Let_def run_simps view split: option.splits fs_node.splits)+

lemma frame_statements [preserves_intro]: "frame g (query q)" "frame g (exec s)" "frame g draw" "frame g pop_fault"
  by (intro preserves_intro; simp add: view)+

lemma frame_tx [preserves_intro]: "frame g m \<Longrightarrow> frame g (in_tx m)" "frame g m \<Longrightarrow> frame g (in_tx_if c m)"
  by (intro preserves_intro; simp add: view)+

lemma view_orch [preserves_intro]:
  "frame g (orch_up o1 f)" "frame g (orch_down o1 f)" "frame g (orch_down_volumes o1 f)" "frame g (orch_status o1 f)"
  unfolding orch_up_def orch_down_def orch_down_volumes_def orch_status_def orch_call_def orch_run_def by (intro preserves_intro)+

lemma frame_users [preserves_intro]:
  "frame g (users_get i)" "frame g (hash_password bc p)" "frame g (revoke_sessions i)" "frame g users_list"
  "frame g (users_get_by_username n)"
  unfolding users_get_def hash_password_def revoke_sessions_def users_list_def users_get_by_username_def
  by (intro preserves_intro)+

lemma frame_users_more [preserves_intro]:
  "frame g (users_verify bc n p)" "frame g (users_create bc n e p a)" "frame g (users_set_email i e)"
  "frame g (users_set_admin i b)" "frame g (users_set_password bc i p)" "frame g (users_delete i)"
  "frame g (can_remove_admin i)"
  unfolding users_verify_def users_create_def Let_def users_set_email_def users_set_admin_def
    users_set_password_def users_delete_def can_remove_admin_def
  by (intro preserves_intro)+

lemma frame_sessions [preserves_intro]:
  "frame g (session_issue st i)" "frame g (session_lookup q)" "frame g (session_revoke st q)" "frame g (session_purge c)"
  unfolding session_issue_def session_insert_def session_lookup_def session_revoke_def session_purge_def
  by (intro preserves_intro)+

lemma frame_pages [preserves_intro]:
  "frame g (load_apps b)" "frame g (state_of ac a)" "frame g (states_of ac as)" "frame g (load_app_paths n)" "frame g (compose_file_of n)"
proof -
  show l: "frame g (load_apps b)" for b unfolding load_apps_def by (intro preserves_intro)
  show st: "frame g (state_of ac a)" for a unfolding state_of_def by (intro preserves_intro)
  show "frame g (states_of ac as)" by (induction as) (auto intro!: preserves_intro st)
  show "frame g (compose_file_of n)" unfolding compose_file_of_def by (intro preserves_intro l)
  show "frame g (load_app_paths n)"
    unfolding load_app_paths_def by (intro preserves_intro; simp split: json.split) (auto intro!: preserves_intro)
qed

lemma view_tiles [preserves_intro]: "frame g (dashboard_tiles ac)"
  unfolding dashboard_tiles_def by (intro preserves_intro)

lemma frame_install:
  assumes "\<And>f ic. sp_pre_up sp = Some f \<or> sp_post_up sp = Some f \<Longrightarrow> frame g (f ic)"
  shows "frame g (install_app bc ip6 ico (Some sp))"
proof -
  have "frame g (run_hook what (sp_pre_up sp) ic)" "frame g (run_hook what (sp_post_up sp) ic)" for what ic
    using assms by (auto simp: run_hook_def split: option.split intro!: preserves_intro)
  then have st: "frame g (start_app sp ic)" for ic
    unfolding start_app_def by (intro preserves_intro) auto
  have scan: "frame g (scan_ports p r ps)" for p r ps by (induction ps) (auto intro!: preserves_intro)
  have rc: "frame g (render_compose sp ic)" "frame g (save_settings n s)" "frame g (select_backend_port p r x)" for ic n s p r x
    unfolding render_compose_def save_settings_def select_backend_port_def by (intro preserves_intro scan)+
  have pv: "frame g (provision_client bc sp ic)" "frame g (resolve_context ip6 sp ic)" for ic
    unfolding provision_client_def provision_def resolve_context_def by (intro preserves_intro rc)+
  show ?thesis
    unfolding install_app_def by (cases ico) (auto intro!: preserves_intro st rc pv)
qed

lemma frame_uninstall: "frame g (uninstall_app uco)"
  unfolding uninstall_app_def bring_down_def forget_app_def remove_files_def cleanup_client_def delete_client_def
  by (intro preserves_intro)

end

text \<open>An observation of the portal that does not look at the throttle either.\<close>

locale portal_view = host_view g for g :: "'r portal_scheme \<Rightarrow> 'b" +
  assumes view_throttle: "g (w\<lparr>pt_throttle := th\<rparr>) = g w"
begin

lemma view_admin_page [preserves_intro]: "frame g (admin_view ac sess)"
  unfolding admin_view_def by (intro preserves_intro)

end

lemma install_without_spec: "install_app bc ip6 ico None = throw (Msg ''install: nil context or spec'')"
  by (cases ico) (simp_all add: install_app_def)

end
