(* ===== verification/Portal_Steps.thy ===== *)
theory Portal_Steps
  imports Host_View
begin

text \<open>
  The portal as a transition system: requests, jobs of the background and changes of the world around nass, in
  any order. A request and a job are each one step. Invariants by rule induction: there is always an admin (as
  long as handlers do not interleave: \<open>concurrent_demotion\<close> shows two checks before two demotions that leave
  none), and the list of jobs is accounted for.
\<close>

subsection \<open>There is an admin\<close>

definition has_admin :: "database \<Rightarrow> bool" where
  "has_admin d \<longleftrightarrow> (\<exists>u \<in> set (db_users d). usr_admin u \<noteq> 0)"

definition admin_inv :: "'r world_scheme \<Rightarrow> bool" where
  "admin_inv w \<longleftrightarrow> db_ok (w_db w) \<and> has_admin (w_db w)"

text \<open>A statement that takes no role away.\<close>

definition keeps_roles :: "(database \<Rightarrow> error + 'a \<times> database) \<Rightarrow> bool" where
  "keeps_roles g \<longleftrightarrow> (\<forall>d x d'. has_admin d \<longrightarrow> g d = Inr (x, d') \<longrightarrow> has_admin d')"

lemma admin_inv_simps [simp]:
  "admin_inv (w\<lparr>w_faults := fs\<rparr>) = admin_inv w" "admin_inv (w\<lparr>w_rand := rs\<rparr>) = admin_inv w"
  by (simp_all add: admin_inv_def)

lemma admin_inv_frame: "frame w_db m \<Longrightarrow> preserves admin_inv m"
  by (auto simp: frame_def preserves_def admin_inv_def)

lemma admin_inv_basic [preserves_intro]:
  "preserves admin_inv (query f)" "preserves admin_inv now" "preserves admin_inv draw" "preserves admin_inv (lift_result r)"
  by (intro admin_inv_frame preserves_intro; simp)+

lemma admin_inv_exec [preserves_intro]:
  assumes "stmt_ok g" "keeps_roles g"
  shows "preserves admin_inv (exec g)"
  unfolding preserves_def
proof (intro allI impI)
  fix w :: "'b world_scheme"
  assume w: "admin_inv w"
  obtain r w' where e: "exec g w = (r, w')" by fastforce
  show "admin_inv (snd (exec g w))"
    using w e assms by (cases r) (auto dest!: exec_InrD exec_InlD simp: admin_inv_def stmt_ok_def keeps_roles_def)
qed

lemma admin_inv_pop [simp]: "pop_fault w = (r, w') \<Longrightarrow> admin_inv w' = admin_inv w"
  by (auto dest!: pop_fault_cases)

lemma admin_inv_in_tx [preserves_intro]:
  assumes "preserves admin_inv m"
  shows "preserves admin_inv (in_tx_if c m)"
  unfolding preserves_def
proof (intro allI impI)
  fix w :: "'a world_scheme"
  assume w: "admin_inv w"
  obtain r1 w1 where p: "pop_fault w = (r1, w1)" by fastforce
  obtain r2 w2 where m: "m w1 = (r2, w2)" by fastforce
  obtain r3 w3 where q: "pop_fault w2 = (r3, w3)" by fastforce
  have "admin_inv w1" "admin_inv w2" "admin_inv w3" "w_db w1 = w_db w"
    using w p m q preserves_pair [OF assms m] by (auto dest: pop_fault_cases)
  then show "admin_inv (snd (in_tx_if c m w))"
    using p m q w by (auto simp: in_tx_if_def bindR_def admin_inv_def split: sum.splits)
qed

lemma admin_inv_tx [preserves_intro]: "preserves admin_inv m \<Longrightarrow> preserves admin_inv (in_tx m)"
  unfolding in_tx_def by (rule admin_inv_in_tx)

lemma roles_plain [preserves_intro]:
  "keeps_roles (ins_client c)" "keeps_roles (ins_session s)" "keeps_roles (del_sessions P1)" "keeps_roles (del_access P2)"
  "keeps_roles (del_refresh P3)" "keeps_roles (del_clients P4)" "keeps_roles (del_apps P5)" "keeps_roles (upsert_app n st t)"
  "keeps_roles (ins_user n e h a t)" "keeps_roles (del_codes P6)" "keeps_roles (del_authreqs P7)"
  by (auto simp: keeps_roles_def has_admin_def stmt_defs Let_def split: if_splits)

lemma roles_upd: "(\<And>u. usr_admin (f u) = usr_admin u) \<Longrightarrow> keeps_roles (upd_users P f)"
  by (simp add: keeps_roles_def has_admin_def upd_users_def if_distrib [of usr_admin] del: if_image_distrib)

lemma users_admin_inv [preserves_intro]:
  "preserves admin_inv (users_create bc n e p a)" "preserves admin_inv (users_verify bc n p)"
  "preserves admin_inv (users_set_email i e)" "preserves admin_inv (users_set_password bc i p)"
  "preserves admin_inv (users_get i)" "preserves admin_inv users_list" "preserves admin_inv (revoke_sessions i)"
proof -
  have h: "preserves admin_inv (hash_password bc pw)" for pw by (intro admin_inv_frame preserves_intro)
  show v: "preserves admin_inv (users_verify bc n p)" "preserves admin_inv (users_get i)" "preserves admin_inv users_list"
    by (intro admin_inv_frame preserves_intro)+
  show rv: "preserves admin_inv (revoke_sessions i)" unfolding revoke_sessions_def by (intro preserves_intro)
  have g: "preserves admin_inv (users_get i)" for i by (intro admin_inv_frame preserves_intro)
  show "preserves admin_inv (users_create bc n e p a)"
    unfolding users_create_def Let_def by (intro preserves_intro h g)
  show "preserves admin_inv (users_set_email i e)"
    unfolding users_set_email_def by (intro preserves_intro upd_users_ok roles_upd) auto
  show "preserves admin_inv (users_set_password bc i p)"
    unfolding users_set_password_def by (intro preserves_intro upd_users_ok roles_upd h rv) auto
qed

lemma sessions_admin_inv [preserves_intro]:
  "preserves admin_inv (session_issue st i)" "preserves admin_inv (session_lookup r)" "preserves admin_inv (session_revoke st r)"
  unfolding session_issue_def session_insert_def session_lookup_def session_revoke_def
  by (intro preserves_intro)+

subsection \<open>The last admin\<close>

lemma count_admins_fold:
  "fold (\<lambda>u (n, target). (if us_admin u then Suc n else n, if us_id u = i then us_admin u else target)) us (n, b) =
     (n + length (filter us_admin us), if \<exists>u \<in> set us. us_id u = i then us_admin (last (filter (\<lambda>u. us_id u = i) us)) else b)"
  by (induction us arbitrary: n b) (auto simp: filter_empty_conv)

lemma count_admins_eq:
  "count_admins i us = (length (filter us_admin us), \<exists>u \<in> set us. us_id u = i \<and> us_admin (last (filter (\<lambda>u. us_id u = i) us)))"
  unfolding count_admins_def count_admins_fold by auto

definition user_of :: "user_row \<Rightarrow> user" where
  "user_of r = \<lparr>us_id = usr_id r, us_name = usr_name r, us_email = (case usr_email r of None \<Rightarrow> [] | Some e \<Rightarrow> e),
     us_admin = (usr_admin r \<noteq> 0), us_created = usr_created r, us_updated = usr_updated r\<rparr>"

lemma scan_user_of: "scan_user (Some r) = Inr (user_of r)"
  by (simp add: scan_user_def user_of_def)

lemma user_of_simps [simp]: "us_id (user_of r) = usr_id r" "us_admin (user_of r) = (usr_admin r \<noteq> 0)"
  by (simp_all add: user_of_def)

lemma users_list_Inr:
  "users_list w = (Inr us, w') \<Longrightarrow> us = map user_of (sort_key usr_id (db_users (w_db w))) \<and> w_db w' = w_db w"
  by (auto simp: users_list_def bindR_Inr_iff ret_run scan_user_of List.map_filter_def dest!: query_InrD)

text \<open>An admin besides \<open>i\<close>: what the check before a removal establishes.\<close>

lemma can_remove_admin_other:
  assumes "can_remove_admin i w = (Inr True, w')" "admin_inv w"
  shows "w_db w' = w_db w \<and> (\<exists>u \<in> set (db_users (w_db w)). usr_id u \<noteq> i \<and> usr_admin u \<noteq> 0)"
proof -
  obtain us where us: "users_list w = (Inr us, w')"
      "case count_admins i us of (n, target) \<Rightarrow> \<not> target \<or> 1 < n"
    using assms(1) by (auto simp: can_remove_admin_def bindR_Inr_iff ret_run)
  let ?rs = "sort_key usr_id (db_users (w_db w))"
  have l: "us = map user_of ?rs" "w_db w' = w_db w" using users_list_Inr [OF us(1)] by auto
  have d: "distinct (map usr_id (db_users (w_db w)))" using assms(2) by (simp add: admin_inv_def db_ok_def)
  obtain a where a: "a \<in> set (db_users (w_db w))" "usr_admin a \<noteq> 0"
    using assms(2) by (auto simp: admin_inv_def has_admin_def)
  have "\<exists>u \<in> set (db_users (w_db w)). usr_id u \<noteq> i \<and> usr_admin u \<noteq> 0"
  proof (rule ccontr)
    assume n: "\<not> ?thesis"
    then have ai: "usr_id a = i" using a by auto
    have only: "x = a" if "x \<in> set (db_users (w_db w))" "usr_id x = i" for x
      using that ai a(1) d by (metis distinct_map inj_onD)
    let ?adm = "filter (\<lambda>r. usr_admin r \<noteq> 0)"
    have "set (?adm (db_users (w_db w))) \<subseteq> {a}" using n only by auto
    then have "card (set (?adm (db_users (w_db w)))) \<le> 1" using card_mono [of "{a}"] by fastforce
    moreover have "distinct (?adm (db_users (w_db w)))" using d by (simp add: distinct_map)
    ultimately have one: "length (?adm (db_users (w_db w))) \<le> 1" by (metis distinct_card)
    have "length (filter us_admin us) = length (?adm ?rs)" unfolding l(1) by (simp add: filter_map comp_def)
    also have "\<dots> = length (?adm (db_users (w_db w)))"
      by (metis mset_filter mset_sort size_mset)
    finally have "\<not> 1 < length (filter us_admin us)" using one by simp
    moreover have t: "user_of a \<in> set (filter (\<lambda>u. us_id u = i) us)" using a(1) ai l(1) by auto
    moreover have "last (filter (\<lambda>u. us_id u = i) us) \<in> set (filter (\<lambda>u. us_id u = i) us)"
      using t by (intro last_in_set) (metis list.set(1) empty_iff)
    then have "last (filter (\<lambda>u. us_id u = i) us) = user_of a" using only l(1) by auto
    moreover have "\<exists>u \<in> set us. us_id u = i" using t unfolding set_filter by blast
    ultimately show False using us(2) a(2) by (simp add: count_admins_eq)
  qed
  then show ?thesis using l(2) by simp
qed

definition other_admin :: "int \<Rightarrow> 'r world_scheme \<Rightarrow> bool" where
  "other_admin i w \<longleftrightarrow> db_ok (w_db w) \<and> (\<exists>u \<in> set (db_users (w_db w)). usr_id u \<noteq> i \<and> usr_admin u \<noteq> 0)"

lemma other_admin_inv: "other_admin i w \<Longrightarrow> admin_inv w"
  by (auto simp: other_admin_def admin_inv_def has_admin_def)

lemma other_admin_simps [simp]: "other_admin i (w\<lparr>w_faults := fs\<rparr>) = other_admin i w"
  by (simp add: other_admin_def)

text \<open>With another admin about, a demotion and a deletion keep the invariant; a promotion always does.\<close>

lemma revoke_users: "revoke_sessions i w = (r, w') \<Longrightarrow> db_users (w_db w') = db_users (w_db w)"
proof -
  have "frame (\<lambda>w. db_users (w_db w)) (exec (del_sessions P))" "frame (\<lambda>w. db_users (w_db w)) (exec (del_access Q))"
      "frame (\<lambda>w. db_users (w_db w)) (exec (del_refresh R))" for P Q R
    unfolding frame_def by (auto simp: exec_def bindR_def pop_fault_def del_sessions_def del_access_def del_refresh_def
        split: list.split bool.split)
  then have "frame (\<lambda>w. db_users (w_db w)) (revoke_sessions i)"
    unfolding revoke_sessions_def by (intro frame_bindR frame_map_error frame_basic)
  then show "revoke_sessions i w = (r, w') \<Longrightarrow> db_users (w_db w') = db_users (w_db w)" by (rule frame_pair)
qed

lemma set_admin_users:
  assumes "users_set_admin i b w = (Inr u, w')"
  shows "db_users (w_db w') = map (\<lambda>u. if usr_id u = i then u\<lparr>usr_admin := bool_int b, usr_updated := w_clock w\<rparr> else u) (db_users (w_db w))"
proof -
  obtain fs w1 gs where s: "w' = w1\<lparr>w_faults := gs\<rparr>"
      "bindR (query (\<lambda>d. map_option usr_admin (user_by i d))) (\<lambda>was. case was of
         None \<Rightarrow> throw ErrUserNotFound
       | Some was_admin \<Rightarrow> bindR now (\<lambda>t. bindR (exec (upd_users (\<lambda>u. usr_id u = i) (\<lambda>u. u\<lparr>usr_admin := bool_int b, usr_updated := t\<rparr>)))
           (\<lambda>_. if was_admin \<noteq> 0 \<and> \<not> b then revoke_sessions i else ret ()))) (w\<lparr>w_faults := fs\<rparr>) = (Inr u, w1)"
    using in_tx_InrD [OF assms [unfolded users_set_admin_def]] by blast
  then obtain a w2 n w3 where t: "query (\<lambda>d. map_option usr_admin (user_by i d)) (w\<lparr>w_faults := fs\<rparr>) = (Inr (Some a), w2)"
      "exec (upd_users (\<lambda>u. usr_id u = i) (\<lambda>u. u\<lparr>usr_admin := bool_int b, usr_updated := w_clock w2\<rparr>)) w2 = (Inr n, w3)"
      "(if a \<noteq> 0 \<and> \<not> b then revoke_sessions i else ret ()) w3 = (Inr u, w1)"
    by (auto simp: bindR_Inr_iff throw_run now_run split: option.splits)
  have "w_db w2 = w_db w" "w_clock w2 = w_clock w" using query_InrD [OF t(1)] by auto
  moreover have "db_users (w_db w1) = db_users (w_db w3)"
    using t(3) revoke_users [of i w3 "Inr u" w1] by (auto simp: ret_run split: if_splits)
  ultimately show ?thesis using exec_InrD [OF t(2)] s(1) by (auto simp: upd_users_def)
qed

lemma set_admin_inv:
  assumes "if b then admin_inv w else other_admin i w"
  shows "admin_inv (snd (users_set_admin i b w))"
proof -
  have ok: "world_ok w" "admin_inv w" using assms other_admin_inv by (auto simp: world_ok_def admin_inv_def other_admin_def split: if_splits)
  obtain r w' where run: "users_set_admin i b w = (r, w')" by fastforce
  have ok': "db_ok (w_db w')"
    using preserves_pair [OF preserves_users_set_admin run ok(1)] by (simp add: world_ok_def)
  show ?thesis
  proof (cases r)
    case (Inl e)
    then show ?thesis using run ok(2) in_tx_atomic unfolding users_set_admin_def by (fastforce simp: admin_inv_def)
  next
    case (Inr u)
    have us: "db_users (w_db w') = map (\<lambda>u. if usr_id u = i then u\<lparr>usr_admin := bool_int b, usr_updated := w_clock w\<rparr> else u) (db_users (w_db w))"
      using set_admin_users run Inr by blast
    obtain x where x: "x \<in> set (db_users (w_db w))" "usr_admin x \<noteq> 0" "b \<or> usr_id x \<noteq> i"
      using assms by (auto simp: other_admin_def admin_inv_def has_admin_def split: if_splits)
    let ?f = "\<lambda>u. if usr_id u = i then u\<lparr>usr_admin := bool_int b, usr_updated := w_clock w\<rparr> else u"
    have "?f x \<in> set (db_users (w_db w'))" "usr_admin (?f x) \<noteq> 0"
      unfolding us set_map using x by (auto simp: bool_int_def)
    then show ?thesis using ok' run by (auto simp: admin_inv_def has_admin_def)
  qed
qed

lemma delete_inv:
  assumes "other_admin i w"
  shows "admin_inv (snd (users_delete i w))"
proof -
  have ok: "world_ok w" "admin_inv w" using assms other_admin_inv by (auto simp: world_ok_def other_admin_def)
  obtain r w' where run: "exec (del_users (\<lambda>u. usr_id u = i)) w = (r, w')" by fastforce
  have "db_ok (w_db w')"
    using preserves_pair [OF preserves_exec [OF del_users_ok] run ok(1)] by (simp add: world_ok_def)
  moreover have "has_admin (w_db w')"
    using run ok(2) assms by (cases r) (auto dest!: exec_InrD exec_InlD simp: del_users_def Let_def has_admin_def admin_inv_def other_admin_def)
  ultimately have "admin_inv w'" by (simp add: admin_inv_def)
  then show ?thesis using run by (cases r) (auto simp: users_delete_def bindR_run ret_run throw_run)
qed

lemma set_email_other:
  assumes "other_admin i w"
  shows "other_admin i (snd (users_set_email j e w))"
proof -
  obtain r w' where run: "exec (upd_users (\<lambda>u. usr_id u = j) (\<lambda>u. u\<lparr>usr_email := null_str (trim_space e), usr_updated := w_clock w\<rparr>)) w = (r, w')"
    by fastforce
  have "preserves world_ok (exec (upd_users (\<lambda>u. usr_id u = j) (\<lambda>u. u\<lparr>usr_email := null_str (trim_space e), usr_updated := w_clock w\<rparr>)))"
    by (intro preserves_intro upd_users_ok) auto
  from preserves_pair [OF this run] have "db_ok (w_db w')"
    using assms by (simp add: world_ok_def other_admin_def)
  moreover obtain x where x: "x \<in> set (db_users (w_db w))" "usr_id x \<noteq> i" "usr_admin x \<noteq> 0"
    using assms by (auto simp: other_admin_def)
  have "\<exists>u \<in> set (db_users (w_db w')). usr_id u \<noteq> i \<and> usr_admin u \<noteq> 0"
  proof (cases r)
    case (Inl er)
    then show ?thesis using run x by (auto dest!: exec_InlD)
  next
    case (Inr n)
    let ?f = "\<lambda>u. if usr_id u = j then u\<lparr>usr_email := null_str (trim_space e), usr_updated := w_clock w\<rparr> else u"
    have "?f x \<in> set (db_users (w_db w'))" using run Inr x(1) by (auto dest!: exec_InrD simp: upd_users_def)
    moreover have "usr_id (?f x) \<noteq> i" "usr_admin (?f x) \<noteq> 0" using x by simp_all
    ultimately show ?thesis by blast
  qed
  ultimately have "other_admin i w'" by (simp add: other_admin_def)
  then show ?thesis
    using run by (cases r) (auto simp: users_set_email_def bindR_run now_run ret_run throw_run)
qed

subsection \<open>Handlers that keep an invariant\<close>

definition keeps :: "('w \<Rightarrow> bool) \<Rightarrow> ('w \<Rightarrow> 'x \<times> 'w) \<Rightarrow> bool" where
  "keeps P k \<longleftrightarrow> (\<forall>w. P w \<longrightarrow> P (snd (k w)))"

lemma keepsD: "keeps P k \<Longrightarrow> P w \<Longrightarrow> P (snd (k w))"
  by (simp add: keeps_def)

lemma keeps_try_op:
  "preserves P m \<Longrightarrow> (\<And>x. keeps P (f x)) \<Longrightarrow> keeps P (try_op r msg m f)"
  unfolding keeps_def try_op_def
  by (auto split: prod.split sum.split dest: preserves_pair)

lemma try_op_Inr: "m w = (Inr x, w1) \<Longrightarrow> try_op r msg m f w = f x w1"
  by (simp add: try_op_def)

lemma keeps_const: "keeps P (\<lambda>w. (x, w))"
  by (simp add: keeps_def)

lemma keeps_form: "(\<And>r. keeps P (f r)) \<Longrightarrow> keeps P (with_form f r)"
  by (auto simp: keeps_def with_form_def)

lemma keeps_user_id: "(\<And>i r. keeps P (f i r)) \<Longrightarrow> keeps P (with_user_id f r)"
  by (auto simp: keeps_def with_user_id_def split: option.split)

lemma keeps_if: "(b \<Longrightarrow> keeps P f) \<Longrightarrow> (\<not> b \<Longrightarrow> keeps P g) \<Longrightarrow> keeps P (\<lambda>w. if b then f w else g w)"
  by (simp add: keeps_def)

lemma require_session_pair:
  "require_session r w = (q, w1) \<Longrightarrow> \<exists>x. session_lookup r w = (x, w1)"
  by (auto simp: require_session_def split: prod.splits sum.splits option.splits)

lemma require_admin_pair:
  "require_admin r w = (q, w1) \<Longrightarrow> \<exists>x. session_lookup r w = (x, w1)"
  by (auto simp: require_admin_def split: prod.splits sum.splits if_splits dest!: require_session_pair)

lemma keeps_admin_post:
  assumes "\<And>q. preserves P (session_lookup q)" "\<And>sess r. keeps P (f sess r)"
  shows "keeps P (admin_post ac f r)"
  using assms(2) preserves_pair [OF assms(1)] unfolding keeps_def admin_post_def
  by (auto split: prod.split sum.split dest!: require_admin_pair)

text \<open>The contract: what the portal asks of the stores, docker and its own list of jobs for a predicate to be an
  invariant of its handlers. The two handlers that take a role away are argued for one by one.\<close>

locale portal_invariant =
  fixes P :: "'r admin_state_scheme \<Rightarrow> bool"
  assumes lookup: "preserves P (session_lookup q)"
    and issue: "preserves P (session_issue st i)"
    and revoke: "preserves P (session_revoke st q)"
    and verify: "preserves P (users_verify bc n pw)"
    and create: "preserves P (users_create bc n e pw b)"
    and set_password: "preserves P (users_set_password bc i pw)"
    and view: "preserves P (admin_view ac sess)"
    and tiles: "preserves P (dashboard_tiles ac)"
    and paths: "preserves P (load_app_paths n)"
    and compose: "preserves P (compose_file_of n)"
    and up: "preserves P (orch_up o1 n)"
    and down: "preserves P (orch_down o1 n)"
    and throttle: "P (w\<lparr>pt_throttle := th\<rparr>) = P w"
    and start: "P w \<Longrightarrow> P (start_app_job ac act n task w)"
    and update: "keeps P (post_update_user ac q)"
    and delete: "keeps P (post_delete_user ac q)"
begin

lemma keeps_create_user: "keeps P (post_create_user ac r)"
  unfolding post_create_user_def
  by (intro keeps_admin_post keeps_form keeps_try_op keeps_const lookup create)

lemma keeps_set_password: "keeps P (post_set_user_password ac r)"
proof -
  show ?thesis
    unfolding post_set_user_password_def
  proof (rule keeps_admin_post [OF lookup], rule keeps_form, rule keeps_user_id, rule keeps_try_op [OF set_password])
    fix sess :: portal_session and q :: request and i :: int and x :: unit
    show "keeps P (if i = us_id (pn_user sess) then
        try_op q (\<lambda>e. ''password updated, but re-issuing your session failed: '' @ e)
         (session_issue (pc_store ac) i) (\<lambda>(res, cks) w. (case res of
             Inl e \<Rightarrow> (redirect_admin q [] (''password updated, but re-issuing your session failed: '' @ error_text e), cks)
           | Inr s \<Rightarrow> (redirect_admin q ''updated password'' [], cks), w))
      else (\<lambda>w. (admin_flash q ''updated password'', w)))"
    proof (cases "i = us_id (pn_user sess)")
      case True
      show ?thesis unfolding if_P [OF True]
        by (rule keeps_try_op [OF issue]) (auto simp: keeps_def)
    next
      case False
      show ?thesis unfolding if_not_P [OF False] by (rule keeps_const)
    qed
  qed
qed

lemma keeps_add_app: "keeps P (post_add_app ac r)"
proof (unfold post_add_app_def, rule keeps_admin_post [OF lookup], rule keeps_form)
qed (auto simp: keeps_def Let_def start split: option.split sum.split)

lemma keeps_uninstall: "keeps P (post_uninstall_app ac r)"
proof (unfold post_uninstall_app_def Let_def, rule keeps_admin_post [OF lookup], rule keeps_try_op [OF paths])
qed (auto simp: keeps_def start split: option.split)

lemma keeps_orch_action:
  assumes "\<And>o1 f. preserves P (m o1 f)"
  shows "keeps P (orch_action ac m failed done r)"
proof (unfold orch_action_def Let_def, rule keeps_admin_post [OF lookup], rule keeps_try_op [OF compose])
  show "keeps P (case ac_orch ac of None \<Rightarrow> \<lambda>w. (admin_error q e1, w)
      | Some o1 \<Rightarrow> try_op q e2 (m o1 cf) (\<lambda>_ w. (x, w)))" for q e1 e2 x cf
    by (auto split: option.split intro!: keeps_const keeps_try_op assms)
qed

lemma keeps_get_login: "keeps P (get_login p r)"
  using preserves_pair [OF lookup]
  unfolding keeps_def get_login_def Let_def by (fastforce split: prod.split sum.split option.split)

lemma keeps_logout: "keeps P (post_logout p r)"
  using preserves_pair [OF revoke]
  unfolding keeps_def post_logout_def by (fastforce split: prod.split sum.split)

lemma keeps_login: "keeps P (post_login p r)"
  unfolding keeps_def
proof (intro allI impI)
  fix w assume w: "P w"
  have v: "P w2" if "users_verify bc n pw (w\<lparr>pt_throttle := th\<rparr>) = (q, w2)" for bc n pw th q w2
    using preserves_pair [OF verify that] w throttle by simp
  have s: "P w3" if "session_issue st i (w2\<lparr>pt_throttle := th\<rparr>) = (q, w3)" "P w2" for st i th q w2 w3
    using preserves_pair [OF issue that(1)] that(2) throttle by simp
  show "P (snd (post_login p r w))"
    using w by (auto simp: post_login_def Let_def throttle split: prod.splits sum.splits dest!: v dest: s)
qed

lemma keeps_get_admin: "keeps P (get_admin ac r)"
  unfolding keeps_def
proof (intro allI impI)
  fix w assume w: "P w"
  obtain q w1 where q: "require_admin r w = (q, w1)" by fastforce
  then have w1: "P w1" using w preserves_pair [OF lookup] by (blast dest: require_admin_pair)
  show "P (snd (get_admin ac r w))"
  proof (cases q)
    case (Inr sess)
    obtain v w2 where v: "admin_view ac sess w1 = (v, w2)" by fastforce
    have "P w2" by (rule preserves_pair [OF view v w1])
    then show ?thesis using q Inr v by (cases v) (simp_all add: get_admin_def split: prod.split)
  qed (use q w1 in \<open>simp add: get_admin_def\<close>)
qed

lemma keeps_get_dashboard: "keeps P (get_dashboard ac r)"
  unfolding keeps_def
proof (intro allI impI)
  fix w assume w: "P w"
  obtain q w1 where q: "require_session r w = (q, w1)" by fastforce
  then have w1: "P w1" using w preserves_pair [OF lookup] by (blast dest: require_session_pair)
  show "P (snd (get_dashboard ac r w))"
  proof (cases q)
    case (Inr sess)
    obtain v w2 where v: "dashboard_tiles ac w1 = (v, w2)" by fastforce
    have "P w2" by (rule preserves_pair [OF tiles v w1])
    then show ?thesis using q Inr v w by (cases v) (simp_all add: get_dashboard_def)
  qed (use q w1 w in \<open>simp add: get_dashboard_def\<close>)
qed

lemma keeps_handler: "keeps P (portal_handler ac rt r)"
  by (cases rt) (simp_all add: with_var_def post_start_app_def post_stop_app_def keeps_get_login keeps_logout keeps_login
    keeps_get_admin keeps_add_app keeps_orch_action keeps_uninstall keeps_create_user update keeps_set_password
    delete keeps_get_dashboard up down)

lemma keeps_mount: "keeps P (mount ac meth r)"
  using keeps_handler unfolding keeps_def mount_def by (auto split: option.split)

end

subsection \<open>Every request keeps an admin\<close>

lemma frame_can_remove: "frame w_db (can_remove_admin i)"
  unfolding can_remove_admin_def by (intro preserves_intro)

lemma keeps_guard:
  assumes "\<And>w. other_admin i w \<Longrightarrow> admin_inv (snd (f w))"
  shows "keeps admin_inv (guard_last_admin r msg i f)"
  unfolding keeps_def
proof (intro allI impI)
  fix w :: "'a world_scheme"
  assume w: "admin_inv w"
  obtain q w1 where q: "can_remove_admin i w = (q, w1)" by fastforce
  have w1: "admin_inv w1" using w q frame_pair [OF frame_can_remove q] by (simp add: admin_inv_def)
  show "admin_inv (snd (guard_last_admin r msg i f w))"
  proof (cases q)
    case (Inr ok)
    have "other_admin i w1" if ok
      using can_remove_admin_other [of i w w1] q Inr that w by (simp add: other_admin_def admin_inv_def)
    then show ?thesis using q Inr w1 assms by (simp add: guard_last_admin_def try_op_def)
  qed (use q w1 in \<open>simp add: guard_last_admin_def try_op_def\<close>)
qed

lemma keeps_delete_user: "keeps admin_inv (post_delete_user ac r)"
proof -
  have d: "admin_inv (snd (try_op q msg (users_delete i) (\<lambda>_ w. (y, w)) w))" if "other_admin i w" for i q msg y and w :: "'a world_scheme"
    using delete_inv [OF that] by (auto simp: try_op_def split: prod.splits sum.splits)
  show ?thesis
    unfolding post_delete_user_def
    by (intro keeps_admin_post sessions_admin_inv keeps_user_id keeps_if keeps_const keeps_guard d)
qed

lemma keeps_update_user: "keeps admin_inv (post_update_user ac r)"
proof -
  let ?up = "\<lambda>q i b e. try_op q (\<lambda>e. ''update email failed: '' @ e) (users_set_email i e) (\<lambda>_.
    try_op q (\<lambda>e. ''update role failed: '' @ e) (users_set_admin i b) (\<lambda>_ w. (admin_flash q ''updated user'', w)))"
  have s: "admin_inv (snd (try_op q m (users_set_admin i b) (\<lambda>_ w. (y, w)) w))" if "if b then admin_inv w else other_admin i w"
    for q m i b y and w :: "'a world_scheme"
    using set_admin_inv [OF that] by (auto simp: try_op_def split: prod.splits sum.splits)
  have t: "keeps admin_inv (?up q i True e :: 'a world_scheme \<Rightarrow> reply \<times> 'a world_scheme)" for q i e
  proof (intro keeps_try_op users_admin_inv)
    show "preserves admin_inv (users_set_admin i True :: 'a world_scheme \<Rightarrow> _)"
      by (simp add: preserves_def set_admin_inv)
  qed (simp add: keeps_def)
  have f: "admin_inv (snd (?up q i False e w))" if "other_admin i w" for q i e and w :: "'a world_scheme"
  proof -
    obtain res w1 where res: "users_set_email i e w = (res, w1)" by fastforce
    then have o: "other_admin i w1" using set_email_other [OF that, of i e] by simp
    show ?thesis
    proof (cases res)
      case (Inl x)
      then show ?thesis using res o other_admin_inv [OF o] by (simp add: try_op_def)
    next
      case (Inr x)
      have "?up q i False e w = try_op q (\<lambda>e. ''update role failed: '' @ e) (users_set_admin i False)
          (\<lambda>_ w. (admin_flash q ''updated user'', w)) w1"
        using res Inr by (simp only: try_op_Inr)
      then show ?thesis using s [of False w1 i] o by simp
    qed
  qed
  show ?thesis
    unfolding post_update_user_def Let_def
  proof (rule keeps_admin_post [OF sessions_admin_inv(2)], rule keeps_form, rule keeps_user_id)
    fix sess :: portal_session and i :: int and q :: request
    let ?b = "form_value q ''is_admin'' = ''1''" and ?e = "form_value q ''email''"
    have g: "keeps admin_inv (guard_last_admin q m i (?up q i b e) :: 'a world_scheme \<Rightarrow> reply \<times> 'a world_scheme)" if "\<not> b" for m b e
    proof -
      have "b = False" using that by simp
      then show ?thesis by (simp only: keeps_guard f)
    qed
    have u: "keeps admin_inv (?up q i b e :: 'a world_scheme \<Rightarrow> reply \<times> 'a world_scheme)" if "\<not> \<not> b" for b e
    proof -
      have "b = True" using that by simp
      then show ?thesis by (simp only: t)
    qed
    show "keeps admin_inv (\<lambda>w :: 'a world_scheme.
        if i = us_id (pn_user sess) \<and> \<not> ?b then (admin_error q ''cannot remove admin from your own account'', w)
        else if \<not> ?b then guard_last_admin q ''cannot remove the last admin'' i (?up q i ?b ?e) w else ?up q i ?b ?e w)"
      by (intro keeps_if keeps_const; (erule g | erule u))
  qed
qed

text \<open>The parameters of the portal that run code of their own.\<close>

definition config_safe :: "('r host_scheme) admin_config \<Rightarrow> bool" where
  "config_safe ac \<longleftrightarrow> (\<forall>ic sp. sp = None \<or> sp \<in> Some ` set (ac_registry ac) \<longrightarrow> preserves admin_inv (ac_install ac ic sp)) \<and>
     (\<forall>uc. preserves admin_inv (ac_uninstall ac uc)) \<and> preserves admin_inv (reload ac)"

lemma admin_inv_portal [simp]:
  "admin_inv (w\<lparr>pt_throttle := th\<rparr>) = admin_inv w" "admin_inv (w\<lparr>pt_jobs := js\<rparr>) = admin_inv w"
  "admin_inv (s\<lparr>as_tasks := ts\<rparr>) = admin_inv s" "admin_inv (s\<lparr>as_next := n\<rparr>) = admin_inv s"
  "admin_inv (s\<lparr>as_log := l\<rparr>) = admin_inv s" "admin_inv (h\<lparr>hs_polls := p\<rparr>) = admin_inv h"
  by (simp_all add: admin_inv_def)

lemma admin_inv_log [simp]: "admin_inv (log_app_job ac ev job e w) = admin_inv w"
  by (simp add: log_app_job_def)

lemma admin_inv_start [simp]: "admin_inv (start_app_job ac a n t w) = admin_inv w"
  by (simp add: start_app_job_def Let_def)

lemma frame_admin_view: "frame w_db (admin_view ac sess)"
  unfolding admin_view_def by (intro preserves_intro)

lemma frame_tiles: "frame w_db (dashboard_tiles ac)"
  unfolding dashboard_tiles_def by (intro preserves_intro)

lemma frame_compose_file: "frame w_db (compose_file_of n)"
  unfolding compose_file_of_def by (intro preserves_intro)

interpretation adm: portal_invariant admin_inv
  by unfold_locales
    (auto simp: keeps_update_user keeps_delete_user
      intro: preserves_intro admin_inv_frame frame_admin_view frame_tiles frame_compose_file frame_load_app_paths frame_orch_ops)

lemma preserves_background:
  assumes "preserves P m" "\<And>w p. P (w\<lparr>hs_polls := p\<rparr>) = P w"
  shows "preserves P (in_background m)"
  using assms(2) preserves_pair [OF assms(1)]
  unfolding preserves_def in_background_def by (auto split: prod.split)

lemma spec_registered: "get_spec n (ac_registry ac) = None \<or> get_spec n (ac_registry ac) \<in> Some ` set (ac_registry ac)"
  by (cases "get_spec n (ac_registry ac)") (auto simp: get_spec_def dest: row_by_Some)

text \<open>For a predicate that every operation on the accounts keeps, the two need no argument of their own.\<close>

lemma role_handlers:
  assumes lookup: "\<And>r. preserves P (session_lookup r)" and email: "\<And>i e. preserves P (users_set_email i e)"
    and adm: "\<And>i b. preserves P (users_set_admin i b)" and del: "\<And>i. preserves P (users_delete i)"
    and rem: "\<And>i. preserves P (can_remove_admin i)"
  shows "keeps P (post_update_user ac q)" "keeps P (post_delete_user ac q)"
proof -
  have guard: "keeps P (guard_last_admin r m i f)" if "keeps P f" for r m i f
    unfolding guard_last_admin_def
    using that by (intro keeps_try_op rem) (simp add: keeps_def)
  show "keeps P (post_delete_user ac q)"
    unfolding post_delete_user_def
    by (intro keeps_admin_post lookup keeps_user_id keeps_if keeps_const guard keeps_try_op del)
  have up: "keeps P (try_op r m1 (users_set_email i e) (\<lambda>_. try_op r m2 (users_set_admin i b) (\<lambda>_ w. (x, w))))" for r m1 m2 i e b x
    by (intro keeps_try_op keeps_const email adm)
  show "keeps P (post_update_user ac q)"
    unfolding post_update_user_def Let_def
    by (intro keeps_admin_post lookup keeps_form keeps_user_id keeps_if keeps_const guard up)
qed

text \<open>A job keeps what its task keeps, if the list of jobs, the tasks and the log do not matter.\<close>

lemma keeps_run_job:
  assumes task: "preserves P (run_task ac task)"
    and same: "\<And>w ts. P (w\<lparr>as_tasks := ts\<rparr>) = P w" "\<And>w js. P (w\<lparr>pt_jobs := js\<rparr>) = P w"
      "\<And>w p. P (w\<lparr>hs_polls := p\<rparr>) = P w" "\<And>w ev j e. P (log_app_job ac ev j e w) = P w"
    and w: "P w"
  shows "P (run_job ac ref job task w)"
proof -
  let ?w0 = "w\<lparr>as_tasks := filter (\<lambda>t. fst t \<noteq> ref) (as_tasks w)\<rparr>"
  obtain q w1 where r: "in_background (run_task ac task) ?w0 = (q, w1)" by fastforce
  have "P w1" using preserves_pair [OF preserves_background [OF task same(3)] r] w same(1) by simp
  then show ?thesis using r same by (cases q) (simp_all add: run_job_def Let_def)
qed

lemma keeps_job:
  assumes "config_safe ac" "admin_inv w"
  shows "admin_inv (run_job ac ref job task w)"
proof (rule keeps_run_job [where P = admin_inv])
  have ins: "preserves admin_inv (ac_install ac ic (get_spec n (ac_registry ac)))" for ic n
    using assms(1) spec_registered [of n ac] unfolding config_safe_def by blast
  show "preserves admin_inv (run_task ac task)"
    using assms(1) unfolding config_safe_def run_task_def by (cases task) (auto intro!: preserves_intro ins)
qed (simp_all add: assms(2))

subsection \<open>Steps of the portal\<close>

text \<open>The world may change in every way that leaves the database and the jobs alone: time passes, randomness comes,
  statements fail, docker and the network answer.\<close>

inductive portal_step :: "('r admin_state_scheme) admin_config \<Rightarrow> 'r admin_state_scheme \<Rightarrow> 'r admin_state_scheme \<Rightarrow> bool" for ac where
  request: "portal_step ac w (snd (mount ac meth r w))"
| job: "(ref, job, task) \<in> set (as_tasks w) \<Longrightarrow> portal_step ac w (run_job ac ref job task w)"
| outside: "w_db w' = w_db w \<Longrightarrow> pt_jobs w' = pt_jobs w \<Longrightarrow> as_tasks w' = as_tasks w \<Longrightarrow> as_next w' = as_next w \<Longrightarrow>
    portal_step ac w w'"

inductive_cases portal_step_elim: "portal_step ac w w'"

lemma step_keeps_admin: "portal_step ac w w' \<Longrightarrow> config_safe ac \<Longrightarrow> admin_inv w \<Longrightarrow> admin_inv w'"
  by (erule portal_step_elim) (auto simp: keepsD [OF adm.keeps_mount] keeps_job admin_inv_def [of w'] admin_inv_def [of w])

lemma run_keeps_admin: "(portal_step ac)\<^sup>*\<^sup>* w0 w \<Longrightarrow> config_safe ac \<Longrightarrow> admin_inv w0 \<Longrightarrow> admin_inv w"
  by (induction rule: rtranclp_induct) (auto intro: step_keeps_admin)

text \<open>C8: There is always an admin: from a state with one, whatever sequence of requests, background jobs and events of
  the outside world follows, some account is an admin's, so that nobody is ever locked out of the portal by its
  own doing. Requests are taken one after the other; the install and uninstall operations and the reload must
  keep the accounts, as the real ones do.\<close>

theorem always_an_admin:
  assumes "(portal_step ac)\<^sup>*\<^sup>* w0 w" "config_safe ac" "db_ok (w_db w0)" "has_admin (w_db w0)"
  shows "has_admin (w_db w)"
  using run_keeps_admin [OF assms(1,2)] assms(3,4) by (simp add: admin_inv_def)

text \<open>The operations the portal is built with are such.\<close>

lemma install_keeps:
  assumes "\<And>w w'. w_db w' = w_db w \<Longrightarrow> P w' = P w" "\<And>ic. preserves P (provision_client bc sp ic)"
    and "\<And>n s. preserves P (save_settings n s)"
    and "\<And>f ic. sp_pre_up sp = Some f \<or> sp_post_up sp = Some f \<Longrightarrow> preserves P (f ic)"
  shows "preserves P (install_app bc ip6 ico (Some sp))"
proof -
  have db: "preserves P m" if "frame w_db m" for m :: "('a host_scheme, 'x) run"
    unfolding preserves_def
  proof (intro allI impI)
    fix w assume "P w"
    moreover have "w_db (snd (m w)) = w_db w" using that by (simp add: frame_def)
    ultimately show "P (snd (m w))" using assms(1) by blast
  qed
  have "preserves P (run_hook what (sp_pre_up sp) ic)" "preserves P (run_hook what (sp_post_up sp) ic)" for what ic
    using assms(4) by (auto simp: run_hook_def split: option.split intro!: preserves_intro)
  moreover have "preserves P (orch_up o1 f)" for o1 f by (intro db preserves_intro)
  ultimately have st: "preserves P (start_app sp ic)" for ic
    unfolding start_app_def by (intro preserves_intro) auto
  have rc: "preserves P (render_compose sp ic)" "preserves P (mkdir_all p)" for ic p
    unfolding render_compose_def by (intro db preserves_intro)+
  have sel: "preserves P (select_backend_port p r x)" "preserves P (draw :: ('a host_scheme, string) run)" for p r x
    by (intro db preserves_intro; simp)+
  have rs: "preserves P (resolve_context ip6 sp ic)" for ic
    unfolding resolve_context_def by (intro preserves_intro sel)
  show ?thesis
    unfolding install_app_def by (cases ico) (auto intro!: preserves_intro st rc rs assms(2,3))
qed

lemma install_keeps_admin:
  assumes "\<And>f ic. sp_pre_up sp = Some f \<or> sp_post_up sp = Some f \<Longrightarrow> preserves admin_inv (f ic)"
  shows "preserves admin_inv (install_app bc ip6 ico (Some sp))"
proof (rule install_keeps [where P = admin_inv])
  have "preserves admin_inv (hash_password bc pw)" for pw by (intro admin_inv_frame preserves_intro)
  then show "preserves admin_inv (provision_client bc sp ic)" for ic
    unfolding provision_client_def provision_def by (intro preserves_intro)
  show "preserves admin_inv (save_settings n s)" for n s
    unfolding save_settings_def by (intro preserves_intro)
  show "preserves admin_inv (f ic)" if "sp_pre_up sp = Some f \<or> sp_post_up sp = Some f" for f ic
    by (rule assms [OF that])
qed (simp add: admin_inv_def)

lemma install_keeps_world:
  assumes "\<And>f ic. sp_pre_up sp = Some f \<or> sp_post_up sp = Some f \<Longrightarrow> preserves world_ok (f ic)"
  shows "preserves world_ok (install_app bc ip6 ico (Some sp))"
proof (rule install_keeps [where P = world_ok])
  show "preserves world_ok (provision_client bc sp ic)" for ic
    unfolding provision_client_def by (intro preserves_intro)
  show "preserves world_ok (save_settings n s)" for n s
    unfolding save_settings_def by (intro preserves_intro)
  show "preserves world_ok (f ic)" if "sp_pre_up sp = Some f \<or> sp_post_up sp = Some f" for f ic
    by (rule assms [OF that])
qed (simp add: world_ok_def)

lemma uninstall_keeps_admin: "preserves admin_inv (uninstall_app uco)"
proof -
  have b: "preserves admin_inv (bring_down uc)" "preserves admin_inv (remove_files uc)" for uc
    by (intro admin_inv_frame preserves_intro)+
  have "preserves admin_inv (cleanup_client n)" for n
    unfolding cleanup_client_def delete_client_def by (intro preserves_intro)
  then have "preserves admin_inv (forget_app uc e)" for uc e
    unfolding forget_app_def by (intro preserves_intro b)
  then show ?thesis unfolding uninstall_app_def by (intro preserves_intro b)
qed

lemma new_portal_safe:
  assumes "\<And>sp f ic. sp \<in> set reg \<Longrightarrow> sp_pre_up sp = Some f \<or> sp_post_up sp = Some f \<Longrightarrow> preserves admin_inv (f ic)"
  shows "config_safe (new_portal p orch reg)"
proof -
  have "preserves admin_inv (install_app bc ip6 ico None)" for bc ip6 ico
    unfolding install_app_def by (cases ico) (auto intro!: preserves_intro)
  moreover have "preserves admin_inv (install_app bc ip6 ico (Some sp))" if "sp \<in> set reg" for bc ip6 ico sp
    by (rule install_keeps_admin) (rule assms [OF that])
  ultimately show ?thesis
    by (auto simp: config_safe_def new_portal_def reload_def uninstall_keeps_admin intro: preserves_intro)
qed

lemma sample_config_safe: "config_safe sample_admin_config"
proof -
  have "config_safe (new_portal p orch [] :: admin_state admin_config)" for p orch by (rule new_portal_safe) simp
  then show ?thesis unfolding sample_admin_config_def by (simp add: config_safe_def reload_def)
qed

text \<open>Ana deletes Bob, then tries to delete herself.\<close>

definition sample_run :: "admin_state" where
  "sample_run =
     (let delete = \<lambda>i. mount sample_admin_config ''POST'' (sample_admin_request ''bb'' (''/portal/admin/users/'' @ i @ ''/delete'') [])
      in snd (delete ''1'' (snd (delete ''2'' sample_admin_state))))"

lemma always_an_admin_witness:
  "has_admin (w_db sample_run) \<and> map usr_name (db_users (w_db sample_run)) = [''ana'']"
proof -
  have st: "portal_step sample_admin_config w (snd (mount sample_admin_config m q w))" for w m q by (rule portal_step.request)
  have "(portal_step sample_admin_config)\<^sup>*\<^sup>* sample_admin_state sample_run"
    unfolding sample_run_def Let_def by (meson st r_into_rtranclp rtranclp.rtrancl_into_rtrancl)
  moreover have "db_ok (w_db sample_admin_state)" using sample_admin_ok(1) by (simp add: world_ok_def)
  moreover have "has_admin (w_db sample_admin_state)"
    by (simp add: has_admin_def sample_admin_state_def sample_admin_db_def sample_row_def)
  moreover have "map usr_name (db_users (w_db sample_run)) = [''ana'']" by code_simp
  ultimately show ?thesis using always_an_admin [OF _ sample_config_safe] by blast
qed

text \<open>The check and the removal are two statements: two admins who demote each other at the same time both pass the
  check, and none is left.\<close>

definition two_admins :: admin_state where
  "two_admins = sample_admin_state\<lparr>w_db := sample_admin_db\<lparr>db_users := [sample_row 1 ''ana'' 1, sample_row 2 ''bob'' 1]\<rparr>\<rparr>"

lemma concurrent_demotion:
  "fst (can_remove_admin 1 two_admins) = Inr True \<and> fst (can_remove_admin 2 two_admins) = Inr True \<and>
   fst (users_set_admin 1 False two_admins) = Inr () \<and>
   fst (users_set_admin 2 False (snd (users_set_admin 1 False two_admins))) = Inr () \<and>
   filter (\<lambda>u. usr_admin u \<noteq> 0) (db_users (w_db (snd (users_set_admin 2 False (snd (users_set_admin 1 False two_admins)))))) = []"
  by code_simp

subsection \<open>The jobs\<close>

text \<open>At most twenty are kept, no two under one pointer, and a job in the list says that it is running exactly if its
  task has not ended.\<close>

definition jobs_inv :: "'r admin_state_scheme \<Rightarrow> bool" where
  "jobs_inv w \<longleftrightarrow> length (pt_jobs w) \<le> 20 \<and> distinct (map fst (pt_jobs w)) \<and> distinct (map fst (as_tasks w)) \<and>
     list_all (\<lambda>t. fst t < as_next w) (as_tasks w) \<and>
     list_all (\<lambda>(n, j). n < as_next w \<and> (jb_status j = JobRunning \<longleftrightarrow> n \<in> fst ` set (as_tasks w))) (pt_jobs w)"

definition job_state :: "'r admin_state_scheme \<Rightarrow> (nat \<times> app_job) list \<times> (nat \<times> app_job \<times> app_task) list \<times> nat" where
  "job_state w = (pt_jobs w, as_tasks w, as_next w)"

lemma job_state_simps [simp]:
  "job_state (w\<lparr>w_db := d\<rparr>) = job_state w" "job_state (w\<lparr>w_faults := fs\<rparr>) = job_state w" "job_state (w\<lparr>w_rand := rs\<rparr>) = job_state w"
  "job_state (w\<lparr>hs_fs := h1\<rparr>) = job_state w" "job_state (w\<lparr>hs_disk_faults := h2\<rparr>) = job_state w"
  "job_state (w\<lparr>hs_cmds := h3\<rparr>) = job_state w" "job_state (w\<lparr>hs_outs := h4\<rparr>) = job_state w"
  "job_state (w\<lparr>hs_polls := h5\<rparr>) = job_state w" "job_state (w\<lparr>hs_net := h6\<rparr>) = job_state w"
  "job_state (w\<lparr>hs_reqs := h7\<rparr>) = job_state w" "job_state (w\<lparr>pt_throttle := h8\<rparr>) = job_state w"
  by (simp_all add: job_state_def)

lemma jobs_inv_state: "job_state w' = job_state w \<Longrightarrow> jobs_inv w' = jobs_inv w"
  by (simp add: job_state_def jobs_inv_def)

lemma jobs_inv_frame: "frame job_state m \<Longrightarrow> preserves jobs_inv m"
  using jobs_inv_state by (auto simp: frame_def preserves_def)

interpretation job_view: portal_view job_state
  by unfold_locales simp_all

lemma start_keeps_jobs:
  assumes "jobs_inv w"
  shows "jobs_inv (start_app_job ac act n task w)"
proof -
  have new: "as_next w \<notin> fst ` set (pt_jobs w)" "as_next w \<notin> fst ` set (as_tasks w)"
    using assms by (force simp: jobs_inv_def list_all_iff)+
  have "set (take 19 (pt_jobs w)) \<subseteq> set (pt_jobs w)" by (rule set_take_subset)
  then show ?thesis
    using assms new
    by (auto simp: jobs_inv_def start_app_job_def Let_def log_app_job_def list_all_iff take_Cons' image_iff
        distinct_take take_map simp flip: take_map dest: in_set_takeD) (force dest: in_set_takeD)+
qed

lemma jobs_role_handlers: "keeps jobs_inv (post_update_user ac q)" "keeps jobs_inv (post_delete_user ac q)"
  by (intro role_handlers jobs_inv_frame preserves_intro)+

interpretation jobs: portal_invariant jobs_inv
proof unfold_locales
  show "jobs_inv (w\<lparr>pt_throttle := th\<rparr>) = jobs_inv w" for w :: "'a admin_state_scheme" and th
    by (rule jobs_inv_state) simp
qed (auto simp: jobs_role_handlers start_keeps_jobs intro: jobs_inv_frame preserves_intro)

lemma jobs_inv_log [simp]: "jobs_inv (log_app_job ac ev j e w) = jobs_inv w"
  by (rule jobs_inv_state) (simp add: log_app_job_def job_state_def)

definition config_leaves_jobs :: "('r admin_state_scheme) admin_config \<Rightarrow> bool" where
  "config_leaves_jobs ac \<longleftrightarrow> (\<forall>ic sp. sp = None \<or> sp \<in> Some ` set (ac_registry ac) \<longrightarrow>
     frame job_state (ac_install ac ic sp)) \<and> (\<forall>uc. frame job_state (ac_uninstall ac uc)) \<and>
     frame job_state (reload ac)"

lemma job_ends:
  assumes "config_leaves_jobs ac" "jobs_inv w" "(ref, job, task) \<in> set (as_tasks w)"
  shows "jobs_inv (run_job ac ref job task w)"
proof -
  let ?w0 = "w\<lparr>as_tasks := filter (\<lambda>t. fst t \<noteq> ref) (as_tasks w)\<rparr>"
  have ins: "frame job_state (ac_install ac ic (get_spec n (ac_registry ac)))" for ic n
    using assms(1) spec_registered [of n ac] unfolding config_leaves_jobs_def by blast
  have "frame job_state (run_task ac task)"
    using assms(1) unfolding config_leaves_jobs_def run_task_def by (cases task) (auto intro!: preserves_intro ins)
  then have f: "frame job_state (in_background (run_task ac task))"
    unfolding frame_def in_background_def by (auto split: prod.split) (metis job_state_simps(8) snd_conv)
  obtain q w1 where r: "in_background (run_task ac task) ?w0 = (q, w1)" by fastforce
  have s: "pt_jobs w1 = pt_jobs w" "as_tasks w1 = filter (\<lambda>t. fst t \<noteq> ref) (as_tasks w)" "as_next w1 = as_next w"
    using frame_pair [OF f r] by (simp_all add: job_state_def)
  have st: "jb_status (finish_job t q j) \<noteq> JobRunning" for t j by (cases q) (simp_all add: finish_job_def)
  have "jobs_inv (w1\<lparr>pt_jobs := map (\<lambda>(n, j). (n, if n = ref then finish_job (w_clock w1) q j else j)) (pt_jobs w1)\<rparr>)"
    using assms(2) st
    by (auto simp: jobs_inv_def s list_all_iff comp_def case_prod_beta image_iff distinct_map inj_on_def split: if_splits)
      (blast, metis fst_conv)
  then show ?thesis
    unfolding run_job_def r prod.case Let_def by (simp split: sum.split)
qed

lemma step_keeps_jobs:
  assumes "portal_step ac w w'" "config_leaves_jobs ac" "jobs_inv w"
  shows "jobs_inv w'"
  using assms(1)
proof (rule portal_step_elim)
  fix meth r assume "w' = snd (mount ac meth r w)"
  then show ?thesis using keepsD [OF jobs.keeps_mount assms(3)] by simp
next
  fix ref job task assume "w' = run_job ac ref job task w" "(ref, job, task) \<in> set (as_tasks w)"
  then show ?thesis using job_ends [OF assms(2,3)] by simp
qed (use assms(3) in \<open>simp add: jobs_inv_def\<close>)

text \<open>C9: The list of jobs tells the truth: from a portal that has just started, whatever happens, the list holds at most
  twenty jobs, no two under one pointer, and a job in it says that it is running exactly as long as its task has not
  ended, since the end of the task, by whatever result, sets the status of its job and of no other. (The operations
  of the portal's configuration, to install, remove and reload, leave the list alone, as the real ones do.)\<close>

theorem jobs_tell_the_truth:
  assumes "(portal_step ac)\<^sup>*\<^sup>* w0 w" "config_leaves_jobs ac" "pt_jobs w0 = []" "as_tasks w0 = []"
  shows "length (recent_jobs w) \<le> 20 \<and> distinct (map fst (pt_jobs w)) \<and>
    list_all (\<lambda>(n, j). jb_status j = JobRunning \<longleftrightarrow> n \<in> fst ` set (as_tasks w)) (pt_jobs w)"
proof -
  have "jobs_inv w0" using assms(3,4) by (simp add: jobs_inv_def)
  from assms(1) this have "jobs_inv w"
    by (induction rule: rtranclp_induct) (auto intro: step_keeps_jobs assms(2))
  then show ?thesis by (auto simp: jobs_inv_def recent_jobs_def list_all_iff)
qed

text \<open>The operations the portal is built with leave the jobs alone.\<close>

lemma new_portal_leaves_jobs:
  assumes "\<And>sp f ic. sp \<in> set reg \<Longrightarrow> sp_pre_up sp = Some f \<or> sp_post_up sp = Some f \<Longrightarrow> frame job_state (f ic)"
  shows "config_leaves_jobs (new_portal p orch reg)"
proof -
  have "frame job_state (install_app bc ip6 ico None)" for bc ip6 ico
    unfolding install_without_spec by (intro preserves_intro)
  moreover have "frame job_state (install_app bc ip6 ico (Some sp))" if "sp \<in> set reg" for bc ip6 ico sp
    by (rule job_view.frame_install) (rule assms [OF that])
  ultimately show ?thesis
    by (auto simp: config_leaves_jobs_def new_portal_def reload_def job_view.frame_uninstall intro: preserves_intro)
qed

text \<open>A registry with one app: Ana installs it, the job runs and fails since docker does not answer.\<close>

definition sample_job_config :: "admin_state admin_config" where
  "sample_job_config = sample_admin_config\<lparr>ac_range := ''9-12'', ac_registry := [\<lparr>sp_name = ''blog'', sp_display = ''Blog'', sp_description = [], sp_icon = [],
     sp_subdomain = ''blog'', sp_port = 9, sp_preserve = True, sp_oidc = False, sp_gate = True, sp_redirects = None,
     sp_template = ''port: {{.BackendPort}}'', sp_pre_up = None, sp_post_up = None\<rparr>]\<rparr>"

definition sample_queued :: admin_state where
  "sample_queued = snd (mount sample_job_config ''POST'' (sample_admin_request ''bb'' ''/portal/admin/apps'' [(''name'', ''blog'')])
     (sample_admin_state\<lparr>hs_outs := [(False, ''no daemon'')]\<rparr>))"

definition sample_ended :: admin_state where
  "sample_ended = (case as_tasks sample_queued of (n, j, t) # _ \<Rightarrow> run_job sample_job_config n j t sample_queued | [] \<Rightarrow> sample_queued)"

lemma jobs_tell_the_truth_witness:
  "map jb_status (recent_jobs sample_queued) = [JobRunning] \<and> map jb_status (recent_jobs sample_ended) = [JobError] \<and>
   list_all (\<lambda>(n, j). jb_status j = JobRunning \<longleftrightarrow> n \<in> fst ` set (as_tasks sample_ended)) (pt_jobs sample_ended)"
proof -
  let ?w0 = "sample_admin_state\<lparr>hs_outs := [(False, ''no daemon'')]\<rparr>"
  have ac: "ac_install sample_job_config = install_app sample_bcrypt (\<lambda>_. None)" "ac_uninstall sample_job_config = uninstall_app"
      "ac_reload sample_job_config = None"
    by (simp_all add: sample_job_config_def sample_admin_config_def new_portal_def)
  have reg: "sp \<in> set (ac_registry sample_job_config) \<Longrightarrow> sp_pre_up sp = None \<and> sp_post_up sp = None" for sp
    by (simp add: sample_job_config_def)
  have "frame job_state (install_app bc ip6 ic (Some sp))" if "sp \<in> set (ac_registry sample_job_config)" for bc ip6 ic sp
    by (rule job_view.frame_install) (simp add: reg [OF that])
  then have c: "config_leaves_jobs sample_job_config"
    by (auto simp: config_leaves_jobs_def ac reload_def job_view.frame_uninstall install_without_spec intro: preserves_intro)
  obtain n j t ts where t: "as_tasks sample_queued = (n, j, t) # ts"
  proof (cases "as_tasks sample_queued")
    case Nil
    have "length (as_tasks sample_queued) = 1" by code_simp
    then show ?thesis using Nil by simp
  qed (metis prod_cases3)
  have "portal_step sample_job_config ?w0 sample_queued"
    unfolding sample_queued_def by (rule portal_step.request)
  moreover have "portal_step sample_job_config sample_queued sample_ended"
    unfolding sample_ended_def t by (simp add: portal_step.job t)
  ultimately have "(portal_step sample_job_config)\<^sup>*\<^sup>* ?w0 sample_ended"
    by (rule rtranclp.rtrancl_into_rtrancl [OF r_into_rtranclp])
  moreover have "pt_jobs ?w0 = []" "as_tasks ?w0 = []" by (simp_all add: sample_admin_state_def)
  ultimately have "list_all (\<lambda>(n, j). jb_status j = JobRunning \<longleftrightarrow> n \<in> fst ` set (as_tasks sample_ended)) (pt_jobs sample_ended)"
    using jobs_tell_the_truth [OF _ c] by blast
  moreover have "map jb_status (recent_jobs sample_queued) = [JobRunning]" by code_simp
  moreover have "map jb_status (recent_jobs sample_ended) = [JobError]" by code_simp
  ultimately show ?thesis by blast
qed

end
