(* ===== verification/Nass_Config.thy ===== *)
theory Nass_Config
  imports Host_World
begin

text \<open>
  The configuration file (\<^verbatim>\<open>internal/config/config.go\<close>): the sections as records, the defaults, loading with its
  resolution of relative paths and its checks, and writing. The TOML library is two arguments, in the
  environment of the process: \<open>ev_decode text c\<close> is \<open>c\<close> with what the file sets, \<open>ev_encode c\<close> the text of
  \<open>c\<close>. A process also has a working directory, \<open>ev_cwd\<close>, against which a relative file name is opened.
\<close>

record server_section =
  cs_https_addr :: string
  cs_http_addr :: string
  cs_base_host :: string

record tls_section =
  ct_cert :: string
  ct_key :: string

record db_section =
  cd_path :: string

record oidc_section =
  ci_issuer :: string
  ci_subdomain :: string
  ci_key :: string
  ci_crypto_key :: string

record portal_section =
  cp_title :: string
  cp_subdomain :: string

record orch_section =
  co_data_root :: string
  co_compose_root :: string
  co_docker :: string
  co_range :: string

record config =
  cf_server :: server_section
  cf_tls :: tls_section
  cf_db :: db_section
  cf_oidc :: oidc_section
  cf_portal :: portal_section
  cf_orch :: orch_section
  cf_path :: string

record environment =
  ev_cwd :: "error + string"
  ev_decode :: "string \<Rightarrow> config \<Rightarrow> error + config"
  ev_encode :: "config \<Rightarrow> string"

definition default_config :: config where
  "default_config = \<lparr>
     cf_server = \<lparr>cs_https_addr = '':443'', cs_http_addr = '':80'', cs_base_host = []\<rparr>,
     cf_tls = \<lparr>ct_cert = [], ct_key = []\<rparr>,
     cf_db = \<lparr>cd_path = ''nass.db''\<rparr>,
     cf_oidc = \<lparr>ci_issuer = [], ci_subdomain = ''auth'', ci_key = ''oidc.key'', ci_crypto_key = ''oidc-crypto.key''\<rparr>,
     cf_portal = \<lparr>cp_title = ''nass'', cp_subdomain = []\<rparr>,
     cf_orch = \<lparr>co_data_root = [], co_compose_root = [], co_docker = ''docker compose'', co_range = ''20000-29999''\<rparr>,
     cf_path = []\<rparr>"

subsection \<open>Paths\<close>

text \<open>\<open>filepath.Abs\<close>, and the file that the operating system opens under a name.\<close>

definition path_abs :: "error + string \<Rightarrow> string \<Rightarrow> error + string" where
  "path_abs cwd p = (if is_abs p then Inr (path_clean p)
     else case cwd of Inl e \<Rightarrow> Inl e | Inr d \<Rightarrow> Inr (path_join [d, p]))"

definition os_path :: "environment \<Rightarrow> string \<Rightarrow> string" where
  "os_path ev p = (case path_abs (ev_cwd ev) p of Inl e \<Rightarrow> p | Inr q \<Rightarrow> q)"

definition rel_path :: "string \<Rightarrow> string \<Rightarrow> string" where
  "rel_path base p = (if p \<noteq> [] \<and> \<not> is_abs p then path_join [base, p] else p)"

definition resolve_paths :: "environment \<Rightarrow> config \<Rightarrow> error + config" where
  "resolve_paths ev c = (case path_abs (ev_cwd ev) (path_dir (cf_path c)) of
       Inl e \<Rightarrow> Inl e
     | Inr base \<Rightarrow> Inr (c\<lparr>
         cf_db := (cf_db c)\<lparr>cd_path := rel_path base (cd_path (cf_db c))\<rparr>,
         cf_oidc := (cf_oidc c)\<lparr>ci_key := rel_path base (ci_key (cf_oidc c)),
                               ci_crypto_key := rel_path base (ci_crypto_key (cf_oidc c))\<rparr>,
         cf_tls := \<lparr>ct_cert = rel_path base (ct_cert (cf_tls c)), ct_key = rel_path base (ct_key (cf_tls c))\<rparr>,
         cf_orch := (cf_orch c)\<lparr>co_data_root := rel_path base (co_data_root (cf_orch c)),
                               co_compose_root := rel_path base (co_compose_root (cf_orch c))\<rparr>\<rparr>))"

definition validate_config :: "config \<Rightarrow> error + unit" where
  "validate_config c =
     (if cs_base_host (cf_server c) = [] then Inl (Msg ''server.base_host is required'')
      else if cd_path (cf_db c) = [] then Inl (Msg ''db.path is required'')
      else Inr ())"

definition derive_issuer :: "config \<Rightarrow> config" where
  "derive_issuer c =
     (if ci_issuer (cf_oidc c) = [] \<and> cs_base_host (cf_server c) \<noteq> []
      then c\<lparr>cf_oidc := (cf_oidc c)\<lparr>ci_issuer := ''https://'' @ ci_subdomain (cf_oidc c) @ ''.'' @
        cs_base_host (cf_server c)\<rparr>\<rparr>
      else c)"

definition config_load :: "environment \<Rightarrow> string \<Rightarrow> ('r host_scheme, config) run" where
  "config_load ev path =
     bindR (map_error (Wrap (''read '' @ path)) (bindR (read_file (os_path ev path)) (\<lambda>text.
       lift_result (ev_decode ev text default_config)))) (\<lambda>c0.
     bindR (lift_result (resolve_paths ev (c0\<lparr>cf_path := path\<rparr>))) (\<lambda>c.
     bindR (lift_result (validate_config c)) (\<lambda>_.
     ret (derive_issuer c))))"

subsection \<open>Writing\<close>

text \<open>\<open>os.OpenFile\<close> with \<open>O_CREATE|O_EXCL\<close>: a new empty file, in a directory that exists, under a name that is
  free; then the write, which may fail and leave the file empty.\<close>

definition create_excl :: "string \<Rightarrow> ('r host_scheme, unit) run" where
  "create_excl p0 = bindR disk_fault (\<lambda>_ w.
     let p = path_clean p0 in
     if map_of (hs_fs w) p \<noteq> None then (Inl (Msg (''open '' @ p @ '': file exists'')), w)
     else if path_dir p \<noteq> ''/'' \<and> map_of (hs_fs w) (path_dir p) \<noteq> Some FsDir then (Inl ErrNotExist, w)
     else (Inr (), w\<lparr>hs_fs := fs_put p (FsFile []) (hs_fs w)\<rparr>))"

definition fill_file :: "string \<Rightarrow> string \<Rightarrow> ('r host_scheme, unit) run" where
  "fill_file p s = bindR disk_fault (\<lambda>_. writing (\<lambda>w. w\<lparr>hs_fs := fs_put (path_clean p) (FsFile s) (hs_fs w)\<rparr>))"

definition write_new :: "string \<Rightarrow> string \<Rightarrow> ('r host_scheme, unit) run" where
  "write_new p s = bindR (create_excl p) (\<lambda>_. fill_file p s)"

text \<open>\<open>os.Stat\<close> with its error taken as absence.\<close>

definition stat_ok :: "string \<Rightarrow> ('r host_scheme, bool) run" where
  "stat_ok p = bindR (attempt (file_exists p)) (\<lambda>r. ret (r = Inr True))"

definition config_write :: "environment \<Rightarrow> string \<Rightarrow> config \<Rightarrow> ('r host_scheme, unit) run" where
  "config_write ev path c =
     bindR (stat_ok (os_path ev path)) (\<lambda>there.
     if there then throw (Msg (path @ '' already exists''))
     else write_new (os_path ev path) (ev_encode ev c))"

subsection \<open>What a loaded configuration guarantees\<close>

lemma is_abs_append: "a \<noteq> [] \<Longrightarrow> is_abs (a @ b) = is_abs a"
  by (cases a) (simp_all add: is_abs_def has_prefix_def)

lemma path_join_abs: "is_abs base \<Longrightarrow> is_abs (path_join [base, p])"
proof -
  assume b: "is_abs base"
  then have "base \<noteq> []" by (auto simp: is_abs_def has_prefix_def)
  then have "path_join [base, p] = path_clean (base @ ''/'' @ p)" by (simp add: path_join_def)
  then show ?thesis using b is_abs_append [OF \<open>base \<noteq> []\<close>] by (simp only: path_clean_abs)
qed

lemma path_abs_abs: "path_abs cwd p = Inr q \<Longrightarrow> (\<forall>d. cwd = Inr d \<longrightarrow> is_abs d) \<Longrightarrow> is_abs q"
  by (auto simp: path_abs_def path_clean_abs path_join_abs split: if_splits sum.splits)

definition path_set :: "string \<Rightarrow> bool" where
  "path_set p \<longleftrightarrow> p = [] \<or> is_abs p"

lemma rel_path_set: "is_abs base \<Longrightarrow> path_set (rel_path base p)"
  by (simp add: path_set_def rel_path_def path_join_abs)

lemma rel_path_nonempty: "is_abs base \<Longrightarrow> rel_path base p = [] \<longleftrightarrow> p = []"
  using path_join_abs [of base p] by (auto simp: rel_path_def is_abs_def has_prefix_def)

definition config_paths :: "config \<Rightarrow> string list" where
  "config_paths c = [cd_path (cf_db c), ci_key (cf_oidc c), ci_crypto_key (cf_oidc c), ct_cert (cf_tls c),
     ct_key (cf_tls c), co_data_root (cf_orch c), co_compose_root (cf_orch c)]"

lemma resolve_paths_Inr:
  assumes "resolve_paths ev c = Inr c'" "\<forall>d. ev_cwd ev = Inr d \<longrightarrow> is_abs d"
  shows "list_all path_set (config_paths c') \<and> (cd_path (cf_db c') = [] \<longleftrightarrow> cd_path (cf_db c) = []) \<and>
    cf_server c' = cf_server c \<and> cf_portal c' = cf_portal c \<and> ci_issuer (cf_oidc c') = ci_issuer (cf_oidc c) \<and>
    ci_subdomain (cf_oidc c') = ci_subdomain (cf_oidc c) \<and> co_docker (cf_orch c') = co_docker (cf_orch c) \<and>
    co_range (cf_orch c') = co_range (cf_orch c) \<and> cf_path c' = cf_path c"
proof -
  obtain base where b: "path_abs (ev_cwd ev) (path_dir (cf_path c)) = Inr base"
    using assms(1) by (auto simp: resolve_paths_def split: sum.splits)
  then have "is_abs base" using path_abs_abs assms(2) by blast
  then show ?thesis using assms(1) b
    by (auto simp: resolve_paths_def config_paths_def rel_path_set rel_path_nonempty)
qed

definition config_ok :: "config \<Rightarrow> bool" where
  "config_ok c \<longleftrightarrow> list_all path_set (config_paths c) \<and> is_abs (cd_path (cf_db c)) \<and> cs_base_host (cf_server c) \<noteq> [] \<and>
     ci_issuer (cf_oidc c) \<noteq> []"

lemma derive_issuer_fields [simp]:
  "cf_server (derive_issuer c) = cf_server c" "cf_tls (derive_issuer c) = cf_tls c" "cf_db (derive_issuer c) = cf_db c"
  "cf_portal (derive_issuer c) = cf_portal c" "cf_orch (derive_issuer c) = cf_orch c" "cf_path (derive_issuer c) = cf_path c"
  "config_paths (derive_issuer c) = config_paths c" "ci_subdomain (cf_oidc (derive_issuer c)) = ci_subdomain (cf_oidc c)"
  by (simp_all add: derive_issuer_def config_paths_def)

lemma derive_issuer_set: "cs_base_host (cf_server c) \<noteq> [] \<Longrightarrow> ci_issuer (cf_oidc (derive_issuer c)) \<noteq> []"
  by (simp add: derive_issuer_def)

lemma frame_disk_fault_fs: "frame hs_fs disk_fault"
  by (auto simp: frame_def disk_fault_def split: list.splits bool.splits)

lemma frame_read_fs: "frame hs_fs (read_file p)"
  unfolding read_file_def
  by (intro frame_bindR frame_disk_fault_fs) (auto simp: frame_def split: option.splits fs_node.splits)

text \<open>C35: A configuration that loads is well formed: the base host, the issuer and the path of the database are
  set, and every path in it (database, keys, certificate, data and compose roots) is empty or absolute,
  whatever the file said and wherever the process was started. A load reads one file and changes nothing.\<close>

theorem loaded_config_ok:
  assumes "config_load ev path w = (Inr c, w')" "\<forall>d. ev_cwd ev = Inr d \<longrightarrow> is_abs d"
  shows "config_ok c \<and> cf_path c = path \<and> w_db w' = w_db w \<and> hs_fs w' = hs_fs w"
proof -
  obtain c0 c1 body where c: "read_file (os_path ev path) w = (Inr body, w')"
      "resolve_paths ev (c0\<lparr>cf_path := path\<rparr>) = Inr c1" "validate_config c1 = Inr ()" "c = derive_issuer c1"
    using assms(1) by (auto simp: config_load_def bindR_Inr_iff lift_result_run ret_run)
  have "w_db w' = w_db w" by (rule frame_pair [OF frame_files_db(3) c(1)])
  moreover have "hs_fs w' = hs_fs w"
    by (rule frame_pair [OF frame_read_fs c(1)])
  moreover have v: "cs_base_host (cf_server c1) \<noteq> []" "cd_path (cf_db c1) \<noteq> []"
    using c(3) by (auto simp: validate_config_def split: if_splits)
  moreover have "list_all path_set (config_paths c1)" "cf_path c1 = path"
    using resolve_paths_Inr [OF c(2) assms(2)] by simp_all
  moreover have "is_abs (cd_path (cf_db c1))" using calculation by (simp add: config_paths_def path_set_def)
  ultimately show ?thesis using derive_issuer_set [OF v(1)] unfolding c(4) by (simp add: config_ok_def)
qed

subsection \<open>Written, then loaded\<close>

definition files_kept :: "'r host_scheme \<Rightarrow> 'r host_scheme \<Rightarrow> bool" where
  "files_kept w w' \<longleftrightarrow> (\<forall>p n. map_of (hs_fs w) p = Some n \<longrightarrow> map_of (hs_fs w') p = Some n)"

lemma files_kept_refl: "hs_fs w' = hs_fs w \<Longrightarrow> files_kept w w'"
  by (simp add: files_kept_def)

lemma files_kept_trans: "files_kept w w1 \<Longrightarrow> files_kept w1 w2 \<Longrightarrow> files_kept w w2"
  by (simp add: files_kept_def)

lemma create_excl_Inr:
  assumes "create_excl p w = (Inr u, w')"
  shows "map_of (hs_fs w) (path_clean p) = None \<and> hs_fs w' = fs_put (path_clean p) (FsFile []) (hs_fs w)"
  using assms by (auto simp: create_excl_def bindR_Inr_iff Let_def dest!: disk_fault_cases split: if_splits)

lemma create_excl_Inl: "create_excl p w = (Inl e, w') \<Longrightarrow> hs_fs w' = hs_fs w"
  by (auto simp: create_excl_def bindR_Inl_iff Let_def dest!: disk_fault_cases split: if_splits)

lemma fill_file_run:
  assumes "fill_file p s w = (r, w')"
  shows "hs_fs w' = hs_fs w \<or> hs_fs w' = fs_put (path_clean p) (FsFile s) (hs_fs w)"
    and "r = Inr () \<Longrightarrow> hs_fs w' = fs_put (path_clean p) (FsFile s) (hs_fs w)"
  using assms by (cases r; auto simp: fill_file_def bindR_Inr_iff bindR_Inl_iff run_simps dest!: disk_fault_cases)+

lemma stat_ok_run: "stat_ok p w = (r, w') \<Longrightarrow> hs_fs w' = hs_fs w \<and> r \<noteq> Inl e"
  by (auto simp: stat_ok_def file_exists_def bindR_run attempt_run reading_run ret_run dest!: disk_fault_cases
      split: prod.splits sum.splits)

text \<open>A new file: what was there stays, whatever fails.\<close>

lemma new_file_keeps:
  assumes "write_new p s w = (r, w')"
  shows "files_kept w w'" "r = Inr u \<Longrightarrow> map_of (hs_fs w') (path_clean p) = Some (FsFile s)"
proof -
  obtain x w1 where x: "create_excl p w = (x, w1)" by fastforce
  consider e where "x = Inl e" "w' = w1" "r = Inl e" | "x = Inr ()" "fill_file p s w1 = (r, w')"
    using assms x by (cases x) (auto simp: write_new_def bindR_run)
  then show "files_kept w w'"
  proof cases
    case 1
    then show ?thesis using create_excl_Inl x files_kept_refl by metis
  next
    case 2
    then show ?thesis using create_excl_Inr [of p w "()" w1] x fill_file_run(1) [OF 2(2)]
      by (auto simp: files_kept_def)
  qed
  show "map_of (hs_fs w') (path_clean p) = Some (FsFile s)" if "r = Inr u"
    using that fill_file_run(2) [of p s w1 r w'] assms x by (cases x) (auto simp: write_new_def bindR_run)
qed

lemma config_write_keeps:
  assumes "config_write ev path c w = (r, w')"
  shows "files_kept w w'" "r = Inr u \<Longrightarrow> map_of (hs_fs w') (path_clean (os_path ev path)) = Some (FsFile (ev_encode ev c))"
proof -
  obtain b w1 where b: "stat_ok (os_path ev path) w = (b, w1)" by fastforce
  then have w1: "files_kept w w1" using stat_ok_run files_kept_refl by metis
  have cases': "(\<exists>e. r = Inl e \<and> w' = w1) \<or>
      write_new (os_path ev path) (ev_encode ev c) w1 = (r, w')"
    using assms b by (cases b) (auto simp: config_write_def bindR_run throw_run split: if_splits)
  then show "files_kept w w'" using w1 new_file_keeps(1) files_kept_trans by blast
  show "map_of (hs_fs w') (path_clean (os_path ev path)) = Some (FsFile (ev_encode ev c))" if "r = Inr u"
    using that cases' new_file_keeps(2) by blast
qed

lemma written_config_loads:
  assumes "config_write ev path c w = (Inr (), w1)" "ev_decode ev (ev_encode ev c) default_config = Inr c"
    and "ev_cwd ev = Inr d" "is_abs d" "hs_disk_faults w1 = []" "validate_config c = Inr ()"
  shows "\<exists>c'. config_load ev path w1 = (Inr c', w1) \<and> config_ok c' \<and> cf_path c' = path \<and>
    cf_server c' = cf_server c \<and> cf_portal c' = cf_portal c \<and> ci_subdomain (cf_oidc c') = ci_subdomain (cf_oidc c) \<and>
    ci_issuer (cf_oidc c') = (if ci_issuer (cf_oidc c) = []
      then ''https://'' @ ci_subdomain (cf_oidc c) @ ''.'' @ cs_base_host (cf_server c) else ci_issuer (cf_oidc c))"
proof -
  have r: "read_file (os_path ev path) w1 = (Inr (ev_encode ev c), w1)"
    using config_write_keeps(2) [OF assms(1) refl] assms(5) by (simp add: read_file_def run_simps run_eval)
  obtain base where "path_abs (ev_cwd ev) (path_dir path) = Inr base" using assms(3)
    by (cases "is_abs (path_dir path)") (simp_all add: path_abs_def)
  then obtain c1 where c1: "resolve_paths ev (c\<lparr>cf_path := path\<rparr>) = Inr c1" by (simp add: resolve_paths_def)
  have f: "list_all path_set (config_paths c1)" "cd_path (cf_db c1) = [] \<longleftrightarrow> cd_path (cf_db c) = []"
    "cf_server c1 = cf_server c" "cf_portal c1 = cf_portal c" "ci_issuer (cf_oidc c1) = ci_issuer (cf_oidc c)"
    "ci_subdomain (cf_oidc c1) = ci_subdomain (cf_oidc c)" "cf_path c1 = path"
    using resolve_paths_Inr [OF c1] assms(3,4) by simp_all
  have v: "validate_config c1 = Inr ()" "cs_base_host (cf_server c) \<noteq> []" "cd_path (cf_db c) \<noteq> []"
    using assms(6) f by (auto simp: validate_config_def split: if_splits)
  have "config_load ev path w1 = (Inr (derive_issuer c1), w1)"
    using r c1 v assms(2) by (simp add: config_load_def run_simps run_eval)
  moreover have "is_abs (cd_path (cf_db c1))" using f(1,2) v(3) by (simp add: config_paths_def path_set_def)
  then have "config_ok (derive_issuer c1)" using f v derive_issuer_set [of c1] by (simp add: config_ok_def)
  moreover have "ci_issuer (cf_oidc (derive_issuer c1)) = (if ci_issuer (cf_oidc c) = []
      then ''https://'' @ ci_subdomain (cf_oidc c) @ ''.'' @ cs_base_host (cf_server c) else ci_issuer (cf_oidc c))"
    using f v by (simp add: derive_issuer_def)
  ultimately show ?thesis using f by (intro exI [of _ "derive_issuer c1"] conjI) simp_all
qed

text \<open>C36: A configuration survives being written and read back, and writing never touches a path that was
  already there: whatever \<open>Write\<close> answers, every file and directory keeps its content. If it succeeded, the
  configuration was valid, the TOML library reads what it wrote and the disk does not fail, the file
  it left loads, with the same server, portal and title, the same issuer or the one derived
  from the base host, and every path resolved.\<close>

theorem config_roundtrip:
  assumes "config_write ev path c w = (r, w1)"
  shows "files_kept w w1 \<and>
    (r = Inr () \<and> ev_decode ev (ev_encode ev c) default_config = Inr c \<and> ev_cwd ev = Inr d \<and> is_abs d \<and>
     hs_disk_faults w1 = [] \<and> validate_config c = Inr () \<longrightarrow>
     (\<exists>c'. config_load ev path w1 = (Inr c', w1) \<and> config_ok c' \<and> cf_path c' = path \<and>
       cf_server c' = cf_server c \<and> cf_portal c' = cf_portal c \<and> ci_subdomain (cf_oidc c') = ci_subdomain (cf_oidc c) \<and>
       ci_issuer (cf_oidc c') = (if ci_issuer (cf_oidc c) = []
         then ''https://'' @ ci_subdomain (cf_oidc c) @ ''.'' @ cs_base_host (cf_server c) else ci_issuer (cf_oidc c))))"
  using config_write_keeps(1) [OF assms] written_config_loads [of ev path c w w1 d] assms by blast

subsection \<open>Witnesses\<close>

text \<open>A toy serialisation that keeps the base host only; the process runs in \<^verbatim>\<open>/etc/nass\<close>.\<close>

definition sample_env :: environment where
  "sample_env = \<lparr>ev_cwd = Inr ''/etc/nass'',
     ev_decode = (\<lambda>text c. Inr (c\<lparr>cf_server := (cf_server c)\<lparr>cs_base_host := text\<rparr>\<rparr>)),
     ev_encode = (\<lambda>c. cs_base_host (cf_server c))\<rparr>"

definition sample_config :: config where
  "sample_config = default_config\<lparr>cf_server := (cf_server default_config)\<lparr>cs_base_host := ''nas.example''\<rparr>\<rparr>"

definition sample_disk :: host where
  "sample_disk = \<lparr>w_db = empty_db, w_faults = [], w_clock = 0, w_rand = [], hs_fs = [(''/etc/nass'', FsDir)],
     hs_disk_faults = [], hs_cmds = [], hs_outs = [], hs_busy = {}, hs_polls = None, hs_net = [], hs_reqs = []\<rparr>"

lemma sample_write:
  "config_write sample_env ''nass.toml'' sample_config sample_disk =
     (Inr (), sample_disk\<lparr>hs_fs := [(''/etc/nass/nass.toml'', FsFile ''nas.example''), (''/etc/nass'', FsDir)]\<rparr>)"
proof -
  have e: "ev_encode sample_env sample_config = ''nas.example''" by (simp add: sample_env_def sample_config_def)
  have p: "os_path sample_env ''nass.toml'' = ''/etc/nass/nass.toml''" "path_clean ''/etc/nass/nass.toml'' = ''/etc/nass/nass.toml''"
    "path_dir ''/etc/nass/nass.toml'' = ''/etc/nass''" by code_simp+
  show ?thesis
    by (simp add: config_write_def p stat_ok_def file_exists_def write_new_def create_excl_def fill_file_def sample_disk_def run_simps run_eval
        fs_put_def Let_def e attempt_run)
qed

lemma config_roundtrip_witness:
  "\<exists>w1 c'. config_write sample_env ''nass.toml'' sample_config sample_disk = (Inr (), w1) \<and>
     config_load sample_env ''nass.toml'' w1 = (Inr c', w1) \<and> ci_issuer (cf_oidc c') = ''https://auth.nas.example''"
proof -
  let ?w1 = "sample_disk\<lparr>hs_fs := [(''/etc/nass/nass.toml'', FsFile ''nas.example''), (''/etc/nass'', FsDir)]\<rparr>"
  have "ev_decode sample_env (ev_encode sample_env sample_config) default_config = Inr sample_config"
    "ev_cwd sample_env = Inr ''/etc/nass''" "hs_disk_faults ?w1 = []"
    by (simp_all add: sample_env_def sample_config_def sample_disk_def)
  moreover have "is_abs ''/etc/nass''" "validate_config sample_config = Inr ()" by code_simp+
  moreover have "ci_issuer (cf_oidc sample_config) = []" "ci_subdomain (cf_oidc sample_config) = ''auth''"
    "cs_base_host (cf_server sample_config) = ''nas.example''"
    by (simp_all add: sample_config_def default_config_def)
  ultimately show ?thesis
    using conjunct2 [OF config_roundtrip [OF sample_write, of "''/etc/nass''"]] sample_write by fastforce
qed

lemma loaded_config_ok_witness:
  "\<exists>c (w1 :: host) w'. config_load sample_env ''nass.toml'' w1 = (Inr c, w') \<and> config_ok c"
proof -
  let ?w1 = "sample_disk\<lparr>hs_fs := [(''/etc/nass/nass.toml'', FsFile ''nas.example''), (''/etc/nass'', FsDir)]\<rparr>"
  have "\<not> (case config_load sample_env ''nass.toml'' ?w1 of (Inl _, _) \<Rightarrow> True | _ \<Rightarrow> False)" by code_simp
  then obtain c w' where c: "config_load sample_env ''nass.toml'' ?w1 = (Inr c, w')"
    by (cases "fst (config_load sample_env ''nass.toml'' ?w1)") (auto split: prod.splits sum.splits)
  have "\<forall>d. ev_cwd sample_env = Inr d \<longrightarrow> is_abs d" by (simp add: sample_env_def is_abs_def has_prefix_def)
  from loaded_config_ok [OF c this] c show ?thesis by blast
qed

end
