(* ===== verification/Oidc_Login.thy ===== *)
theory Oidc_Login
  imports Portal_Login Oidc_Flows
begin

text \<open>
  The login side of the OIDC provider (\<^verbatim>\<open>internal/auth/oidc/login.go\<close>, \<^verbatim>\<open>server.go\<close>, \<^verbatim>\<open>keys.go\<close>). The provider of the zitadel
  library (its routes, its callback URL, its issuer) is the record \<open>op_provider\<close>; what this package needs of
  the portal is the record \<open>portal_link\<close>, and what it relies on is the locale \<open>portal_contract\<close>, interpreted on
  the portal's own \<open>current_user_id\<close>. The parsers of \<^verbatim>\<open>encoding/pem\<close> and \<^verbatim>\<open>crypto/x509\<close> are the record
  \<open>key_parsers\<close>.
\<close>

record 'w portal_link =
  pk_current_user :: "request \<Rightarrow> ('w, int) run"
  pk_login_url :: "string \<Rightarrow> string"

record 'w oidc_login =
  lg_bcrypt :: bcrypt
  lg_callback :: "string \<Rightarrow> string"
  lg_issuer :: string
  lg_portal :: "'w portal_link option"
  lg_ip6 :: "string \<Rightarrow> string option"

definition new_login ::
  "bcrypt \<Rightarrow> (string \<Rightarrow> string) \<Rightarrow> string \<Rightarrow> (string \<Rightarrow> string option) \<Rightarrow> 'w oidc_login" where
  "new_login bc callback issuer ip6 =
     \<lparr>lg_bcrypt = bc, lg_callback = callback, lg_issuer = issuer, lg_portal = None, lg_ip6 = ip6\<rparr>"

definition set_portal :: "'w portal_link \<Rightarrow> 'w oidc_login \<Rightarrow> 'w oidc_login" where
  "set_portal pl l = l\<lparr>lg_portal := Some pl\<rparr>"

text \<open>The methods \<open>CurrentUserID\<close> and \<open>LoginURL\<close> of the portal, as the interface sees them.\<close>

definition portal_link_of :: "portal_config \<Rightarrow> ('r world_scheme) portal_link" where
  "portal_link_of p = \<lparr>pk_current_user = current_user_id, pk_login_url = login_url p\<rparr>"

definition oidc_login_page :: "string \<Rightarrow> string \<Rightarrow> response" where
  "oidc_login_page i msg = Page ''oidc/login.html'' [(''AuthRequestID'', i), (''Error'', msg)]"

definition oidc_same_origin :: "(string \<Rightarrow> string option) \<Rightarrow> request \<Rightarrow> bool" where
  "oidc_same_origin ip6 r =
     (let origin0 = hdr_get (rq_headers r) ''Origin'';
          origin = (if origin0 = [] then hdr_get (rq_headers r) ''Referer'' else origin0)
      in if origin = [] then True
         else (case url_parse ip6 origin of None \<Rightarrow> False | Some u \<Rightarrow> u_host u = rq_host r))"

text \<open>Where the browser is sent when nobody is signed in: the portal's login, with this page as its \<open>next\<close>.\<close>

definition login_here :: "string \<Rightarrow> string \<Rightarrow> string" where
  "login_here issuer i = trim_suffix issuer ''/'' @ ''/login?authRequestID='' @ query_escape i"

definition get_oidc_login :: "('r world_scheme) oidc_login \<Rightarrow> 'r world_scheme handler" where
  "get_oidc_login l r w =
     (let i = query_get (rq_query r) ''authRequestID'' in
      if i = [] then ((HttpError 400 ''missing authRequestID'', []), w)
      else (case lg_portal l of
          None \<Rightarrow> ((oidc_login_page i [], []), w)
        | Some pl \<Rightarrow>
            (case pk_current_user pl r w of
               (Inl e, w1) \<Rightarrow> ((HttpError 500 (error_text e), []), w1)
             | (Inr uid, w1) \<Rightarrow>
                 if uid \<noteq> 0 then
                   (case mark_auth_request_complete i uid w1 of
                      (Inl e, w2) \<Rightarrow> ((HttpError 500 (error_text e), []), w2)
                    | (Inr _, w2) \<Rightarrow> ((Redirect 302 (lg_callback l i), []), w2))
                 else ((Redirect 302 (pk_login_url pl (login_here (lg_issuer l) i)), []), w1))))"

definition post_oidc_login :: "('r portal_scheme) oidc_login \<Rightarrow> 'r portal_scheme handler" where
  "post_oidc_login l r w =
     (if \<not> oidc_same_origin (lg_ip6 l) r then ((HttpError 403 ''cross-origin request rejected'', []), w)
      else if rq_form r = None then ((HttpError 400 ''bad form'', []), w)
      else
        (let i = form_value r ''id''; username = form_value r ''username''; password = form_value r ''password'';
             ip = client_ip r; t = w_clock w
         in if i = [] then ((HttpError 400 ''missing id'', []), w)
         else (case th_allow t ip username (pt_throttle w) of (allowed, th1) \<Rightarrow>
           if \<not> allowed then
             (case th_retry_after t ip username th1 of (wait, th2) \<Rightarrow>
               ((page_header ''Retry-After'' (retry_after_text wait)
                   (oidc_login_page i ''too many attempts; try again later''), []), w\<lparr>pt_throttle := th2\<rparr>))
           else
             (case users_verify (lg_bcrypt l) username password (w\<lparr>pt_throttle := th1\<rparr>) of
                (Inl e, w1) \<Rightarrow>
                  ((oidc_login_page i ''invalid username or password'', []),
                   w1\<lparr>pt_throttle := th_failed t ip username (pt_throttle w1)\<rparr>)
              | (Inr u, w1) \<Rightarrow>
                  (case mark_auth_request_complete i (us_id u)
                          (w1\<lparr>pt_throttle := th_success ip username (pt_throttle w1)\<rparr>) of
                     (Inl e, w2) \<Rightarrow> ((HttpError 500 (error_text e), []), w2)
                   | (Inr _, w2) \<Rightarrow> ((Redirect 302 (lg_callback l i), []), w2))))))"

subsection \<open>Keys\<close>

text \<open>A private key is opaque but for what the code asks of it: its kind and its curve.\<close>

datatype private_key = RsaKey string | EcdsaKey string string | OtherKey string string

record key_parsers =
  kp_pem :: "string \<Rightarrow> string option"
  kp_pkcs8 :: "string \<Rightarrow> error + private_key"

definition supported_key :: "private_key \<Rightarrow> error + private_key" where
  "supported_key priv = (case priv of
       RsaKey k \<Rightarrow> Inr priv
     | EcdsaKey curve k \<Rightarrow>
         if curve \<noteq> ''P-256'' then Inl (Msg (''signing key: ECDSA curve '' @ curve @ '' not supported (use P-256)''))
         else Inr priv
     | OtherKey ty k \<Rightarrow> Inl (Msg (''signing key: unsupported type '' @ ty)))"

definition load_signing_key :: "key_parsers \<Rightarrow> string \<Rightarrow> ('r host_scheme, private_key) run" where
  "load_signing_key kp path =
     bindR (map_error (Wrap ''read signing key'') (read_file path)) (\<lambda>bytes.
     case kp_pem kp bytes of
       None \<Rightarrow> throw (Msg ''signing key: no PEM block found'')
     | Some block \<Rightarrow>
         bindR (map_error (Wrap ''parse signing key'') (lift_result (kp_pkcs8 kp block))) (\<lambda>priv.
         lift_result (supported_key priv)))"

definition load_crypto_key :: "string \<Rightarrow> ('r host_scheme, string) run" where
  "load_crypto_key path =
     bindR (map_error (Wrap ''read crypto key'') (read_file path)) (\<lambda>b.
     if length b \<noteq> 32 then throw (Msg (''crypto key: expected 32 bytes, got '' @ format_int (int (length b))))
     else ret b)"

record signing_key =
  sk_id :: string
  sk_key :: private_key
  sk_alg :: string

definition signature_alg :: "private_key \<Rightarrow> error + string" where
  "signature_alg k = (case k of
       RsaKey _ \<Rightarrow> Inr ''RS256''
     | EcdsaKey curve _ \<Rightarrow> if curve \<noteq> ''P-256'' then Inl (Msg (''unsupported ECDSA curve: '' @ curve)) else Inr ''ES256''
     | OtherKey ty _ \<Rightarrow> Inl (Msg (''unsupported key type '' @ ty)))"

definition new_signing_key :: "string \<Rightarrow> private_key \<Rightarrow> error + signing_key" where
  "new_signing_key i key = (case signature_alg key of
       Inl e \<Rightarrow> Inl e
     | Inr alg \<Rightarrow> Inr \<lparr>sk_id = i, sk_key = key, sk_alg = alg\<rparr>)"

subsection \<open>The server\<close>

record op_config =
  oc_crypto_key :: string
  oc_crypto_key_id :: string
  oc_logout_uri :: string
  oc_s256 :: bool
  oc_auth_post :: bool
  oc_refresh :: bool

record 'w op_provider =
  op_handler :: "string \<Rightarrow> 'w handler"
  op_callback :: "string \<Rightarrow> string"
  op_issuer :: string

record oidc_options =
  oo_issuer :: string
  oo_key :: "private_key option"
  oo_key_id :: string
  oo_crypto :: string
  oo_insecure :: bool

record 'w oidc_server =
  os_signing :: signing_key
  os_provider :: "'w op_provider"
  os_login :: "'w oidc_login"

definition new_oidc_server ::
  "(string \<Rightarrow> op_config \<Rightarrow> signing_key \<Rightarrow> bool \<Rightarrow> error + 'w op_provider) \<Rightarrow> bcrypt \<Rightarrow> (string \<Rightarrow> string option) \<Rightarrow>
   oidc_options \<Rightarrow> ('r world_scheme, 'w oidc_server) run" where
  "new_oidc_server open_provider bc ip6 opts =
     (if oo_issuer opts = [] then throw (Msg ''issuer required'')
      else case oo_key opts of
        None \<Rightarrow> throw (Msg ''signing key required'')
      | Some key \<Rightarrow>
          bindR (if oo_key_id opts = [] then draw else ret (oo_key_id opts)) (\<lambda>kid.
          bindR (map_error (Wrap ''signing key'') (lift_result (new_signing_key kid key))) (\<lambda>sk.
          bindR (map_error (Wrap ''create OP'') (lift_result (open_provider (oo_issuer opts)
              \<lparr>oc_crypto_key = oo_crypto opts, oc_crypto_key_id = ''nass-1'', oc_logout_uri = ''/logged-out'',
               oc_s256 = True, oc_auth_post = True, oc_refresh = True\<rparr> sk (oo_insecure opts)))) (\<lambda>pr.
          ret \<lparr>os_signing = sk, os_provider = pr,
               os_login = new_login bc (op_callback pr) (op_issuer pr) ip6\<rparr>))))"

text \<open>The mux: the two login routes, the page after a logout, and everything else to the provider. (A GET
  pattern also serves HEAD.)\<close>

definition oidc_handler :: "('r portal_scheme) oidc_server \<Rightarrow> string \<Rightarrow> ('r portal_scheme) handler" where
  "oidc_handler s meth r w =
     (if rq_path r = ''/login'' \<and> (meth = ''GET'' \<or> meth = ''HEAD'') then get_oidc_login (os_login s) r w
      else if rq_path r = ''/login'' \<and> meth = ''POST'' then post_oidc_login (os_login s) r w
      else if rq_path r = ''/logged-out'' \<and> (meth = ''GET'' \<or> meth = ''HEAD'') then ((Plain ''signed out'', []), w)
      else op_handler (os_provider s) meth r w)"


subsection \<open>Every key that loads can sign\<close>

lemma supported_key_signs:
  "supported_key k = Inr k' \<Longrightarrow> \<exists>alg. new_signing_key i k' = Inr \<lparr>sk_id = i, sk_key = k', sk_alg = alg\<rparr>"
  by (auto simp: supported_key_def new_signing_key_def signature_alg_def split: private_key.splits if_splits)

lemma loaded_key_signs:
  assumes "load_signing_key kp path w = (Inr k, w')"
  shows "\<exists>alg. new_signing_key i k = Inr \<lparr>sk_id = i, sk_key = k, sk_alg = alg\<rparr>"
proof -
  obtain bytes w1 where "(case kp_pem kp bytes of
       None \<Rightarrow> throw (Msg ''signing key: no PEM block found'')
     | Some block \<Rightarrow>
         bindR (map_error (Wrap ''parse signing key'') (lift_result (kp_pkcs8 kp block))) (\<lambda>priv.
         lift_result (supported_key priv))) w1 = (Inr k, w')"
    using assms unfolding load_signing_key_def bindR_Inr_iff by blast
  then show ?thesis
    using supported_key_signs by (cases "kp_pem kp bytes") (auto simp: throw_run bindR_Inr_iff lift_result_run)
qed

subsection \<open>Who completes a request\<close>

definition completes :: "string \<Rightarrow> int \<Rightarrow> database \<Rightarrow> database \<Rightarrow> bool" where
  "completes i uid d d' \<longleftrightarrow> d' = d\<lparr>db_authreqs := db_authreqs d'\<rparr> \<and> authreq_by i d \<noteq> None \<and>
     (\<exists>t. \<forall>k. authreq_by k d' = map_option (\<lambda>a. if k = i then a\<lparr>ar_user := Some (format_int uid),
        ar_auth_time := Some t, ar_completed := 1\<rparr> else a) (authreq_by k d))"

lemma authreq_by_key: "authreq_by k d = Some a \<Longrightarrow> ar_id a = k"
  by (auto simp: authreq_by_def dest: row_by_Some)

lemma upd_authreqs_none:
  "upd_authreqs P f d = Inr (0, d') \<Longrightarrow> d' = d"
  by (auto simp: upd_authreqs_def filter_empty_conv map_idI)

lemma mark_db:
  assumes "mark_auth_request_complete i uid w = (x, w')"
  shows "case x of Inl e \<Rightarrow> w_db w' = w_db w | Inr _ \<Rightarrow> completes i uid (w_db w) (w_db w')"
proof (cases x)
  case (Inl e)
  then show ?thesis
    using assms upd_authreqs_none
    by (auto simp: mark_auth_request_complete_def bindR_Inl_iff run_simps dest!: exec_InlD exec_InrD split: if_splits)
next
  case (Inr u)
  then obtain n where n: "n \<noteq> 0" "upd_authreqs (\<lambda>r. ar_id r = i) (\<lambda>r. r\<lparr>ar_user := Some (format_int uid),
      ar_auth_time := Some (w_clock w - w_clock w mod second), ar_completed := 1\<rparr>) (w_db w) = Inr (n, w_db w')"
    using assms by (auto simp: mark_auth_request_complete_def bindR_Inr_iff run_simps dest!: exec_InrD split: if_splits)
  have k: "authreq_by k (w_db w') = map_option (\<lambda>a. if k = i then a\<lparr>ar_user := Some (format_int uid),
        ar_auth_time := Some (w_clock w - w_clock w mod second), ar_completed := 1\<rparr> else a) (authreq_by k (w_db w))" for k
    using mark_complete_Inr [of i uid w u w' k] assms Inr authreq_by_key [of k "w_db w"]
    by (cases "authreq_by k (w_db w)") auto
  have "authreq_by i (w_db w) \<noteq> None"
    using n by (auto simp: upd_authreqs_def authreq_by_def row_by_None filter_empty_conv image_iff)
  moreover have "w_db w' = (w_db w)\<lparr>db_authreqs := db_authreqs (w_db w')\<rparr>"
    using n(2) by (auto simp: upd_authreqs_def dest: sym)
  ultimately show ?thesis using Inr k by (auto simp: completes_def)
qed

text \<open>What a lookup may do to the database: drop the one session of the cookie, when it has expired.\<close>

definition at_most_expired :: "'r world_scheme \<Rightarrow> database \<Rightarrow> bool" where
  "at_most_expired w d \<longleftrightarrow> d = w_db w \<or> (\<exists>c s. session_by c (w_db w) = Some s \<and> ss_expires s < w_clock w \<and>
     d = (w_db w)\<lparr>db_sessions := filter (\<lambda>x. ss_id x \<noteq> c) (db_sessions (w_db w))\<rparr>)"

lemma at_most_expired_refl [simp]: "at_most_expired w (w_db w)"
  by (simp add: at_most_expired_def)

text \<open>What this package relies on in the portal: who is signed in is truthful, and asking drops at most an
  expired session.\<close>

locale portal_contract =
  fixes current_user :: "request \<Rightarrow> ('r world_scheme, int) run"
    and signed_in :: "'r world_scheme \<Rightarrow> request \<Rightarrow> int \<Rightarrow> bool"
  assumes user_signed_in: "current_user r w = (Inr uid, w') \<Longrightarrow> uid \<noteq> 0 \<Longrightarrow> signed_in w r uid \<and> w_db w' = w_db w"
    and asking_drops: "current_user r w = (x, w') \<Longrightarrow> at_most_expired w (w_db w')"
begin

lemma get_completes:
  assumes "get_oidc_login l r w = ((resp, cks), w')" "lg_portal l = Some pl" "pk_current_user pl = current_user"
  shows "at_most_expired w (w_db w') \<or>
    (\<exists>uid. completes (query_get (rq_query r) ''authRequestID'') uid (w_db w) (w_db w') \<and> signed_in w r uid)"
proof (cases "query_get (rq_query r) ''authRequestID'' = []")
  case True
  then show ?thesis using assms(1) by (simp add: get_oidc_login_def at_most_expired_def)
next
  case False
  obtain x w1 where x: "current_user r w = (x, w1)" by fastforce
  then have w1: "at_most_expired w (w_db w1)" by (rule asking_drops)
  show ?thesis
  proof (cases "\<exists>uid. x = Inr uid \<and> uid \<noteq> 0")
    case True
    then obtain uid where uid: "x = Inr uid" "uid \<noteq> 0" by blast
    obtain y w2 where y: "mark_auth_request_complete (query_get (rq_query r) ''authRequestID'') uid w1 = (y, w2)"
      by fastforce
    have "w' = w2" using assms False x uid y by (cases y) (auto simp: get_oidc_login_def)
    then show ?thesis
      using mark_db [OF y] user_signed_in [OF x [unfolded uid(1)] uid(2)] by (cases y) (auto simp: at_most_expired_def)
  next
    case False
    then show ?thesis using assms x w1 by (cases x) (auto simp: get_oidc_login_def Let_def split: if_splits)
  qed
qed

text \<open>With somebody signed in, the page completes the request at once and hands over to the provider.\<close>

lemma get_signed_in:
  assumes "lg_portal l = Some pl" "pk_current_user pl = current_user" "current_user r w = (Inr uid, w1)" "uid \<noteq> 0"
    and "query_get (rq_query r) ''authRequestID'' = i" "i \<noteq> []" "w_faults w1 = []" "authreq_by i (w_db w1) \<noteq> None"
  shows "\<exists>w'. get_oidc_login l r w = ((Redirect 302 (lg_callback l i), []), w') \<and> completes i uid (w_db w1) (w_db w')"
proof -
  obtain y w2 where y: "mark_auth_request_complete i uid w1 = (y, w2)" by fastforce
  have "\<exists>u. y = Inr u"
    using y assms(7,8) by (auto simp: mark_auth_request_complete_def run_simps run_eval upd_authreqs_def authreq_by_def
        row_by_None filter_empty_conv image_iff split: if_splits)
  then show ?thesis using mark_db [OF y] y assms by (auto simp: get_oidc_login_def)
qed

end

lemma current_user_Inr:
  assumes "current_user_id r w = (Inr uid, w')" "uid \<noteq> 0"
  shows "(\<exists>s. session_valid w r s \<and> us_id (pn_user s) = uid) \<and> w_db w' = w_db w"
proof -
  obtain s where s: "session_lookup r w = (Inr (Some s), w')" "us_id (pn_user s) = uid"
    using assms by (auto simp: current_user_id_def bindR_Inr_iff ret_run split: option.splits)
  then show ?thesis using lookup_sound [OF s(1)] by (auto simp: session_valid_def)
qed

interpretation portal_link: portal_contract current_user_id "\<lambda>w r uid. \<exists>s. session_valid w r s \<and> us_id (pn_user s) = uid"
proof
  show "at_most_expired w (w_db w')" if "current_user_id r w = (x, w')" for r x and w w' :: "'a world_scheme"
  proof -
    obtain y w1 where y: "session_lookup r w = (y, w1)" by fastforce
    then have "w' = w1" using that by (cases y) (auto simp: current_user_id_def run_eval run_simps)
    then show ?thesis using lookup_db [OF y] by (simp add: at_most_expired_def)
  qed
qed (rule current_user_Inr)

text \<open>The form, for visitors the portal does not know.\<close>

lemma post_completes:
  assumes "post_oidc_login l r w = ((resp, cks), w')"
  shows "w_db w' = w_db w \<or>
    (\<exists>row. user_named (form_value r ''username'') (w_db w) = Some row \<and>
       bc_cmp (lg_bcrypt l) (usr_hash row) (form_value r ''password'') \<and>
       completes (form_value r ''id'') (usr_id row) (w_db w) (w_db w') \<and> oidc_same_origin (lg_ip6 l) r \<and>
       fst (th_allow (w_clock w) (client_ip r) (form_value r ''username'') (pt_throttle w)))"
proof (cases "oidc_same_origin (lg_ip6 l) r \<and> rq_form r \<noteq> None \<and> form_value r ''id'' \<noteq> []")
  case False
  then show ?thesis using assms by (auto simp: post_oidc_login_def Let_def split: if_splits)
next
  case ok: True
  let ?u = "form_value r ''username''" and ?pw = "form_value r ''password''" and ?ip = "client_ip r"
  obtain allowed th1 where th: "th_allow (w_clock w) ?ip ?u (pt_throttle w) = (allowed, th1)" by fastforce
  obtain v w1 where v: "users_verify (lg_bcrypt l) ?u ?pw (w\<lparr>pt_throttle := th1\<rparr>) = (v, w1)" by fastforce
  have w1: "w_db w1 = w_db w" using frame_pair [OF frame_users_read(4) v] by simp
  show ?thesis
  proof (cases "\<exists>u. allowed \<and> v = Inr u")
    case False
    then show ?thesis using assms ok th v w1
      by (cases allowed; cases v) (auto simp: post_oidc_login_def Let_def split: prod.splits)
  next
    case True
    then obtain u where u: "allowed" "v = Inr u" by blast
    obtain row where row: "user_named ?u (w_db w) = Some row" "bc_cmp (lg_bcrypt l) (usr_hash row) ?pw"
        "us_id u = usr_id row"
      using users_verify_Inr [OF v [unfolded u(2)]] by (auto dest!: scan_user_id)
    obtain y w2 where y: "mark_auth_request_complete (form_value r ''id'') (us_id u)
        (w1\<lparr>pt_throttle := th_success ?ip ?u (pt_throttle w1)\<rparr>) = (y, w2)" by fastforce
    have "w' = w2" using assms ok th v u y by (cases y) (auto simp: post_oidc_login_def Let_def)
    then show ?thesis using mark_db [OF y] w1 row ok th u(1) by (cases y) auto
  qed
qed

definition login_vouched :: "('r portal_scheme) oidc_login \<Rightarrow> string \<Rightarrow> request \<Rightarrow> 'r portal_scheme \<Rightarrow> string \<Rightarrow> int \<Rightarrow> bool" where
  "login_vouched l meth r w i uid \<longleftrightarrow>
     (if meth = ''POST''
      then i = form_value r ''id'' \<and> oidc_same_origin (lg_ip6 l) r \<and>
        fst (th_allow (w_clock w) (client_ip r) (form_value r ''username'') (pt_throttle w)) \<and>
        (\<exists>row. user_named (form_value r ''username'') (w_db w) = Some row \<and> usr_id row = uid \<and>
           bc_cmp (lg_bcrypt l) (usr_hash row) (form_value r ''password''))
      else i = query_get (rq_query r) ''authRequestID'' \<and> (\<exists>s. session_valid w r s \<and> us_id (pn_user s) = uid))"


subsection \<open>Single sign-on, from the app's request to its completion\<close>

lemma well_formed_login_uri: "well_formed_uri (''/login?authRequestID='' @ query_escape i)"
proof -
  have safe: "query_safe c \<or> c = CHR ''+'' \<or> c = CHR ''%''" if "c \<in> set (query_escape i)" for c
    using query_escape_safe that .
  have n: "\<not> ctl_byte c \<and> c \<noteq> CHR 0x5C \<and> c \<noteq> CHR ''#''" if "query_safe c \<or> c = CHR ''+'' \<or> c = CHR ''%''" for c
    using that by (auto simp: query_safe_def is_alnum_def ctl_byte_def)
  have tail: "\<not> list_ex ctl_byte (query_escape i)" "CHR 0x5C \<notin> set (query_escape i)" "CHR ''#'' \<notin> set (query_escape i)"
    using n [OF safe] by (auto simp: list_ex_iff)
  have front: "\<not> list_ex ctl_byte ''/login?authRequestID=''" "CHR 0x5C \<notin> set ''/login?authRequestID=''"
    "CHR ''#'' \<notin> set ''/login?authRequestID=''"
    by code_simp+
  have "strip_query (''/login'' @ CHR ''?'' # ''authRequestID='' @ query_escape i) = ''/login''"
    unfolding strip_query_def using cut_at_found [of "CHR ''?''" "''/login''"] by simp
  then have "unescape_any (strip_query (''/login?authRequestID='' @ query_escape i)) \<noteq> None" by simp
  with tail front show ?thesis by (simp add: well_formed_uri_def has_prefix_def)
qed

lemma login_here_url:
  assumes "issuer = ''https://'' @ h @ port" "h \<noteq> []" "list_all name_byte h" "port_text port"
  shows "login_here issuer i = ''https://'' @ h @ port @ ''/login?authRequestID='' @ query_escape i"
proof -
  have "last issuer \<in> set (h @ port)" using assms(1,2) last_in_set [of "h @ port"] by simp
  then have "last issuer \<noteq> CHR ''/''" using host_bytes [OF assms(3,4)] by auto
  then have "\<not> has_suffix issuer ''/''" by (auto simp: has_suffix_iff)
  then show ?thesis using assms(1) by (simp add: login_here_def trim_suffix_def)
qed

lemma opened_session_signs_in:
  assumes "opens_session p r w w' [ck]" "world_ok w" "w_db v = w_db w'" "w_faults v = []"
    and "w_clock v \<le> w_clock w + session_ttl" "req_cookie q session_cookie_name = Some (ck_value ck)"
  shows "\<exists>row. user_named (form_value r ''username'') (w_db w) = Some row \<and>
    bc_cmp (pc_bcrypt p) (usr_hash row) (form_value r ''password'') \<and> usr_id row \<noteq> 0 \<and>
    current_user_id q v = (Inr (usr_id row), v)"
proof -
  obtain row i where row: "user_named (form_value r ''username'') (w_db w) = Some row"
      "bc_cmp (pc_bcrypt p) (usr_hash row) (form_value r ''password'')"
      "ck = session_cookie (pc_store p) i (w_clock w + session_ttl)"
      "w_db w' = (w_db w)\<lparr>db_sessions := db_sessions (w_db w')\<rparr>"
      "session_by i (w_db w') = Some \<lparr>ss_id = i, ss_user = usr_id row, ss_expires = w_clock w + session_ttl\<rparr>"
    using assms(1) by (auto simp: opens_session_def)
  have mem: "row \<in> set (db_users (w_db w))" using row(1) by (auto simp: user_named_def dest: row_by_Some)
  then have id: "usr_id row \<noteq> 0" "user_by (usr_id row) (w_db w) = Some row"
    using assms(2) row_by_member [of usr_id "db_users (w_db w)" row] by (auto simp: world_ok_def db_ok_def user_by_def)
  have "user_by (usr_id row) (w_db w') = Some row" using id(2) by (subst row(4)) (simp add: user_by_def)
  moreover have "ck_value ck = i" using row(3) by (simp add: session_cookie_def)
  ultimately have "current_user_id q v = (Inr (usr_id row), v)"
    using row(5) assms(3-6)
    by (simp add: current_user_id_def session_lookup_def users_get_def scan_user_def run_simps run_eval)
  with row(1,2) id show ?thesis by blast
qed


subsection \<open>Witnesses\<close>

definition sample_oidc_login :: "(portal) oidc_login" where
  "sample_oidc_login = set_portal (portal_link_of sample_portal)
     (new_login sample_bcrypt (\<lambda>i. ''https://auth.nas.example/authorize/callback?id='' @ i) ''https://auth.nas.example'' (\<lambda>_. None))"

definition sample_sso_world :: portal where
  "sample_sso_world = sample_portal_world\<lparr>w_db := (w_db sample_portal_world)\<lparr>db_authreqs :=
     [fresh_request_row sample_params ''aa'' [] 0]\<rparr>\<rparr>"

definition sample_visit :: "string \<Rightarrow> string \<Rightarrow> request" where
  "sample_visit q c = (sample_request c)\<lparr>rq_host := ''auth.nas.example'', rq_path := ''/login'', rq_query := q\<rparr>"

definition sample_form :: request where
  "sample_form = (sample_request ''theme=dark'')\<lparr>rq_host := ''nas.example'', rq_form := Some [(''username'', ''ana''),
     (''password'', ''password1''), (''next'', ''https://auth.nas.example/login?authRequestID=aa'')]\<rparr>"

definition sample_sso_after :: portal where
  "sample_sso_after = snd (post_login sample_portal sample_form sample_sso_world)"

lemma sample_sso_login:
  "post_login sample_portal sample_form sample_sso_world =
     ((Redirect 302 ''https://auth.nas.example/login?authRequestID=aa'',
       [session_cookie (pc_store sample_portal) ''tok'' session_ttl]), sample_sso_after)"
proof -
  have "case fst (post_login sample_portal sample_form sample_sso_world) of
      (Redirect c t, cks) \<Rightarrow> c = 302 \<and> t = ''https://auth.nas.example/login?authRequestID=aa'' \<and>
        cks = [session_cookie (pc_store sample_portal) ''tok'' session_ttl] | _ \<Rightarrow> False"
    by code_simp
  then show ?thesis by (auto simp: sample_sso_after_def prod_eq_iff split: prod.splits response.splits)
qed

lemma sample_sso_facts:
  "req_cookie (sample_visit ''authRequestID=aa'' ''theme=dark'') session_cookie_name = None"
  "w_faults sample_sso_after = []" "w_clock sample_sso_after \<le> session_ttl" "authreq_by ''aa'' (w_db sample_sso_after) \<noteq> None"
  "req_cookie (sample_visit ''authRequestID=aa'' ''theme=dark; nass_session=tok'') session_cookie_name = Some ''tok''"
  "world_ok sample_sso_world"
  by (code_simp+)



end
