(* ===== verification/Cli_Commands.thy ===== *)
theory Cli_Commands
  imports Nass_Config Oidc_Login App_Uninstall
begin

text \<open>
  The commands of \<^verbatim>\<open>nass\<close> that run and end (\<^verbatim>\<open>internal/cli/root.go\<close>, \<^verbatim>\<open>init.go\<close>, \<^verbatim>\<open>user.go\<close>, \<^verbatim>\<open>app.go\<close>, \<^verbatim>\<open>install.go\<close>,
  \<^verbatim>\<open>oidc_client.go\<close>): each is an operation on the host whose flags are its arguments; cobra parses them. What a
  command prints goes to \<open>cli_out\<close>; the rows of a table are its cells, and a cell that shows JSON from
  the database shows the value that the model keeps for it. Opening the database is two statements that may
  fail, the second standing for the migrations of Db_Migrate; after them the tables are those of the schema.
\<close>

datatype out_line =
    OutLine string
  | ErrLine string
  | OutRow "string list"
  | OutApp string bool "app_settings json"
  | OutClient string string "string list json"

record cli = host +
  cli_out :: "out_line list"

definition say :: "out_line \<Rightarrow> ('r cli_scheme, unit) run" where
  "say l = writing (\<lambda>w. w\<lparr>cli_out := cli_out w @ [l]\<rparr>)"

definition say_lines :: "string list \<Rightarrow> ('r cli_scheme, unit) run" where
  "say_lines ls = forR ls (\<lambda>l. say (OutLine l))"

definition arrow :: string where
  "arrow = [CHR 0xE2, CHR 0x86, CHR 0x92]"

definition bool_text :: "bool \<Rightarrow> string" where
  "bool_text b = (if b then ''true'' else ''false'')"

text \<open>What a command finds in its process: the environment of the configuration, the path given with
  \<^verbatim>\<open>--config\<close>, \<^verbatim>\<open>NASS_PASSWORD\<close>, the terminal if standard input is one (what is typed at a prompt), the
  libraries and the registered apps.\<close>

record 'w cli_env = environment +
  ce_config :: string
  ce_password :: string
  ce_terminal :: "(string \<Rightarrow> error + string) option"
  ce_bcrypt :: bcrypt
  ce_ip6 :: "string \<Rightarrow> string option"
  ce_registry :: "'w spec list"

subsection \<open>Configuration and database\<close>

definition load_config :: "'w cli_env \<Rightarrow> ('r host_scheme, config) run" where
  "load_config ce =
     bindR (map_error (Wrap (''config '' @ ce_config ce))
       (bindR (file_exists (os_path (environment.truncate ce) (ce_config ce))) (\<lambda>there.
        if there then ret () else throw ErrNotExist))) (\<lambda>_.
     config_load (environment.truncate ce) (ce_config ce))"

definition db_open :: "string \<Rightarrow> ('r world_scheme, unit) run" where
  "db_open path = bindR pop_fault (\<lambda>_. map_error (Wrap ''migrate'') pop_fault)"

definition with_db :: "'w cli_env \<Rightarrow> (config \<Rightarrow> ('r host_scheme, unit) run) \<Rightarrow> ('r host_scheme, unit) run" where
  "with_db ce f = bindR (load_config ce) (\<lambda>cfg. bindR (db_open (cd_path (cf_db cfg))) (\<lambda>_. f cfg))"

text \<open>\<open>buildVersion\<close>: the settings of the build, the last value of each key, or \<open>None\<close> without build information.\<close>

definition build_version :: "(string \<times> string) list option \<Rightarrow> string" where
  "build_version info = (case info of
       None \<Rightarrow> ''unknown''
     | Some settings \<Rightarrow>
         (let rev0 = (case map_of (rev settings) ''vcs.revision'' of None \<Rightarrow> [] | Some v \<Rightarrow> v);
              dirty = (map_of (rev settings) ''vcs.modified'' = Some ''true'')
          in if rev0 = [] then ''unknown''
             else (if length rev0 > 12 then take 12 rev0 else rev0) @ (if dirty then ''-dirty'' else [])))"

subsection \<open>Users\<close>

definition resolve_password :: "'w cli_env \<Rightarrow> string \<Rightarrow> string \<Rightarrow> ('r cli_scheme, string) run" where
  "resolve_password ce flag prompt =
     (if flag \<noteq> [] then ret flag
      else if ce_password ce \<noteq> [] then ret (ce_password ce)
      else (case ce_terminal ce of
          None \<Rightarrow> throw (Msg ''password not provided and stdin is not a terminal; pass --password or set NASS_PASSWORD'')
        | Some typed \<Rightarrow> bindR (say (ErrLine prompt)) (\<lambda>_. lift_result (typed prompt))))"

definition user_add_cmd :: "'w cli_env \<Rightarrow> string \<Rightarrow> string \<Rightarrow> bool \<Rightarrow> string \<Rightarrow> ('r cli_scheme, unit) run" where
  "user_add_cmd ce name email is_admin password = with_db ce (\<lambda>_.
     bindR (resolve_password ce password ''Password: '') (\<lambda>pw.
     bindR (users_create (ce_bcrypt ce) name email pw is_admin) (\<lambda>u.
     say (OutLine (''created user '' @ go_quote (us_name u) @ '' (id='' @ format_int (us_id u) @ '', admin='' @
       bool_text (us_admin u) @ '')'')))))"

text \<open>\<open>CreatedAt.Format("2006-01-02")\<close> of a time in UTC, by the civil calendar.\<close>

definition pad2 :: "int \<Rightarrow> string" where
  "pad2 n = (if n < 10 then ''0'' else []) @ format_int n"

definition date_text :: "int \<Rightarrow> string" where
  "date_text t =
     (let z = t div (86400 * second) + 719468;
          era = z div 146097; doe = z mod 146097;
          yoe = (doe - doe div 1460 + doe div 36524 - doe div 146096) div 365;
          doy = doe - (365 * yoe + yoe div 4 - yoe div 100);
          mp = (5 * doy + 2) div 153;
          d = doy - (153 * mp + 2) div 5 + 1;
          m = (if mp < 10 then mp + 3 else mp - 9);
          y = yoe + era * 400 + (if m \<le> 2 then 1 else 0)
      in format_int y @ ''-'' @ pad2 m @ ''-'' @ pad2 d)"

definition user_list_cmd :: "'w cli_env \<Rightarrow> ('r cli_scheme, unit) run" where
  "user_list_cmd ce = with_db ce (\<lambda>_. bindR users_list (\<lambda>us.
     bindR (say (OutRow [''ID'', ''USERNAME'', ''EMAIL'', ''ADMIN'', ''CREATED''])) (\<lambda>_.
     forR us (\<lambda>u. say (OutRow [format_int (us_id u), us_name u, us_email u, bool_text (us_admin u),
       date_text (us_created u)])))))"

definition user_rm_cmd :: "'w cli_env \<Rightarrow> string \<Rightarrow> ('r cli_scheme, unit) run" where
  "user_rm_cmd ce name = with_db ce (\<lambda>_. bindR (users_get_by_username name) (\<lambda>u.
     bindR (users_delete (us_id u)) (\<lambda>_. say (OutLine (''deleted user '' @ go_quote (us_name u))))))"

definition user_passwd_cmd :: "'w cli_env \<Rightarrow> string \<Rightarrow> string \<Rightarrow> ('r cli_scheme, unit) run" where
  "user_passwd_cmd ce name password = with_db ce (\<lambda>_. bindR (users_get_by_username name) (\<lambda>u.
     bindR (resolve_password ce password ''New password: '') (\<lambda>pw.
     bindR (users_set_password (ce_bcrypt ce) (us_id u) pw) (\<lambda>_.
     say (OutLine (''updated password for '' @ go_quote (us_name u)))))))"

definition user_set_email_cmd :: "'w cli_env \<Rightarrow> string \<Rightarrow> string \<Rightarrow> ('r cli_scheme, unit) run" where
  "user_set_email_cmd ce name email = with_db ce (\<lambda>_. bindR (users_get_by_username name) (\<lambda>u.
     bindR (users_set_email (us_id u) email) (\<lambda>_.
     say (OutLine (''updated email for '' @ go_quote (us_name u) @ '' '' @ arrow @ '' '' @ email)))))"

subsection \<open>Clients\<close>

definition oidc_client_add_cmd :: "'w cli_env \<Rightarrow> string \<Rightarrow> string list \<Rightarrow> ('r cli_scheme, unit) run" where
  "oidc_client_add_cmd ce app redirects =
     (if redirects = [] then throw (Msg ''at least one --redirect-uri is required'')
      else with_db ce (\<lambda>_. bindR (provision (ce_bcrypt ce) app redirects) (\<lambda>res.
        bindR (say (OutLine (''client_id:     '' @ pv_client res))) (\<lambda>_.
        bindR (say (OutLine (''client_secret: '' @ pv_secret res))) (\<lambda>_.
        say (ErrLine ''(secret is shown once; only its bcrypt hash is stored)''))))))"

text \<open>The column CREATED is not in the model.\<close>

definition oidc_client_list_cmd :: "'w cli_env \<Rightarrow> ('r cli_scheme, unit) run" where
  "oidc_client_list_cmd ce = with_db ce (\<lambda>_. bindR (query (\<lambda>d. sort_key cl_app (db_clients d))) (\<lambda>cs.
     if cs = [] then say (OutLine ''(no clients)'')
     else bindR (say (OutRow [''APP'', ''CLIENT_ID'', ''REDIRECT_URIS'', ''CREATED''])) (\<lambda>_.
       forR cs (\<lambda>c. say (OutClient (cl_app c) (cl_id c) (cl_redirects c))))))"

definition oidc_client_rm_cmd :: "'w cli_env \<Rightarrow> string \<Rightarrow> ('r cli_scheme, unit) run" where
  "oidc_client_rm_cmd ce app = with_db ce (\<lambda>_. bindR (revoke_client app) (\<lambda>_.
     say (OutLine (''revoked client for '' @ go_quote app))))"

subsection \<open>Apps\<close>

definition auth_host :: "config \<Rightarrow> string" where
  "auth_host cfg = (if ci_subdomain (cf_oidc cfg) = [] then cs_base_host (cf_server cfg)
     else ci_subdomain (cf_oidc cfg) @ ''.'' @ cs_base_host (cf_server cfg))"

definition portal_host :: "config \<Rightarrow> string" where
  "portal_host cfg = (if cp_subdomain (cf_portal cfg) = [] then cs_base_host (cf_server cfg)
     else cp_subdomain (cf_portal cfg) @ ''.'' @ cs_base_host (cf_server cfg))"

definition app_list_cmd :: "'w cli_env \<Rightarrow> ('r cli_scheme, unit) run" where
  "app_list_cmd ce = with_db ce (\<lambda>_. bindR (query (\<lambda>d. sort_key ap_name (db_apps d))) (\<lambda>rows.
     if rows = [] then say (OutLine ''(no apps registered yet)'')
     else bindR (say (OutRow [''NAME'', ''ENABLED'', ''SETTINGS''])) (\<lambda>_.
       forR rows (\<lambda>a. say (OutApp (ap_name a) (ap_enabled a \<noteq> 0) (ap_settings a))))))"

record enable_flags =
  ef_subdomain :: string
  ef_backend :: string
  ef_preserve_host :: bool
  ef_gate :: bool
  ef_timeout :: int

definition enable_settings :: "enable_flags \<Rightarrow> app_settings" where
  "enable_settings fl = zero_settings\<lparr>st_subdomain := ef_subdomain fl, st_backend := ef_backend fl,
     st_preserve_host := ef_preserve_host fl, st_oidc_gate := ef_gate fl, st_timeout := ef_timeout fl\<rparr>"

text \<open>The first of the reserved hosts that the app would take.\<close>

definition reserved_clash :: "config \<Rightarrow> string \<Rightarrow> string option" where
  "reserved_clash cfg sub = find (\<lambda>h. to_lower (sub @ ''.'' @ cs_base_host (cf_server cfg)) = to_lower h)
     [auth_host cfg, portal_host cfg]"

definition app_enable_cmd :: "'w cli_env \<Rightarrow> string \<Rightarrow> enable_flags \<Rightarrow> ('r cli_scheme, unit) run" where
  "app_enable_cmd ce name fl =
     (if ef_subdomain fl = [] \<or> ef_backend fl = [] then throw (Msg ''--subdomain and --backend are required'')
      else with_db ce (\<lambda>cfg. case reserved_clash cfg (ef_subdomain fl) of
          Some h \<Rightarrow> throw (Msg (''subdomain '' @ go_quote (ef_subdomain fl) @ '' is reserved: '' @ h @ '' is served by nass itself''))
        | None \<Rightarrow> bindR (save_settings name (enable_settings fl)) (\<lambda>_.
            say (OutLine (''enabled '' @ go_quote name @ '' at '' @ ef_subdomain fl @ ''.<base_host> '' @ arrow @ '' '' @ ef_backend fl)))))"

definition app_disable_cmd :: "'w cli_env \<Rightarrow> string \<Rightarrow> ('r cli_scheme, unit) run" where
  "app_disable_cmd ce name = with_db ce (\<lambda>_.
     bindR (exec (upd_apps (\<lambda>a. ap_name a = name) (\<lambda>a. a\<lparr>ap_enabled := 0\<rparr>))) (\<lambda>n.
     if n = 0 then throw (Msg (''app '' @ go_quote name @ '' not found''))
     else say (OutLine (''disabled '' @ go_quote name))))"

record install_flags =
  if_subdomain :: string
  if_data_root :: string
  if_compose_file :: string
  if_password :: string
  if_public_port :: string
  if_backend_port :: int
  if_dry_run :: bool

definition build_install_context :: "config \<Rightarrow> 'w spec \<Rightarrow> install_flags \<Rightarrow> error + install_context" where
  "build_install_context cfg sp fl =
     (let subdomain = (if if_subdomain fl = [] then sp_subdomain sp else if_subdomain fl); orch = cf_orch cfg in
      if cs_base_host (cf_server cfg) = [] then Inl (Msg ''server.base_host is empty in nass.toml'')
      else if co_compose_root orch = [] then Inl (Msg ''orchestrator.compose_root is empty in nass.toml'')
      else if co_data_root orch = [] then Inl (Msg ''orchestrator.data_root is empty in nass.toml'')
      else
        (let data_root = (if if_data_root fl = [] then path_join [co_data_root orch, sp_name sp] else if_data_root fl);
             compose_file = (if if_compose_file fl = []
               then path_join [co_compose_root orch, sp_name sp, ''docker-compose.yaml''] else if_compose_file fl)
         in if ci_issuer (cf_oidc cfg) = []
            then Inl (Msg ''oidc.issuer is unset (set base_host so the issuer can be derived)'')
            else Inr \<lparr>ic_name = sp_name sp, ic_subdomain = subdomain, ic_base = cs_base_host (cf_server cfg),
              ic_scheme = ''https'', ic_public_port = if_public_port fl,
              ic_port = (if if_backend_port fl \<noteq> 0 then if_backend_port fl else sp_port sp),
              ic_range = co_range orch, ic_explicit = (if_backend_port fl \<noteq> 0), ic_data = data_root,
              ic_compose = compose_file, ic_password = if_password fl, ic_client = [], ic_secret = [],
              ic_issuer = ci_issuer (cf_oidc cfg), ic_db = True,
              ic_orch = Some (new_orchestrator (co_compose_root orch) (co_docker orch))\<rparr>))"

definition say_plan :: "'w spec \<Rightarrow> install_context \<Rightarrow> ('r cli_scheme, unit) run" where
  "say_plan sp ic = say_lines [''would install '' @ sp_name sp, ''  subdomain:    '' @ ic_subdomain ic,
     ''  public URL:   '' @ public_url ic, ''  backend port: '' @ format_int (ic_port ic),
     ''  data root:    '' @ ic_data ic, ''  compose file: '' @ ic_compose ic,
     ''  needs OIDC:   '' @ bool_text (sp_oidc sp)]"

definition say_result :: "install_result \<Rightarrow> ('r cli_scheme, unit) run" where
  "say_result res = bindR (forR ([[''FIELD'', ''VALUE''], [''app'', ir_app res], [''compose_file'', ir_compose res],
       [''backend_port'', format_int (ir_port res)], [''admin_password'', ir_password res]] @
       (if ir_client res \<noteq> [] then [[''oidc_client_id'', ir_client res], [''oidc_client_secret'', ir_secret res]] else []))
     (\<lambda>cells. say (OutRow cells))) (\<lambda>_. say (ErrLine ''(secrets shown once; only their hashes are stored)''))"

definition app_install_cmd :: "('r cli_scheme) cli_env \<Rightarrow> string \<Rightarrow> install_flags \<Rightarrow> ('r cli_scheme, unit) run" where
  "app_install_cmd ce name fl = (case get_spec name (ce_registry ce) of
       None \<Rightarrow> throw (Msg (''unknown app '' @ go_quote name @ '' (try `nass app available`)''))
     | Some sp \<Rightarrow> with_db ce (\<lambda>cfg. bindR (lift_result (build_install_context cfg sp fl)) (\<lambda>ic.
         if if_dry_run fl then
           bindR (select_backend_port (ic_port ic) (ic_range ic) (ic_explicit ic)) (\<lambda>p. say_plan sp (ic\<lparr>ic_port := p\<rparr>))
         else bindR (install_app (ce_bcrypt ce) (ce_ip6 ce) (Some ic) (Some sp)) say_result)))"

definition resolve_uninstall_paths :: "config \<Rightarrow> string \<Rightarrow> string \<Rightarrow> string \<Rightarrow> ('r host_scheme, string \<times> string) run" where
  "resolve_uninstall_paths cfg name compose_file data_root =
     (let orch = cf_orch cfg in
      bindR (if compose_file = [] \<and> co_compose_root orch \<noteq> [] then
               (let candidate = path_join [co_compose_root orch, name, ''docker-compose.yaml''] in
                bindR (stat_ok candidate) (\<lambda>there. ret (if there then candidate else compose_file)))
             else ret compose_file) (\<lambda>cf.
      ret (cf, if data_root = [] \<and> cf \<noteq> [] \<and> co_data_root orch \<noteq> []
               then path_join [co_data_root orch, name] else data_root)))"

record uninstall_flags =
  uf_yes :: bool
  uf_keep :: bool
  uf_force :: bool

definition uninstall_resolved :: "config \<Rightarrow> string \<Rightarrow> uninstall_flags \<Rightarrow> string \<times> string \<Rightarrow> ('r cli_scheme, unit) run" where
  "uninstall_resolved cfg name fl = (\<lambda>(cf, dr).
     if \<not> uf_yes fl then
       bindR (say (ErrLine (''refusing to uninstall '' @ go_quote name @ '' without --yes'' @ [CHR 0x0A] @
         ''  compose: '' @ cf @ [CHR 0x0A] @ ''  data:    '' @ dr))) (\<lambda>_.
       throw (Msg ''aborted: pass --yes to confirm''))
     else
       bindR (uninstall_app (Some \<lparr>uc_name = name, uc_compose = cf, uc_data = dr, uc_keep = uf_keep fl,
         uc_force = uf_force fl, uc_db = True,
         uc_orch = Some (new_orchestrator (co_compose_root (cf_orch cfg)) (co_docker (cf_orch cfg)))\<rparr>)) (\<lambda>_.
       bindR (say (OutLine (''uninstalled '' @ go_quote name))) (\<lambda>_.
       if uf_keep fl then say (OutLine (''(data folder preserved at '' @ dr @ '')'')) else ret ())))"

definition app_uninstall_cmd :: "'w cli_env \<Rightarrow> string \<Rightarrow> uninstall_flags \<Rightarrow> ('r cli_scheme, unit) run" where
  "app_uninstall_cmd ce name fl = with_db ce (\<lambda>cfg. bindR (load_app_paths name) (\<lambda>paths. case paths of
       None \<Rightarrow> throw (Msg (''app '' @ go_quote name @ '' is not installed''))
     | Some (cf0, dr0) \<Rightarrow> bindR (resolve_uninstall_paths cfg name cf0 dr0) (uninstall_resolved cfg name fl)))"

definition app_available_cmd :: "'w cli_env \<Rightarrow> ('r cli_scheme, unit) run" where
  "app_available_cmd ce = bindR (say (OutRow [''NAME'', ''SUBDOMAIN'', ''PORT'', ''OIDC'', ''DESCRIPTION''])) (\<lambda>_.
     forR (all_specs (ce_registry ce)) (\<lambda>sp. say (OutRow [sp_name sp, sp_subdomain sp, format_int (sp_port sp),
       bool_text (sp_oidc sp), sp_description sp])))"

subsection \<open>The first start: \<^verbatim>\<open>nass init\<close>\<close>

text \<open>What the standard library makes of entropy: an RSA key, its PKCS#8 form and the PEM file of it.\<close>

record key_makers =
  km_rsa :: "string \<Rightarrow> error + private_key"
  km_pkcs8 :: "private_key \<Rightarrow> error + string"
  km_pem :: "string \<Rightarrow> string"

record init_flags =
  nf_base_host :: string
  nf_user :: string
  nf_email :: string
  nf_password :: string
  nf_cert :: string
  nf_key :: string

text \<open>\<open>rand.Read\<close> fills the whole buffer.\<close>

definition fill_buffer :: "nat \<Rightarrow> string \<Rightarrow> string" where
  "fill_buffer n x = take n (x @ replicate n (CHR 0x00))"

definition generate_crypto_key :: "string \<Rightarrow> ('r host_scheme, unit) run" where
  "generate_crypto_key path = bindR (stat_ok path) (\<lambda>there.
     if there then ret ()
     else bindR draw (\<lambda>x. write_new path (fill_buffer 32 x)))"

definition generate_signing_key :: "key_makers \<Rightarrow> string \<Rightarrow> ('r host_scheme, unit) run" where
  "generate_signing_key km path = bindR (stat_ok path) (\<lambda>there.
     if there then ret ()
     else bindR draw (\<lambda>x. bindR (lift_result (km_rsa km x)) (\<lambda>priv. bindR (lift_result (km_pkcs8 km priv)) (\<lambda>der.
       write_new path (km_pem km der)))))"

definition init_config :: "init_flags \<Rightarrow> config" where
  "init_config fl = default_config\<lparr>
     cf_server := (cf_server default_config)\<lparr>cs_base_host := nf_base_host fl\<rparr>,
     cf_tls := \<lparr>ct_cert = nf_cert fl, ct_key = nf_key fl\<rparr>\<rparr>"

definition init_cmd :: "'w cli_env \<Rightarrow> key_makers \<Rightarrow> init_flags \<Rightarrow> ('r cli_scheme, unit) run" where
  "init_cmd ce km fl =
     (let ev = environment.truncate ce; path = ce_config ce in
      if nf_base_host fl = [] then throw (Msg ''--base-host is required'')
      else if nf_user fl = [] \<or> nf_password fl = [] then throw (Msg ''--admin-user and --admin-password are required'')
      else bindR (stat_ok (os_path ev path)) (\<lambda>there.
        if there then throw (Msg (path @ '' already exists; refusing to overwrite''))
        else bindR (config_write ev path (init_config fl)) (\<lambda>_.
        bindR (config_load ev path) (\<lambda>cfg.
        bindR (map_error (Wrap ''generate signing key'') (generate_signing_key km (ci_key (cf_oidc cfg)))) (\<lambda>_.
        bindR (map_error (Wrap ''generate crypto key'') (generate_crypto_key (ci_crypto_key (cf_oidc cfg)))) (\<lambda>_.
        bindR (db_open (cd_path (cf_db cfg))) (\<lambda>_.
        bindR (map_error (Wrap ''create admin'') (users_create (ce_bcrypt ce) (nf_user fl) (nf_email fl) (nf_password fl) True)) (\<lambda>u.
        say_lines [''wrote '' @ path, ''wrote '' @ ci_key (cf_oidc cfg), ''wrote '' @ ci_crypto_key (cf_oidc cfg),
              ''wrote '' @ cd_path (cf_db cfg), ''created admin user '' @ go_quote (us_name u) @ '' (id='' @ format_int (us_id u) @ '')'']))))))))"

end
