(* ===== verification/Serve_Process.thy ===== *)
theory Serve_Process
  imports Portal_Steps Proxy_Manager Cli_Commands
begin

text \<open>
  The long-lived process (\<^verbatim>\<open>internal/cli/serve.go\<close>): how \<^verbatim>\<open>nass serve\<close> puts the parts together, and the front door
  it then is. The live routes are part of the world, as sites: nass's own two and the apps; \<open>site_handler\<close> says what
  answers at a site. \<open>serve_start\<close> is the command up to its listeners; afterwards the process takes requests, runs
  the portal's jobs, synchronises its routes and purges, in any order, while other processes change the database
  (\<open>serve_step\<close>). Shown: whatever happens, the two hosts of nass itself stay with nass and no app is routed
  elsewhere than at its own host.
\<close>

datatype site = NoSite | OidcSite | PortalSite | AppSite app_route

record serve_state = admin_state +
  sr_router :: "site server"
  sr_manager :: route_manager
  sr_out :: "out_line list"

record serve_flags =
  sf_listen :: string
  sf_listen_http :: string
  sf_insecure :: bool
  sf_no_https :: bool

text \<open>The environment of the command: besides that of the other commands the parsers of keys, the OIDC library, the
  reverse proxy's removal of hop-by-hop headers, and \<open>tls.LoadX509KeyPair\<close>.\<close>

record 'w serve_env = "'w cli_env" +
  se_parsers :: key_parsers
  se_provider :: "string \<Rightarrow> op_config \<Rightarrow> signing_key \<Rightarrow> bool \<Rightarrow> error + 'w op_provider"
  se_hop :: "headers \<Rightarrow> headers"
  se_keypair :: "string \<Rightarrow> string \<Rightarrow> error + unit"

datatype listener = PlainListener string | TlsListener string

record 'w serving =
  sg_portal :: "'w admin_config"
  sg_oidc :: "'w oidc_server"
  sg_gate_url :: string
  sg_hop :: "headers \<Rightarrow> headers"
  sg_auth_host :: string
  sg_portal_host :: string
  sg_listener :: listener
  sg_redirector :: bool

definition portal_host_url :: "config \<Rightarrow> bool \<Rightarrow> string" where
  "portal_host_url cfg dev = (if dev then ''http'' else ''https'') @ ''://'' @ portal_host cfg"

text \<open>A site for every app that \<open>HandlerFor\<close> accepts; whether it does depends on no state.\<close>

definition site_for :: "(string \<Rightarrow> string option) \<Rightarrow> (headers \<Rightarrow> headers) \<Rightarrow> string \<Rightarrow> app_route \<Rightarrow> error + site" where
  "site_for ip6 hop url r =
     (case (handler_for ip6 hop (Some (gate_wrap url)) r :: error + world handler) of Inl e \<Rightarrow> Inl e | Inr _ \<Rightarrow> Inr (AppSite r))"

definition serve_sync :: "(string \<Rightarrow> string option) \<Rightarrow> (headers \<Rightarrow> headers) \<Rightarrow> string \<Rightarrow> ('r serve_state_scheme, unit) run" where
  "serve_sync ip6 hop url =
     bindR (reading (\<lambda>w. rm_base (sr_manager w))) (\<lambda>base.
     bindR (load_enabled_parts base) (\<lambda>(routes, problems) w.
     case sync_with (site_for ip6 hop url) routes problems (sr_manager w) (sr_router w) of (ps, m, sv) \<Rightarrow>
       (if ps = [] then Inr () else Inl (Joined ps), w\<lparr>sr_manager := m, sr_router := sv\<rparr>)))"

definition report :: "out_line \<Rightarrow> ('r serve_state_scheme, unit) run" where
  "report l = writing (\<lambda>w. w\<lparr>sr_out := sr_out w @ [l]\<rparr>)"

text \<open>An operation whose failure is only reported.\<close>

definition tolerate :: "string \<Rightarrow> ('r serve_state_scheme, unit) run \<Rightarrow> ('r serve_state_scheme, unit) run" where
  "tolerate what m = bindR (attempt m) (\<lambda>r. case r of Inl e \<Rightarrow> report (ErrLine (what @ '': '' @ error_text e)) | Inr _ \<Rightarrow> ret ())"

text \<open>The sweep, with its day of grace.\<close>

definition serve_purge :: "('r serve_state_scheme, unit) run" where
  "serve_purge = bindR now (\<lambda>t. let cutoff = t - 24 * 3600 * second in
     bindR (tolerate ''purge sessions'' (session_purge cutoff)) (\<lambda>_. tolerate ''purge oidc'' (oidc_purge cutoff)))"

definition build_https_server :: "(string \<Rightarrow> string \<Rightarrow> error + unit) \<Rightarrow> config \<Rightarrow> string \<Rightarrow> bool \<Rightarrow> error + listener" where
  "build_https_server keypair cfg addr no_https =
     (if no_https then Inr (PlainListener addr)
      else if ct_cert (cf_tls cfg) = [] \<or> ct_key (cf_tls cfg) = []
      then Inl (Msg ''tls.cert_file and tls.key_file must be set in nass.toml (or pass --no-https for dev)'')
      else (case keypair (ct_cert (cf_tls cfg)) (ct_key (cf_tls cfg)) of
          Inl e \<Rightarrow> Inl (Wrap ''load TLS keypair'' e) | Inr _ \<Rightarrow> Inr (TlsListener addr)))"

definition serve_portal :: "('r serve_state_scheme) serve_env \<Rightarrow> config \<Rightarrow> bool \<Rightarrow> ('r serve_state_scheme) admin_config" where
  "serve_portal se cfg dev =
     (new_portal \<lparr>pc_base = cs_base_host (cf_server cfg), pc_title = cp_title (cf_portal cfg), pc_https = \<not> dev,
         pc_store = \<lparr>sn_domain = cs_base_host (cf_server cfg), sn_insecure = dev\<rparr>,
         pc_bcrypt = ce_bcrypt se, pc_ip6 = ce_ip6 se\<rparr>
       (Some (new_orchestrator (co_compose_root (cf_orch cfg)) (co_docker (cf_orch cfg)))) (ce_registry se))
     \<lparr>ac_data_root := co_data_root (cf_orch cfg), ac_issuer := ci_issuer (cf_oidc cfg), ac_range := co_range (cf_orch cfg),
      ac_log := True, ac_reload := Some (serve_sync (ce_ip6 se) (se_hop se) (portal_host_url cfg dev))\<rparr>"

text \<open>The fixed routes, OIDC first, then the portal; and the manager that must not touch them.\<close>

definition fixed_router :: "config \<Rightarrow> site server" where
  "fixed_router cfg = add_route (portal_host cfg) PortalSite (add_route (auth_host cfg) OidcSite
     \<lparr>sv_routes = (\<lambda>_. None), sv_fallback = NoSite\<rparr>)"

definition fresh_manager :: "config \<Rightarrow> route_manager" where
  "fresh_manager cfg = rm_reserve [auth_host cfg, portal_host cfg] (new_route_manager (cs_base_host (cf_server cfg)))"

text \<open>The memory of a process that has just started.\<close>

definition fresh_memory :: "config \<Rightarrow> 'r serve_state_scheme \<Rightarrow> 'r serve_state_scheme" where
  "fresh_memory cfg w = w\<lparr>pt_throttle := Some (new_login_throttle 10 30 minute_ns), pt_jobs := [], as_tasks := [],
     sr_router := fixed_router cfg, sr_manager := fresh_manager cfg\<rparr>"

definition announce :: "config \<Rightarrow> ('r serve_state_scheme, unit) run" where
  "announce cfg =
     bindR (report (OutLine (''route: '' @ auth_host cfg @ '' '' @ arrow @ '' OIDC''))) (\<lambda>_.
     bindR (report (OutLine (''route: '' @ portal_host cfg @ '' '' @ arrow @ '' portal''))) (\<lambda>_.
     bindR (reading (\<lambda>w. managed_hosts (sr_manager w))) (\<lambda>hs.
     forR hs (\<lambda>h. report (OutLine (''route: '' @ h @ '' '' @ arrow @ '' app''))))))"

definition serve_start :: "('r serve_state_scheme) serve_env \<Rightarrow> serve_flags \<Rightarrow>
    ('r serve_state_scheme, ('r serve_state_scheme) serving) run" where
  "serve_start se fl =
     (let dev = (sf_insecure fl \<or> sf_no_https fl); ce = cli_env.truncate se in
      bindR (load_config ce) (\<lambda>cfg.
      bindR (db_open (cd_path (cf_db cfg))) (\<lambda>_.
      bindR (load_signing_key (se_parsers se) (ci_key (cf_oidc cfg))) (\<lambda>key.
      bindR (load_crypto_key (ci_crypto_key (cf_oidc cfg))) (\<lambda>crypto.
      bindR (new_oidc_server (se_provider se) (ce_bcrypt se) (ce_ip6 se)
        \<lparr>oo_issuer = ci_issuer (cf_oidc cfg), oo_key = Some key, oo_key_id = ''nass-1'', oo_crypto = crypto,
         oo_insecure = dev\<rparr>) (\<lambda>srv.
      let ac = serve_portal se cfg dev; url = portal_host_url cfg dev;
          srv' = srv\<lparr>os_login := set_portal (portal_link_of (portal_config.truncate ac)) (os_login srv)\<rparr> in
      bindR (writing (fresh_memory cfg)) (\<lambda>_.
      bindR (tolerate ''route sync'' (serve_sync (ce_ip6 se) (se_hop se) url)) (\<lambda>_.
      bindR (announce cfg) (\<lambda>_.
      bindR serve_purge (\<lambda>_.
      bindR (lift_result (build_https_server (se_keypair se) cfg (sf_listen fl) (sf_no_https fl))) (\<lambda>lis.
      ret \<lparr>sg_portal = ac, sg_oidc = srv', sg_gate_url = url, sg_hop = se_hop se, sg_auth_host = auth_host cfg,
        sg_portal_host = portal_host cfg, sg_listener = lis,
        sg_redirector = (sf_listen_http fl \<noteq> [] \<and> \<not> sf_no_https fl)\<rparr>)))))))))))"

subsection \<open>The front door\<close>

definition app_handler :: "('r world_scheme) serving \<Rightarrow> app_route \<Rightarrow> 'r world_scheme handler" where
  "app_handler sg r = (case handler_for (pc_ip6 (sg_portal sg)) (sg_hop sg) (Some (gate_wrap (sg_gate_url sg))) r of
       Inl e \<Rightarrow> not_found | Inr h \<Rightarrow> h)"

definition site_handler :: "('r serve_state_scheme) serving \<Rightarrow> string \<Rightarrow> site \<Rightarrow> 'r serve_state_scheme handler" where
  "site_handler sg meth s = (case s of
       NoSite \<Rightarrow> not_found
     | OidcSite \<Rightarrow> oidc_handler (sg_oidc sg) meth
     | PortalSite \<Rightarrow> mount (sg_portal sg) meth
     | AppSite r \<Rightarrow> app_handler sg r)"

definition front_door :: "('r serve_state_scheme) serving \<Rightarrow> string \<Rightarrow> 'r serve_state_scheme handler" where
  "front_door sg meth r w =
     serve_http \<lparr>sv_routes = (\<lambda>h. map_option (site_handler sg meth) (sv_routes (sr_router w) h)),
       sv_fallback = site_handler sg meth (sv_fallback (sr_router w))\<rparr> r w"

text \<open>The response headers that are set before a handler runs: HSTS by the TLS listener, the strict set on the pages that
  nass renders itself, nothing on a proxied app.\<close>

definition front_headers :: "'w serving \<Rightarrow> request \<Rightarrow> 'r serve_state_scheme \<Rightarrow> headers" where
  "front_headers sg r w =
     (let h0 = (case sg_listener sg of PlainListener _ \<Rightarrow> (\<lambda>_. []) | TlsListener _ \<Rightarrow> hsts (\<lambda>_. [])) in
      case sv_routes (sr_router w) (to_lower (strip_port (rq_host r))) of
        Some OidcSite \<Rightarrow> first_party_headers h0
      | Some PortalSite \<Rightarrow> first_party_headers h0
      | _ \<Rightarrow> h0)"

definition serve_tick :: "('r serve_state_scheme) serving \<Rightarrow> ('r serve_state_scheme, unit) run" where
  "serve_tick sg = tolerate ''route sync'' (reload (sg_portal sg))"

subsection \<open>The process as a transition system\<close>

text \<open>What the process does after its start, and what others do to it: requests, jobs of the portal, the two tickers, and
  a world in which time passes, docker answers and other nass processes change the database.\<close>

inductive serve_step :: "('r serve_state_scheme) serving \<Rightarrow> 'r serve_state_scheme \<Rightarrow> 'r serve_state_scheme \<Rightarrow> bool" for sg where
  request: "serve_step sg w (snd (front_door sg meth r w))"
| job: "(ref, job, task) \<in> set (as_tasks w) \<Longrightarrow> serve_step sg w (run_job (sg_portal sg) ref job task w)"
| tick: "serve_step sg w (snd (serve_tick sg w))"
| sweep: "serve_step sg w (snd (serve_purge w))"
| outside: "world_ok w' \<Longrightarrow> sr_router w' = sr_router w \<Longrightarrow> sr_manager w' = sr_manager w \<Longrightarrow> serve_step sg w w'"

inductive_cases serve_step_elim: "serve_step sg w w'"

definition site_view :: "'r serve_state_scheme \<Rightarrow> site server \<times> route_manager" where
  "site_view w = (sr_router w, sr_manager w)"

definition own_hosts :: "'w serving \<Rightarrow> string set" where
  "own_hosts sg = {to_lower (sg_auth_host sg), to_lower (sg_portal_host sg)}"

text \<open>nass's own sites are in place, and an app stands only at its own host, which is not one of nass's.\<close>

definition sites_ok :: "'w serving \<Rightarrow> site server \<times> route_manager \<Rightarrow> bool" where
  "sites_ok sg v \<longleftrightarrow> (case v of (sv, m) \<Rightarrow>
     rm_base m = pc_base (sg_portal sg) \<and> rm_reserved m = own_hosts sg \<and> rm_inv m \<and> sv_fallback sv = NoSite \<and>
     sv_routes sv (to_lower (sg_portal_host sg)) = Some PortalSite \<and>
     (to_lower (sg_auth_host sg) \<noteq> to_lower (sg_portal_host sg) \<longrightarrow> sv_routes sv (to_lower (sg_auth_host sg)) = Some OidcSite) \<and>
     (\<forall>h s. sv_routes sv h = Some s \<longrightarrow> h \<notin> own_hosts sg \<longrightarrow>
        (\<exists>r d. s = AppSite r \<and> rte_host r = h \<and> r \<in> set (enabled_routes (pc_base (sg_portal sg)) d)) \<and> h \<in> set (managed_hosts m)))"

definition serving_inv :: "'w serving \<Rightarrow> 'r serve_state_scheme \<Rightarrow> bool" where
  "serving_inv sg w \<longleftrightarrow> world_ok w \<and> sites_ok sg (site_view w)"

lemma site_view_simps [simp]:
  "site_view (w\<lparr>w_db := d\<rparr>) = site_view w" "site_view (w\<lparr>w_faults := fs\<rparr>) = site_view w" "site_view (w\<lparr>w_rand := rs\<rparr>) = site_view w"
  "site_view (w\<lparr>hs_fs := h1\<rparr>) = site_view w" "site_view (w\<lparr>hs_disk_faults := h2\<rparr>) = site_view w"
  "site_view (w\<lparr>hs_cmds := h3\<rparr>) = site_view w" "site_view (w\<lparr>hs_outs := h4\<rparr>) = site_view w"
  "site_view (w\<lparr>hs_polls := h5\<rparr>) = site_view w" "site_view (w\<lparr>hs_net := h6\<rparr>) = site_view w"
  "site_view (w\<lparr>hs_reqs := h7\<rparr>) = site_view w" "site_view (w\<lparr>pt_throttle := h8\<rparr>) = site_view w"
  "site_view (w\<lparr>pt_jobs := h9\<rparr>) = site_view w" "site_view (w\<lparr>as_next := h10\<rparr>) = site_view w"
  "site_view (w\<lparr>as_tasks := h11\<rparr>) = site_view w" "site_view (w\<lparr>as_log := h12\<rparr>) = site_view w"
  "site_view (w\<lparr>sr_out := h13\<rparr>) = site_view w"
  by (simp_all add: site_view_def)

interpretation site_view: portal_view site_view
  by unfold_locales simp_all

lemma world_ok_portal [simp]:
  "world_ok (w1\<lparr>hs_polls := h5\<rparr>) = world_ok w1" "world_ok (w2\<lparr>pt_throttle := h8\<rparr>) = world_ok w2"
  "world_ok (w2\<lparr>pt_jobs := h9\<rparr>) = world_ok w2" "world_ok (w3\<lparr>as_next := h10\<rparr>) = world_ok w3"
  "world_ok (w3\<lparr>as_tasks := h11\<rparr>) = world_ok w3" "world_ok (w3\<lparr>as_log := h12\<rparr>) = world_ok w3"
  "world_ok (w4\<lparr>sr_out := h13\<rparr>) = world_ok w4" "world_ok (w4\<lparr>sr_manager := m\<rparr>) = world_ok w4"
  "world_ok (w4\<lparr>sr_router := sv\<rparr>) = world_ok w4"
  by (simp_all add: world_ok_def)

lemma serving_frame: "preserves world_ok m \<Longrightarrow> frame site_view m \<Longrightarrow> preserves (serving_inv sg) m"
  by (auto simp: preserves_def frame_def serving_inv_def)

lemma serving_same: "world_ok w' \<Longrightarrow> site_view w' = site_view w \<Longrightarrow> serving_inv sg w \<Longrightarrow> serving_inv sg w'"
  by (simp add: serving_inv_def)

lemma preserves_pages [preserves_intro]:
  "preserves world_ok (admin_view ac sess)" "preserves world_ok (dashboard_tiles ac)" "preserves world_ok (load_app_paths n)"
  "preserves world_ok (compose_file_of n)" "preserves world_ok (orch_up o1 f)" "preserves world_ok (orch_down o1 f)"
  unfolding world_ok_def
  by (rule frame_preserves, intro preserves_intro frame_admin_view frame_tiles frame_compose_file)+
subsection \<open>A synchronisation keeps the sites in order\<close>

lemma site_for_host: "site_for ip6 hop url r = Inr s \<Longrightarrow> s = AppSite r"
  by (auto simp: site_for_def split: sum.splits)

lemma sync_sites_ok:
  assumes "sites_ok sg (sv, m)" "db_ok d"
    and "sync_with (site_for ip6 hop url) (enabled_routes (rm_base m) d) ps m sv = (probs, m', sv')"
  shows "sites_ok sg (sv', m')"
proof -
  have m: "rm_base m = pc_base (sg_portal sg)" "rm_reserved m = own_hosts sg" "rm_inv m"
    using assms(1) by (simp_all add: sites_ok_def)
  have low: "\<forall>h \<in> set (managed_hosts m). to_lower h = h" "\<forall>h \<in> set (managed_hosts m). h \<notin> own_hosts sg"
    using m by (auto simp: rm_inv_def)
  note spec = sync_with_spec [OF assms(3) enabled_routes_ok [OF assms(2)] low(1)]
  let ?f = "first_ok (site_for ip6 hop url) (own_hosts sg) (enabled_routes (pc_base (sg_portal sg)) d)"
  have f: "r \<in> set (enabled_routes (pc_base (sg_portal sg)) d) \<and> rte_host r = h \<and> h \<notin> own_hosts sg \<and>
      projr (site_for ip6 hop url r) = AppSite r" if "?f h = Some r" for h r
  proof -
    have "r \<in> set (enabled_routes (pc_base (sg_portal sg)) d) \<and> rte_host r = h \<and> eligible (site_for ip6 hop url) (own_hosts sg) r"
      using first_okD [OF that] .
    then show ?thesis using site_for_host [of ip6 hop url r] by (cases "site_for ip6 hop url r") (auto simp: eligible_def)
  qed
  have routes: "sv_routes sv' h = (case ?f h of Some r \<Rightarrow> Some (AppSite r)
      | None \<Rightarrow> if h \<in> set (managed_hosts m) then None else sv_routes sv h)" for h
    using spec(1) [of h] f [of h] unfolding m by (simp split: option.split)
  have own: "?f h = None" if "h \<in> own_hosts sg" for h using f [of h] that by (cases "?f h") auto
  have fb: "sv_fallback sv' = sv_fallback sv"
  proof -
    have "sv_fallback (fold (\<lambda>old s. if P old then snd (remove_route old s) else s) xs s) = sv_fallback s" for P xs and s :: "site server"
      by (induction xs arbitrary: s) (simp_all add: remove_route_def)
    moreover have "sv_fallback (fold (\<lambda>(host, h) s. add_route host h s) ys s) = sv_fallback s" for ys and s :: "site server"
      by (induction ys arbitrary: s) (auto simp: add_route_def)
    ultimately show ?thesis using assms(3) by (auto simp: sync_with_def Let_def)
  qed
  have mh: "set (managed_hosts m') = {h. ?f h \<noteq> None}" using spec(2) unfolding m .
  have inv: "rm_inv m'"
    using mh f enabled_routes_ok(2) [OF assms(2)] spec(3) m(2) unfolding rm_inv_def by fastforce
  have fixed: "sv_routes sv' h = sv_routes sv h" if "h \<in> own_hosts sg" for h
    using routes [of h] own [OF that] low(2) that by auto
  have apps: "(\<exists>r d. s = AppSite r \<and> rte_host r = h \<and> r \<in> set (enabled_routes (pc_base (sg_portal sg)) d)) \<and> h \<in> set (managed_hosts m')"
    if "sv_routes sv' h = Some s" "h \<notin> own_hosts sg" for h s
  proof (cases "?f h")
    case None
    then have "h \<notin> set (managed_hosts m)" "sv_routes sv h = Some s" using routes [of h] that(1) by (simp_all split: if_splits)
    then show ?thesis using assms(1) that(2) by (auto simp: sites_ok_def)
  next
    case (Some r)
    then have "s = AppSite r" using routes [of h] that(1) by simp
    then show ?thesis using f [OF Some] mh Some by auto
  qed
  have "to_lower (sg_portal_host sg) \<in> own_hosts sg" "to_lower (sg_auth_host sg) \<in> own_hosts sg" by (simp_all add: own_hosts_def)
  moreover have "sv_routes sv (to_lower (sg_portal_host sg)) = Some PortalSite" "sv_fallback sv = NoSite"
    "to_lower (sg_auth_host sg) \<noteq> to_lower (sg_portal_host sg) \<longrightarrow> sv_routes sv (to_lower (sg_auth_host sg)) = Some OidcSite"
    using assms(1) by (simp_all add: sites_ok_def)
  ultimately show ?thesis
    unfolding sites_ok_def prod.case
    apply (intro conjI)
    subgoal using m spec(4) by simp
    subgoal using m spec(3) by simp
    subgoal by (rule inv)
    subgoal using fb by simp
    subgoal using fixed by simp
    subgoal using fixed by simp
    subgoal using apps by blast
    done
qed

lemma serve_sync_keeps: "preserves (serving_inv sg) (serve_sync ip6 hop url)"
  unfolding preserves_def
proof (intro allI impI)
  fix w :: "'a serve_state_scheme"
  assume w: "serving_inv sg w"
  obtain q w1 where q: "load_enabled_parts (rm_base (sr_manager w)) w = (q, w1)" by fastforce
  have "frame site_view (load_enabled_parts b)" "frame w_db (load_enabled_parts b)" for b
    unfolding load_enabled_parts_def by (intro preserves_intro; simp)+
  then have w1: "site_view w1 = site_view w" "w_db w1 = w_db w" using frame_pair q by metis+
  show "serving_inv sg (snd (serve_sync ip6 hop url w))"
  proof (cases q)
    case (Inl e)
    then show ?thesis using q w w1 by (simp add: serve_sync_def bindR_run reading_run serving_inv_def world_ok_def)
  next
    case (Inr rp)
    have rp: "rp = (enabled_routes (rm_base (sr_manager w)) (w_db w), snd (resolve_rows (rm_base (sr_manager w)) (enabled_rows (w_db w))))"
      using q Inr by (auto simp: load_enabled_parts_def bindR_Inr_iff ret_run enabled_routes_def enabled_rows_def dest!: query_InrD)
    obtain ps m sv where s: "sync_with (site_for ip6 hop url) (enabled_routes (rm_base (sr_manager w)) (w_db w))
        (snd (resolve_rows (rm_base (sr_manager w)) (enabled_rows (w_db w)))) (sr_manager w) (sr_router w) = (ps, m, sv)"
      by (metis prod_cases3)
    have "sites_ok sg (sr_router w, sr_manager w)" "db_ok (w_db w)" using w by (simp_all add: serving_inv_def site_view_def world_ok_def)
    from sync_sites_ok [OF this s] have "sites_ok sg (sv, m)" .
    then show ?thesis using q Inr rp s w1 w
      by (simp add: serve_sync_def bindR_run reading_run serving_inv_def site_view_def world_ok_def)
  qed
qed

subsection \<open>Requests, jobs and tickers keep them too\<close>

lemma preserves_sync_ok [preserves_intro]: "preserves world_ok (can_remove_admin i)"
  unfolding can_remove_admin_def by (intro preserves_intro)

lemma world_ok_log [simp]: "world_ok (log_app_job ac ev j e w) = world_ok w"
  by (simp add: log_app_job_def)

lemma world_ok_start [simp]: "world_ok (start_app_job ac a n t w) = world_ok w"
  by (simp add: start_app_job_def Let_def)

lemma site_view_log [simp]: "site_view (log_app_job ac ev j e w) = site_view w"
  by (simp add: log_app_job_def)

lemma site_view_start [simp]: "site_view (start_app_job ac a n t w) = site_view w"
  by (simp add: start_app_job_def Let_def)

lemma serving_simps [simp]:
  "serving_inv sg (w\<lparr>pt_throttle := th\<rparr>) = serving_inv sg w" "serving_inv sg (w\<lparr>as_tasks := ts\<rparr>) = serving_inv sg w"
  "serving_inv sg (w\<lparr>pt_jobs := js\<rparr>) = serving_inv sg w" "serving_inv sg (w\<lparr>hs_polls := p\<rparr>) = serving_inv sg w"
  "serving_inv sg (log_app_job ac ev j e w) = serving_inv sg w" "serving_inv sg (start_app_job ac a n t w) = serving_inv sg w"
  "serving_inv sg (w\<lparr>sr_out := out\<rparr>) = serving_inv sg w"
  by (simp_all add: serving_inv_def)

interpretation served: portal_invariant "serving_inv sg" for sg :: "'b serving"
proof unfold_locales
  show "keeps (serving_inv sg) (post_update_user ac q)" "keeps (serving_inv sg) (post_delete_user ac q)" for ac :: "'c admin_config" and q
    by (intro role_handlers serving_frame preserves_intro)+
qed (auto intro: serving_frame preserves_intro)

lemma site_view_more:
  "frame site_view (mark_auth_request_complete i uid)" "frame site_view (oidc_purge c)" "frame site_view (current_user_id r)"
  unfolding mark_auth_request_complete_def sql_now_def oidc_purge_def current_user_id_def by (intro preserves_intro)+

lemma preserves_current_user [preserves_intro]: "preserves world_ok (current_user_id r)"
  unfolding current_user_id_def by (intro preserves_intro)

lemma serving_mark: "preserves (serving_inv sg) (mark_auth_request_complete i uid)"
  by (intro serving_frame site_view_more preserves_intro)

lemma keeps_get_oidc:
  assumes "lg_portal l = Some (portal_link_of p)"
  shows "keeps (serving_inv sg) (get_oidc_login l r)"
  unfolding keeps_def
proof (intro allI impI)
  fix w :: "'a serve_state_scheme"
  assume w: "serving_inv sg w"
  obtain x w1 where x: "current_user_id r w = (x, w1)" by fastforce
  have w1: "serving_inv sg w1"
    by (rule preserves_pair [OF serving_frame [OF preserves_current_user site_view_more(3)] x w])
  have m: "serving_inv sg w2" if "mark_auth_request_complete i uid w1 = (y, w2)" for i uid y w2
    by (rule preserves_pair [OF serving_mark that w1])
  show "serving_inv sg (snd (get_oidc_login l r w))"
    using assms x w w1 by (auto simp: get_oidc_login_def portal_link_of_def Let_def split: sum.split prod.split dest: m)
qed

lemma keeps_post_oidc: "keeps (serving_inv sg) (post_oidc_login l r)"
  unfolding keeps_def
proof (intro allI impI)
  fix w :: "'a serve_state_scheme"
  assume w: "serving_inv sg w"
  have v: "serving_inv sg w2" if "users_verify bc n pw (w\<lparr>pt_throttle := th\<rparr>) = (q, w2)" for bc n pw th q w2
    using preserves_pair [OF served.verify that] w by simp
  have m: "serving_inv sg w3" if "mark_auth_request_complete i uid (w2\<lparr>pt_throttle := th\<rparr>) = (y, w3)" "serving_inv sg w2" for i uid y w2 w3 th
    using preserves_pair [OF serving_mark that(1)] that(2) by simp
  show "serving_inv sg (snd (post_oidc_login l r w))"
    using w by (auto simp: post_oidc_login_def Let_def split: prod.splits sum.splits dest!: v dest: m)
qed

lemma keeps_app: "keeps (serving_inv sg) (app_handler sg' a r)"
proof -
  have prx: "snd (h q w) = w" if "new_reverse_proxy hop opts = Inr h" for h hop opts q and w :: "'a serve_state_scheme"
    using that by (auto simp: new_reverse_proxy_def Let_def split: option.splits)
  have g: "serving_inv sg (snd (gate_wrap url h q w))" if "new_reverse_proxy hop opts = Inr h" "serving_inv sg w"
    for url h hop opts q and w :: "'a serve_state_scheme"
    using preserves_pair [OF served.lookup] that(2) prx [OF that(1)]
    unfolding gate_wrap_def gate_wrap_with_def Let_def by (auto split: prod.split sum.split option.split) blast+
  show ?thesis
    unfolding keeps_def app_handler_def handler_for_def
    using prx g by (auto simp: not_found_def split: sum.split)
qed

text \<open>What is asked of the code that is not nass's: the OIDC library leaves the routes alone and keeps the constraints of
  the schema, as the storage it works on does; the hooks of the registered apps likewise.\<close>

definition serving_safe :: "('r serve_state_scheme) serving \<Rightarrow> bool" where
  "serving_safe sg \<longleftrightarrow> (\<forall>meth r. keeps (serving_inv sg) (op_handler (os_provider (sg_oidc sg)) meth r)) \<and>
     (\<exists>p. lg_portal (os_login (sg_oidc sg)) = Some (portal_link_of p)) \<and>
     (\<forall>task. preserves (serving_inv sg) (run_task (sg_portal sg) task)) \<and> preserves (serving_inv sg) (reload (sg_portal sg))"

lemma keeps_front_door:
  assumes "serving_safe sg" "serving_inv sg w"
  shows "serving_inv sg (snd (front_door sg meth r w))"
proof -
  obtain p where p: "lg_portal (os_login (sg_oidc sg)) = Some (portal_link_of p)"
    using assms(1) by (auto simp: serving_safe_def)
  have "serving_inv sg (snd (site_handler sg meth s q w))" for s q
    using assms(1) keepsD [OF keeps_get_oidc [OF p] assms(2)] keepsD [OF keeps_post_oidc assms(2)]
      keepsD [OF served.keeps_mount assms(2)] keepsD [OF keeps_app assms(2)] assms(2)
    by (cases s) (auto simp: site_handler_def not_found_def oidc_handler_def serving_safe_def keeps_def)
  then show ?thesis by (auto simp: front_door_def serve_http_def split: option.split)
qed

lemma keeps_tolerate:
  assumes "preserves (serving_inv sg) m"
  shows "preserves (serving_inv sg) (tolerate what m)"
proof -
  have "preserves (serving_inv sg) (report l)" for l
    unfolding report_def by (rule preserves_writing) simp
  then show ?thesis unfolding tolerate_def by (intro preserves_intro assms)
qed

lemma keeps_purge: "preserves (serving_inv sg) serve_purge"
  unfolding serve_purge_def Let_def
  by (intro preserves_bindR keeps_tolerate serving_frame preserves_intro site_view_more)

lemma step_keeps_sites:
  assumes "serve_step sg w w'" "serving_safe sg" "serving_inv sg w"
  shows "serving_inv sg w'"
  using assms(1)
proof (rule serve_step_elim)
  fix meth r assume "w' = snd (front_door sg meth r w)"
  then show ?thesis using keeps_front_door assms(2,3) by simp
next
  fix ref job task assume "w' = run_job (sg_portal sg) ref job task w"
  moreover have "serving_inv sg (run_job (sg_portal sg) ref job task w)"
    by (rule keeps_run_job [where P = "serving_inv sg"]) (use assms(2,3) in \<open>simp_all add: serving_safe_def\<close>)
  ultimately show ?thesis by simp
next
  assume "w' = snd (serve_tick sg w)"
  then show ?thesis
    using preservesD [OF keeps_tolerate assms(3)] assms(2) by (simp add: serve_tick_def serving_safe_def)
next
  assume "w' = snd (serve_purge w)"
  then show ?thesis using preservesD [OF keeps_purge assms(3)] by simp
next
  assume "world_ok w'" "sr_router w' = sr_router w" "sr_manager w' = sr_manager w"
  then show ?thesis using assms(3) by (simp add: serving_inv_def site_view_def)
qed

lemma run_keeps_sites: "(serve_step sg)\<^sup>*\<^sup>* w0 w \<Longrightarrow> serving_safe sg \<Longrightarrow> serving_inv sg w0 \<Longrightarrow> serving_inv sg w"
  by (induction rule: rtranclp_induct) (auto intro: step_keeps_sites)

subsection \<open>The start establishes them\<close>

lemma fresh_sites_ok:
  assumes "sg_auth_host sg = auth_host cfg" "sg_portal_host sg = portal_host cfg" "pc_base (sg_portal sg) = cs_base_host (cf_server cfg)"
  shows "sites_ok sg (fixed_router cfg, fresh_manager cfg)"
  using assms
  by (auto simp: sites_ok_def own_hosts_def fixed_router_def fresh_manager_def add_route_def rm_inv_def managed_hosts_def
      new_route_manager_def rm_reserve_def split: if_splits)

lemma start_frames:
  "preserves world_ok (config_load ev path)" "preserves world_ok (load_config ce)" "preserves world_ok (db_open path)"
  "preserves world_ok (load_signing_key kp path)" "preserves world_ok (load_crypto_key path)"
  "preserves world_ok (new_oidc_server pr bc ip6 opts)"
proof -
  show c: "preserves world_ok (config_load ev path)" for ev path unfolding config_load_def by (intro preserves_intro)
  show "preserves world_ok (load_config ce)" unfolding load_config_def by (intro preserves_intro c)
  show "preserves world_ok (db_open path)" unfolding db_open_def by (intro preserves_intro)
  show "preserves world_ok (load_signing_key kp path)" unfolding load_signing_key_def by (intro preserves_intro)
  show "preserves world_ok (load_crypto_key path)" unfolding load_crypto_key_def by (intro preserves_intro)
  show "preserves world_ok (new_oidc_server pr bc ip6 opts)" unfolding new_oidc_server_def by (intro preserves_intro)
qed

text \<open>What a start that succeeds has done.\<close>

lemma serve_start_Inr:
  assumes "serve_start se fl w = (Inr sg, w0)" "world_ok w"
  shows "\<exists>cfg. fst (load_config (cli_env.truncate se) w) = Inr cfg \<and>
    sg_portal sg = serve_portal se cfg (sf_insecure fl \<or> sf_no_https fl) \<and> sg_auth_host sg = auth_host cfg \<and>
    sg_portal_host sg = portal_host cfg \<and> sg_gate_url sg = portal_host_url cfg (sf_insecure fl \<or> sf_no_https fl) \<and>
    sg_hop sg = se_hop se \<and> lg_portal (os_login (sg_oidc sg)) = Some (portal_link_of (portal_config.truncate (sg_portal sg))) \<and>
    (\<exists>issuer oc key d. se_provider se issuer oc key d = Inr (os_provider (sg_oidc sg))) \<and> serving_inv sg w0"
proof -
  let ?dev = "sf_insecure fl \<or> sf_no_https fl"
  obtain cfg w1 where 1: "load_config (cli_env.truncate se) w = (Inr cfg, w1)"
    and r1: "bindR (db_open (cd_path (cf_db cfg))) (\<lambda>_.
      bindR (load_signing_key (se_parsers se) (ci_key (cf_oidc cfg))) (\<lambda>key.
      bindR (load_crypto_key (ci_crypto_key (cf_oidc cfg))) (\<lambda>crypto.
      bindR (new_oidc_server (se_provider se) (ce_bcrypt se) (ce_ip6 se)
        \<lparr>oo_issuer = ci_issuer (cf_oidc cfg), oo_key = Some key, oo_key_id = ''nass-1'', oo_crypto = crypto,
         oo_insecure = ?dev\<rparr>) (\<lambda>srv.
      let ac = serve_portal se cfg ?dev; url = portal_host_url cfg ?dev;
          srv' = srv\<lparr>os_login := set_portal (portal_link_of (portal_config.truncate ac)) (os_login srv)\<rparr> in
      bindR (writing (fresh_memory cfg)) (\<lambda>_.
      bindR (tolerate ''route sync'' (serve_sync (ce_ip6 se) (se_hop se) url)) (\<lambda>_.
      bindR (announce cfg) (\<lambda>_.
      bindR serve_purge (\<lambda>_.
      bindR (lift_result (build_https_server (se_keypair se) cfg (sf_listen fl) (sf_no_https fl))) (\<lambda>lis.
      ret \<lparr>sg_portal = ac, sg_oidc = srv', sg_gate_url = url, sg_hop = se_hop se, sg_auth_host = auth_host cfg,
        sg_portal_host = portal_host cfg, sg_listener = lis,
        sg_redirector = (sf_listen_http fl \<noteq> [] \<and> \<not> sf_no_https fl)\<rparr>))))))))) w1 = (Inr sg, w0)"
    using assms(1) unfolding serve_start_def Let_def bindR_Inr_iff by blast
  obtain u2 w2 key w3 crypto w4 srv w5 where s: "db_open (cd_path (cf_db cfg)) w1 = (Inr u2, w2)"
      "load_signing_key (se_parsers se) (ci_key (cf_oidc cfg)) w2 = (Inr key, w3)"
      "load_crypto_key (ci_crypto_key (cf_oidc cfg)) w3 = (Inr crypto, w4)"
      "new_oidc_server (se_provider se) (ce_bcrypt se) (ce_ip6 se) \<lparr>oo_issuer = ci_issuer (cf_oidc cfg), oo_key = Some key,
         oo_key_id = ''nass-1'', oo_crypto = crypto, oo_insecure = ?dev\<rparr> w4 = (Inr srv, w5)"
    and r5: "bindR (writing (fresh_memory cfg)) (\<lambda>_.
      bindR (tolerate ''route sync'' (serve_sync (ce_ip6 se) (se_hop se) (portal_host_url cfg ?dev))) (\<lambda>_.
      bindR (announce cfg) (\<lambda>_.
      bindR serve_purge (\<lambda>_.
      bindR (lift_result (build_https_server (se_keypair se) cfg (sf_listen fl) (sf_no_https fl))) (\<lambda>lis.
      ret \<lparr>sg_portal = serve_portal se cfg ?dev, sg_oidc = srv\<lparr>os_login := set_portal (portal_link_of (portal_config.truncate
          (serve_portal se cfg ?dev))) (os_login srv)\<rparr>, sg_gate_url = portal_host_url cfg ?dev, sg_hop = se_hop se,
        sg_auth_host = auth_host cfg, sg_portal_host = portal_host cfg, sg_listener = lis,
        sg_redirector = (sf_listen_http fl \<noteq> [] \<and> \<not> sf_no_https fl)\<rparr>))))) w5 = (Inr sg, w0)"
    using r1 unfolding Let_def bindR_Inr_iff by blast
  have ok5: "world_ok w5"
    by (rule preserves_pair [OF start_frames(6) s(4) preserves_pair [OF start_frames(5) s(3)
        preserves_pair [OF start_frames(4) s(2) preserves_pair [OF start_frames(3) s(1)
        preserves_pair [OF start_frames(2) 1 assms(2)]]]]])
  obtain u6 w6 u7 w7 u8 w8 lis where t: "tolerate ''route sync'' (serve_sync (ce_ip6 se) (se_hop se) (portal_host_url cfg ?dev))
        (fresh_memory cfg w5) = (Inr u6, w6)" "announce cfg w6 = (Inr u7, w7)" "serve_purge w7 = (Inr u8, w8)"
      "sg = \<lparr>sg_portal = serve_portal se cfg ?dev, sg_oidc = srv\<lparr>os_login := set_portal (portal_link_of (portal_config.truncate
          (serve_portal se cfg ?dev))) (os_login srv)\<rparr>, sg_gate_url = portal_host_url cfg ?dev, sg_hop = se_hop se,
        sg_auth_host = auth_host cfg, sg_portal_host = portal_host cfg, sg_listener = lis,
        sg_redirector = (sf_listen_http fl \<noteq> [] \<and> \<not> sf_no_https fl)\<rparr>" "w0 = w8"
    using r5 unfolding bindR_Inr_iff writing_run lift_result_run ret_run by blast
  have base: "pc_base (sg_portal sg) = cs_base_host (cf_server cfg)" by (simp add: t(4) serve_portal_def new_portal_def)
  have f: "serving_inv sg (fresh_memory cfg w5)"
    using ok5 fresh_sites_ok [of sg cfg] base
    by (simp add: serving_inv_def site_view_def fresh_memory_def t(4) world_ok_def)
  have an: "preserves (serving_inv sg) (announce cfg)"
    unfolding announce_def report_def by (intro preserves_intro preserves_writing preserves_forR) simp_all
  have "serving_inv sg w0" unfolding t(5)
    by (rule preserves_pair [OF keeps_purge t(3) preserves_pair [OF an t(2)
        preserves_pair [OF keeps_tolerate [OF serve_sync_keeps] t(1) f]]])
  moreover have "\<exists>issuer oc key d. se_provider se issuer oc key d = Inr (os_provider srv)"
    using s(4) by (auto simp: new_oidc_server_def bindR_Inr_iff Let_def lift_result_run map_error_Inr_iff ret_run throw_run
        split: if_splits option.splits; blast)
  ultimately show ?thesis using 1 by (intro exI [of _ cfg] conjI) (simp_all add: t(4) set_portal_def)
qed

subsection \<open>The code that is not nass's\<close>

text \<open>What is asked of the foreign code that a start is given: the handlers of the OIDC library and the hooks of the
  registered apps keep the constraints of the schema, as everything does that goes through the driver, and they
  have no hold of the routes.\<close>

definition harmless :: "('r serve_state_scheme) serve_env \<Rightarrow> bool" where
  "harmless se \<longleftrightarrow>
     (\<forall>issuer cfg key dev p meth r w. se_provider se issuer cfg key dev = Inr p \<longrightarrow> world_ok w \<longrightarrow>
        world_ok (snd (op_handler p meth r w)) \<and> site_view (snd (op_handler p meth r w)) = site_view w) \<and>
     (\<forall>sp \<in> set (ce_registry se). \<forall>f ic. sp_pre_up sp = Some f \<or> sp_post_up sp = Some f \<longrightarrow>
        preserves world_ok (f ic) \<and> frame site_view (f ic))"

lemma serve_portal_fields:
  "ac_reload (serve_portal se cfg dev) = Some (serve_sync (ce_ip6 se) (se_hop se) (portal_host_url cfg dev))"
  "ac_registry (serve_portal se cfg dev) = ce_registry se" "ac_uninstall (serve_portal se cfg dev) = uninstall_app"
  "ac_install (serve_portal se cfg dev) = install_app (ce_bcrypt se) (ce_ip6 se)"
  by (simp_all add: serve_portal_def new_portal_def)

lemma install_keeps_sites:
  assumes "harmless se" "sp \<in> set (ce_registry se)"
  shows "preserves (serving_inv sg) (install_app bc ip6 ico (Some sp))"
proof (rule serving_frame)
  show "preserves world_ok (install_app bc ip6 ico (Some sp))"
    by (rule install_keeps_world) (use assms in \<open>auto simp: harmless_def\<close>)
  show "frame site_view (install_app bc ip6 ico (Some sp))"
    by (rule site_view.frame_install) (use assms in \<open>auto simp: harmless_def\<close>)
qed

lemma start_safe:
  assumes "harmless se" "sg_portal sg = serve_portal se cfg dev" "lg_portal (os_login (sg_oidc sg)) = Some (portal_link_of p)"
    and "se_provider se issuer oc key dev' = Inr (os_provider (sg_oidc sg))"
  shows "serving_safe sg"
proof -
  have op: "keeps (serving_inv sg) (op_handler (os_provider (sg_oidc sg)) meth r)" for meth r
    using assms(1,4) unfolding harmless_def keeps_def serving_inv_def by metis
  have sync: "preserves (serving_inv sg) (reload (sg_portal sg))"
    by (simp add: assms(2) reload_def serve_portal_fields serve_sync_keeps)
  have un: "preserves (serving_inv sg) (uninstall_app uc)" for uc
    by (rule serving_frame [OF preserves_uninstall site_view.frame_uninstall])
  have ins: "preserves (serving_inv sg) (install_app bc ip6 ico (get_spec n (ce_registry se)))" for bc ip6 ico n
    using spec_registered [of n "serve_portal se cfg dev"] install_keeps_sites [OF assms(1)]
    by (auto simp: serve_portal_fields install_without_spec intro: preserves_intro)
  have "preserves (serving_inv sg) (run_task (sg_portal sg) task)" for task
    unfolding run_task_def
    by (cases task) (auto simp: assms(2) serve_portal_fields ins un intro!: preserves_intro sync [unfolded assms(2)])
  then show ?thesis unfolding serving_safe_def using op sync assms(3) by blast
qed

end
