(* ===== verification/Front_Door.thy ===== *)
theory Front_Door
  imports Serve_Process
begin

text \<open>
  What the running process of Serve_Process guarantees at its front door, in every state it can reach from a start that
  succeeded: which handler answers at which host, who is let through to an app and under which name, and
  that an app which an operator enables on the command line is served after the next synchronisation. Also what a portal
  on a subdomain of its own does to the sign-in.
\<close>

text \<open>A state of a process that started with these parameters, whatever happened since.\<close>

definition running :: "('r serve_state_scheme) serve_env \<Rightarrow> serve_flags \<Rightarrow> 'r serve_state_scheme \<Rightarrow>
    ('r serve_state_scheme) serving \<Rightarrow> 'r serve_state_scheme \<Rightarrow> bool" where
  "running se fl w sg w1 \<longleftrightarrow> world_ok w \<and> harmless se \<and>
     (\<exists>w0. serve_start se fl w = (Inr sg, w0) \<and> (serve_step sg)\<^sup>*\<^sup>* w0 w1)"

lemma running_inv:
  assumes "running se fl w sg w1"
  shows "serving_inv sg w1"
proof -
  obtain w0 where w: "world_ok w" "harmless se" "serve_start se fl w = (Inr sg, w0)" "(serve_step sg)\<^sup>*\<^sup>* w0 w1"
    using assms by (auto simp: running_def)
  obtain cfg p issuer oc key d where f: "sg_portal sg = serve_portal se cfg (sf_insecure fl \<or> sf_no_https fl)" "serving_inv sg w0"
      "lg_portal (os_login (sg_oidc sg)) = Some (portal_link_of p)" "se_provider se issuer oc key d = Inr (os_provider (sg_oidc sg))"
    using serve_start_Inr [OF w(3,1)] by blast
  show ?thesis by (rule run_keeps_sites [OF w(4) start_safe [OF w(2) f(1,3,4)] f(2)])
qed

lemma running_config:
  assumes "running se fl w sg w1"
  shows "\<exists>cfg. fst (load_config (cli_env.truncate se) w) = Inr cfg \<and>
    sg_portal sg = serve_portal se cfg (sf_insecure fl \<or> sf_no_https fl) \<and> sg_auth_host sg = auth_host cfg \<and>
    sg_portal_host sg = portal_host cfg \<and> sg_gate_url sg = portal_host_url cfg (sf_insecure fl \<or> sf_no_https fl) \<and>
    sg_hop sg = se_hop se \<and> lg_portal (os_login (sg_oidc sg)) = Some (portal_link_of (portal_config.truncate (sg_portal sg)))"
  using assms serve_start_Inr unfolding running_def by blast

lemma front_door_at:
  "front_door sg meth r w = (case sv_routes (sr_router w) (to_lower (strip_port (rq_host r))) of
     None \<Rightarrow> site_handler sg meth (sv_fallback (sr_router w)) | Some s \<Rightarrow> site_handler sg meth s) (drop_identity r) w"
  by (simp add: front_door_def serve_http_def split: option.split)

lemma door_sites:
  assumes "serving_inv sg w" "h = to_lower (strip_port (rq_host r))"
  shows "h = to_lower (sg_portal_host sg) \<Longrightarrow> front_door sg meth r w = mount (sg_portal sg) meth (drop_identity r) w"
    and "h = to_lower (sg_auth_host sg) \<Longrightarrow> h \<noteq> to_lower (sg_portal_host sg) \<Longrightarrow>
      front_door sg meth r w = oidc_handler (sg_oidc sg) meth (drop_identity r) w"
    and "h \<notin> own_hosts sg \<Longrightarrow> front_door sg meth r w = not_found (drop_identity r) w \<or>
      (\<exists>a d. sv_routes (sr_router w) h = Some (AppSite a) \<and> rte_host a = h \<and> a \<in> set (enabled_routes (pc_base (sg_portal sg)) d) \<and>
        front_door sg meth r w = app_handler sg a (drop_identity r) w)"
proof -
  have ok: "sites_ok sg (sr_router w, sr_manager w)" using assms(1) by (simp add: serving_inv_def site_view_def)
  show "front_door sg meth r w = mount (sg_portal sg) meth (drop_identity r) w" if "h = to_lower (sg_portal_host sg)"
    using ok that assms(2) by (simp add: sites_ok_def front_door_at site_handler_def)
  show "front_door sg meth r w = oidc_handler (sg_oidc sg) meth (drop_identity r) w"
    if "h = to_lower (sg_auth_host sg)" "h \<noteq> to_lower (sg_portal_host sg)"
    using ok that assms(2) by (simp add: sites_ok_def front_door_at site_handler_def)
  show "front_door sg meth r w = not_found (drop_identity r) w \<or>
      (\<exists>a d. sv_routes (sr_router w) h = Some (AppSite a) \<and> rte_host a = h \<and> a \<in> set (enabled_routes (pc_base (sg_portal sg)) d) \<and>
        front_door sg meth r w = app_handler sg a (drop_identity r) w)" if other: "h \<notin> own_hosts sg"
  proof (cases "sv_routes (sr_router w) h")
    case None
    then show ?thesis using ok assms(2) by (simp add: sites_ok_def front_door_at site_handler_def)
  next
    case (Some s)
    then obtain a d where "s = AppSite a" "rte_host a = h" "a \<in> set (enabled_routes (pc_base (sg_portal sg)) d)"
      using ok other unfolding sites_ok_def prod.case by blast
    then show ?thesis using Some assms(2) by (auto simp: front_door_at site_handler_def)
  qed
qed

subsection \<open>The hosts of nass itself\<close>

text \<open>C2: nass's own hosts stay with nass: whatever requests, jobs, synchronisations and other processes do after a
  start that succeeded, and whatever rows the table of apps holds, the portal answers at the portal's host,
  the OIDC provider at its host (unless the two are one), and at any other host either nobody does or the
  one app whose own host it is; the constraints of the database hold throughout. (The app hooks, as
  \<open>shipped_apps_keep_out\<close> shows of nass's own, and the handlers of the OIDC library keep these constraints and have no hold of
  the routes.)\<close>

theorem nass_hosts_stay:
  assumes "running se fl w sg w1" "h = to_lower (strip_port (rq_host r))"
  shows "world_ok w1 \<and>
    (if h = to_lower (sg_portal_host sg) then front_door sg meth r w1 = mount (sg_portal sg) meth (drop_identity r) w1
     else if h = to_lower (sg_auth_host sg) then front_door sg meth r w1 = oidc_handler (sg_oidc sg) meth (drop_identity r) w1
     else front_door sg meth r w1 = not_found (drop_identity r) w1 \<or>
       (\<exists>a. rte_host a = h \<and> front_door sg meth r w1 = app_handler sg a (drop_identity r) w1))"
proof -
  note inv = running_inv [OF assms(1)]
  have "h \<notin> own_hosts sg" if "h \<noteq> to_lower (sg_portal_host sg)" "h \<noteq> to_lower (sg_auth_host sg)"
    using that by (simp add: own_hosts_def)
  then show ?thesis using inv door_sites [OF inv assms(2)] by (auto simp: serving_inv_def)
qed

subsection \<open>Who reaches an app\<close>

lemma app_handler_cases:
  "app_handler sg a = (not_found :: 'r world_scheme handler) \<or>
   (\<exists>opts prx. new_reverse_proxy (sg_hop sg) opts = Inr prx \<and>
     app_handler sg a = (if st_oidc_gate (rte_settings a) then gate_wrap (sg_gate_url sg) prx else prx))"
  unfolding app_handler_def handler_for_def by (auto split: sum.splits)

text \<open>C1: The whole way to an app: in any state that the process can reach, a request at a host other than nass's own is
  forwarded only to the app whose host it is; if the app asks for the gate, only with the cookie of a valid session
  and with no identity but that of the session's user in the four identity headers, and otherwise with none. (The proxy
  library may drop identity headers before it forwards, but does not change them; the app hooks and the OIDC library
  keep the constraints of the database and have no hold of the routes.)\<close>

theorem forwarded_as_allowed:
  assumes "running se fl w sg w1" "to_lower (strip_port (rq_host r)) \<notin> own_hosts sg"
    and "front_door sg meth r w1 = ((Proxied out, cks), w2)"
    and "\<forall>h. \<forall>k \<in> set identity_headers. se_hop se h k = h k \<or> se_hop se h k = []"
  shows "\<exists>a. sv_routes (sr_router w1) (to_lower (strip_port (rq_host r))) = Some (AppSite a) \<and>
    rte_host a = to_lower (strip_port (rq_host r)) \<and>
    (if st_oidc_gate (rte_settings a) then \<exists>s. session_valid w1 r s \<and>
       (\<forall>k \<in> set identity_headers. rq_headers out k = [] \<or> rq_headers out k = identity_of (pn_user s) k)
     else \<forall>k \<in> set identity_headers. rq_headers out k = [])"
proof -
  let ?h = "to_lower (strip_port (rq_host r))"
  have "front_door sg meth r w1 \<noteq> not_found (drop_identity r) w1" using assms(3) by (simp add: not_found_def)
  then obtain a where a: "sv_routes (sr_router w1) ?h = Some (AppSite a)" "rte_host a = ?h"
      "front_door sg meth r w1 = app_handler sg a (drop_identity r) w1"
    using door_sites(3) [OF running_inv [OF assms(1)] refl assms(2)] by blast
  have "app_handler sg a \<noteq> not_found" using a(3) \<open>front_door sg meth r w1 \<noteq> not_found (drop_identity r) w1\<close> by auto
  then obtain opts prx where p: "new_reverse_proxy (sg_hop sg) opts = Inr prx"
      "app_handler sg a = (if st_oidc_gate (rte_settings a) then gate_wrap (sg_gate_url sg) prx else prx)"
    using app_handler_cases by blast
  define sv where "sv = \<lparr>sv_routes = (\<lambda>_. Some (app_handler sg a)), sv_fallback = not_found\<rparr>"
  have "serve_http sv r w1 = ((Proxied out, cks), w2)" using a(3) assms(3) by (simp add: sv_def serve_http_def)
  moreover have "sv_routes sv ?h = Some (if st_oidc_gate (rte_settings a) then gate_wrap (sg_gate_url sg) prx else prx)"
    by (simp add: sv_def p(2))
  moreover have "\<forall>h. \<forall>k \<in> set identity_headers. sg_hop sg h k = h k \<or> sg_hop sg h k = []"
    using assms(4) running_config [OF assms(1)] by metis
  ultimately show ?thesis using forwarded_identity [OF _ p(1)] a(1,2) by blast
qed

subsection \<open>From the command line to the front door\<close>

lemma app_enable_Inr:
  assumes "app_enable_cmd ce name ef w = (Inr u, w')" "fst (load_config ce w) = Inr cfg"
  shows "reserved_clash cfg (ef_subdomain ef) = None \<and> ef_subdomain ef \<noteq> [] \<and> ef_backend ef \<noteq> [] \<and>
    (\<exists>a. app_by name (w_db w') = Some a \<and> ap_enabled a = 1 \<and> ap_settings a = Json (enable_settings ef))"
proof -
  obtain w1 where c: "load_config ce w = (Inr cfg, w1)" using assms(2) by (metis prod.collapse)
  have n: "ef_subdomain ef \<noteq> []" "ef_backend ef \<noteq> []"
    using assms(1) by (auto simp: app_enable_cmd_def throw_run split: if_splits)
  then obtain w2 u3 w3 l where r: "reserved_clash cfg (ef_subdomain ef) = None"
      and s: "save_settings name (enable_settings ef) w2 = (Inr u3, w3)" "say l w3 = (Inr u, w')"
    using assms(1) c by (auto simp: app_enable_cmd_def with_db_def bindR_Inr_iff throw_run split: option.splits)
  then have "w_db w' = w_db w3" by (auto simp: say_def writing_run)
  with n r save_settings_Inr [OF s(1)] show ?thesis by auto
qed

lemma handler_for_valid:
  fixes wrap :: "'w handler \<Rightarrow> 'w handler"
  assumes "parse_backend ip6 (st_backend (rte_settings a)) = Inr u"
  shows "\<exists>opts prx. new_reverse_proxy hop opts = Inr prx \<and> bo_backend opts = Some u \<and>
    handler_for ip6 hop (Some wrap) a = Inr (if st_oidc_gate (rte_settings a) then wrap prx else prx)"
proof -
  define opts where "opts = \<lparr>bo_backend = Some u, bo_flush = 0, bo_max_idle = 0,
    bo_timeout = (if 0 < st_timeout (rte_settings a) then st_timeout (rte_settings a) * second else 0),
    bo_preserve = st_preserve_host (rte_settings a)\<rparr>"
  then have "bo_backend opts = Some u" by simp
  moreover obtain prx :: "'w handler" where p: "new_reverse_proxy hop opts = Inr prx" by (simp add: opts_def new_reverse_proxy_def Let_def)
  moreover have "handler_for ip6 hop (Some wrap) a = Inr (if st_oidc_gate (rte_settings a) then wrap prx else prx)"
    unfolding handler_for_def assms sum.case opts_def [symmetric] p by simp
  ultimately show ?thesis by blast
qed

lemma clash_none: "reserved_clash cfg sub = None \<Longrightarrow>
    to_lower (sub @ ''.'' @ cs_base_host (cf_server cfg)) \<notin> {to_lower (auth_host cfg), to_lower (portal_host cfg)}"
  unfolding reserved_clash_def find_None_iff by auto

lemma tick_routes:
  assumes "serving_inv sg w" "w_faults w = []" "reload (sg_portal sg) = serve_sync ip6 hop url"
    and "first_ok (site_for ip6 hop url) (own_hosts sg) (enabled_routes (pc_base (sg_portal sg)) (w_db w)) h = Some r"
  shows "sv_routes (sr_router (snd (serve_tick sg w))) h = Some (AppSite r)"
proof -
  have ok: "db_ok (w_db w)" "rm_base (sr_manager w) = pc_base (sg_portal sg)" "rm_reserved (sr_manager w) = own_hosts sg"
      "rm_inv (sr_manager w)"
    using assms(1) by (simp_all add: serving_inv_def world_ok_def site_view_def sites_ok_def)
  obtain ps m sv where s: "sync_with (site_for ip6 hop url) (enabled_routes (rm_base (sr_manager w)) (w_db w))
      (snd (resolve_rows (rm_base (sr_manager w)) (enabled_rows (w_db w)))) (sr_manager w) (sr_router w) = (ps, m, sv)"
    by (metis prod_cases3)
  have "site_for ip6 hop url r = Inr (AppSite r)"
    using first_okD [OF assms(4)] site_for_host [of ip6 hop url r] by (cases "site_for ip6 hop url r") (auto simp: eligible_def)
  then have "sv_routes sv h = Some (AppSite r)"
    using sync_with_spec(1) [OF s enabled_routes_ok [OF ok(1)]] ok(2-4) assms(4) by (simp add: rm_inv_def)
  moreover have "snd (serve_sync ip6 hop url w) = w\<lparr>sr_manager := m, sr_router := sv\<rparr>"
    using s assms(2)
    by (simp add: serve_sync_def bindR_run reading_run load_enabled_parts_def query_none ret_run enabled_routes_def
        enabled_rows_def case_prod_beta)
  ultimately show ?thesis
    by (auto simp: serve_tick_def tolerate_def assms(3) bindR_run attempt_run report_def writing_run ret_run
        split: prod.split sum.split)
qed

text \<open>C3: An app that an operator enables while nass is running is served, without a restart: after a successful
  \<^verbatim>\<open>nass app enable\<close> with a valid backend, if no other app has the same host, the next synchronisation of
  the running process puts the app behind the front door at its host, with the settings given, gated if asked. (Until then the
  database stays as the command left it, and the statements of the synchronisation do not fail.)\<close>

theorem enabled_app_served:
  fixes w1 :: "'r serve_state_scheme"
  assumes "app_enable_cmd ce name ef wc = (Inr (), wc')" "fst (load_config ce wc) = Inr cfg"
    and "running se fl w sg w1" "fst (load_config (cli_env.truncate se) w) = Inr cfg"
    and "w_db w1 = w_db wc'" "w_faults w1 = []" "parse_backend (ce_ip6 se) (ef_backend ef) = Inr u"
    and "h = to_lower (ef_subdomain ef @ ''.'' @ cs_base_host (cf_server cfg))" "to_lower (strip_port (rq_host r)) = h"
    and "\<forall>q \<in> set (enabled_routes (cs_base_host (cf_server cfg)) (w_db w1)). rte_host q = h \<longrightarrow> rte_name q = name"
  shows "\<exists>a opts prx. rte_name a = name \<and> rte_settings a = enable_settings ef \<and>
    front_door sg meth r (snd (serve_tick sg w1)) = app_handler sg a (drop_identity r) (snd (serve_tick sg w1)) \<and>
    new_reverse_proxy (se_hop se) opts = Inr prx \<and> bo_backend opts = Some u \<and>
    app_handler sg a = (if ef_gate ef then gate_wrap (sg_gate_url sg) prx else prx)"
proof -
  have f: "sg_portal sg = serve_portal se cfg (sf_insecure fl \<or> sf_no_https fl)" "sg_auth_host sg = auth_host cfg"
      "sg_portal_host sg = portal_host cfg" "sg_hop sg = se_hop se"
    using running_config [OF assms(3)] assms(4) by auto
  let ?url = "portal_host_url cfg (sf_insecure fl \<or> sf_no_https fl)"
  have base: "pc_base (sg_portal sg) = cs_base_host (cf_server cfg)" "pc_ip6 (sg_portal sg) = ce_ip6 se"
    by (simp_all add: f(1) serve_portal_def new_portal_def)
  note inv = running_inv [OF assms(3)]
  then have db: "db_ok (w_db w1)" by (simp add: serving_inv_def world_ok_def)
  obtain row where row: "app_by name (w_db w1) = Some row" "ap_enabled row = 1" "ap_settings row = Json (enable_settings ef)"
    and e: "reserved_clash cfg (ef_subdomain ef) = None" "ef_subdomain ef \<noteq> []" "ef_backend ef \<noteq> []"
    using app_enable_Inr [OF assms(1,2)] assms(5) by auto
  define a where "a = \<lparr>rte_name = name, rte_host = h, rte_settings = enable_settings ef\<rparr>"
  have m: "row \<in> set (db_apps (w_db w1))" "ap_name row = name" using row(1) by (auto simp: app_by_def dest: row_by_Some)
  have ra: "resolve_row (pc_base (sg_portal sg)) row = Inr a"
    using row(3) m(2) e(2,3) by (simp add: resolve_row_def base a_def assms(8) enable_settings_def)
  have bk: "parse_backend (ce_ip6 se) (st_backend (rte_settings a)) = Inr u"
    using assms(7) by (simp add: a_def enable_settings_def)
  have "\<exists>s. site_for (ce_ip6 se) (se_hop se) ?url a = Inr s"
    using handler_for_valid [OF bk, of "se_hop se" "gate_wrap ?url :: world handler \<Rightarrow> world handler"]
    by (auto simp: site_for_def)
  moreover have hn: "h \<notin> own_hosts sg" using clash_none [OF e(1)] by (simp add: own_hosts_def f assms(8))
  ultimately have "eligible (site_for (ce_ip6 se) (se_hop se) ?url) (own_hosts sg) a" by (auto simp: eligible_def a_def)
  then have "first_ok (site_for (ce_ip6 se) (se_hop se) ?url) (own_hosts sg)
      (enabled_routes (pc_base (sg_portal sg)) (w_db w1)) (rte_host a) = Some a"
    by (rule first_claim [OF db m(1) row(2) ra]) (use assms(10) in \<open>auto simp: a_def base\<close>)
  then have "sv_routes (sr_router (snd (serve_tick sg w1))) h = Some (AppSite a)"
    using tick_routes [OF inv assms(6)] by (simp add: reload_def f(1) serve_portal_fields a_def)
  then have "front_door sg meth r (snd (serve_tick sg w1)) = app_handler sg a (drop_identity r) (snd (serve_tick sg w1))"
    by (simp add: front_door_at assms(9) site_handler_def)
  moreover obtain opts and prx :: "'r serve_state_scheme handler" where x: "new_reverse_proxy (se_hop se) opts = Inr prx" "bo_backend opts = Some u"
      "handler_for (ce_ip6 se) (se_hop se) (Some (gate_wrap (sg_gate_url sg))) a =
        Inr (if st_oidc_gate (rte_settings a) then gate_wrap (sg_gate_url sg) prx else prx)"
    using handler_for_valid [OF bk] by blast
  moreover have "app_handler sg a = (if st_oidc_gate (rte_settings a) then gate_wrap (sg_gate_url sg) prx else prx)"
    by (simp add: app_handler_def base f(4) x(3))
  ultimately show ?thesis by (intro exI [of _ a] exI) (auto simp: a_def enable_settings_def)
qed

subsection \<open>A portal on a subdomain\<close>

lemma route_host_length:
  assumes "a \<in> set (enabled_routes base d)"
  shows "length base < length (rte_host a)"
proof -
  obtain row where r: "resolve_row base row = Inr a" using assms by (auto simp: enabled_routes_def resolve_rows_in)
  then have "\<exists>sub. rte_host a = to_lower (sub @ ''.'' @ base)"
    by (auto simp: resolve_row_def simp del: append_Cons append_Nil split: sum.splits if_splits)
  then show ?thesis by (auto simp: to_lower_def)
qed

text \<open>C40: A portal on a subdomain of its own breaks the sign-in: \<open>LoginURL\<close> sends a visitor of the OIDC login to the
  base host, where with \<^verbatim>\<open>portal.subdomain\<close> and \<^verbatim>\<open>oidc.subdomain\<close> set nothing is served, in any state that the
  process can reach: the browser ends at a 404.\<close>

theorem portal_subdomain_breaks_login:
  assumes "running se fl w sg w1" "fst (load_config (cli_env.truncate se) w) = Inr cfg"
    and "cp_subdomain (cf_portal cfg) \<noteq> []" "ci_subdomain (cf_oidc cfg) \<noteq> []"
    and "to_lower (strip_port (rq_host r)) = to_lower (cs_base_host (cf_server cfg))"
  shows "front_door sg meth r w1 = ((HttpError 404 (''no route for host '' @ rq_host r), []), w1) \<and>
    (\<exists>pl scheme. lg_portal (os_login (sg_oidc sg)) = Some pl \<and> (\<forall>to. pk_login_url pl to =
       scheme @ ''://'' @ cs_base_host (cf_server cfg) @ ''/portal/login?next='' @ query_escape to))"
proof -
  have f: "sg_portal sg = serve_portal se cfg (sf_insecure fl \<or> sf_no_https fl)" "sg_auth_host sg = auth_host cfg"
      "sg_portal_host sg = portal_host cfg"
      "lg_portal (os_login (sg_oidc sg)) = Some (portal_link_of (portal_config.truncate (sg_portal sg)))"
    using running_config [OF assms(1)] assms(2) by auto
  have base: "pc_base (sg_portal sg) = cs_base_host (cf_server cfg)" by (simp add: f(1) serve_portal_def new_portal_def)
  let ?h = "to_lower (cs_base_host (cf_server cfg))"
  have len: "length (to_lower x) = length x" for x by (simp add: to_lower_def)
  have "length (to_lower (auth_host cfg)) > length ?h" "length (to_lower (portal_host cfg)) > length ?h"
    unfolding len using assms(3,4) by (simp_all add: auth_host_def portal_host_def)
  then have "?h \<notin> own_hosts sg" by (auto simp: own_hosts_def f)
  moreover have "rte_host a \<noteq> ?h" if "a \<in> set (enabled_routes (pc_base (sg_portal sg)) d)" for a d
    using route_host_length [OF that] len base by auto
  ultimately have "front_door sg meth r w1 = not_found (drop_identity r) w1"
    using door_sites(3) [OF running_inv [OF assms(1)] refl, of r meth] assms(5) by (metis (no_types, lifting))
  then show ?thesis
    using f(4) base
    by (auto simp: not_found_def portal_link_of_def login_url_def portal_url_def portal_config.defs)
qed

subsection \<open>A process to try it on\<close>

text \<open>The configuration file holds the base host; the portal's subdomain is an argument. One app is enabled, behind the gate.\<close>

definition sample_serve_env :: "string \<Rightarrow> serve_state serve_env" where
  "sample_serve_env sub = \<lparr>ev_cwd = Inr ''/n'',
     ev_decode = (\<lambda>body c. Inr (c\<lparr>cf_server := (cf_server c)\<lparr>cs_base_host := body\<rparr>,
       cf_portal := (cf_portal c)\<lparr>cp_subdomain := sub\<rparr>\<rparr>)),
     ev_encode = (\<lambda>c. cs_base_host (cf_server c)), ce_config = ''nass.toml'', ce_password = [], ce_terminal = None,
     ce_bcrypt = sample_bcrypt, ce_ip6 = (\<lambda>_. None), ce_registry = [],
     se_parsers = \<lparr>kp_pem = Some, kp_pkcs8 = (\<lambda>b. Inr (RsaKey b))\<rparr>,
     se_provider = (\<lambda>issuer cfg key dev. Inr \<lparr>op_handler = (\<lambda>_. not_found),
       op_callback = (\<lambda>i. issuer @ ''/authorize/callback?id='' @ i), op_issuer = issuer\<rparr>),
     se_hop = id, se_keypair = (\<lambda>_ _. Inr ())\<rparr>"

definition sample_serve_flags :: serve_flags where
  "sample_serve_flags = \<lparr>sf_listen = '':8080'', sf_listen_http = [], sf_insecure = False, sf_no_https = True\<rparr>"

definition sample_serve_world :: serve_state where
  "sample_serve_world = \<lparr>w_db = sample_admin_db\<lparr>db_apps := [\<lparr>ap_name = ''blog'', ap_enabled = 1,
       ap_settings = Json (zero_settings\<lparr>st_subdomain := ''Blog'', st_backend := ''http://127.0.0.1:3000'', st_oidc_gate := True\<rparr>),
       ap_enabled_at = Some 0\<rparr>]\<rparr>, w_faults = [], w_clock = 0, w_rand = [],
     hs_fs = [(''/n'', FsDir), (''/n/nass.toml'', FsFile ''nas.ex''), (''/n/oidc.key'', FsFile ''k''),
       (''/n/oidc-crypto.key'', FsFile (replicate 32 CHR ''x''))],
     hs_disk_faults = [], hs_cmds = [], hs_outs = [], hs_busy = {}, hs_polls = None, hs_net = [], hs_reqs = [],
     pt_throttle = None, pt_jobs = [], as_next = 0, as_tasks = [], as_log = [],
     sr_router = \<lparr>sv_routes = (\<lambda>_. None), sv_fallback = NoSite\<rparr>, sr_manager = new_route_manager [], sr_out = []\<rparr>"

definition sample_start :: "string \<Rightarrow> (error + serve_state serving) \<times> serve_state" where
  "sample_start sub = serve_start (sample_serve_env sub) sample_serve_flags sample_serve_world"

definition sample_blog_request :: request where
  "sample_blog_request = (sample_cookies ''bb'')\<lparr>rq_host := ''blog.nas.ex''\<rparr>"

lemma sample_harmless: "harmless (sample_serve_env sub)"
  by (simp add: harmless_def sample_serve_env_def not_found_def)

lemma sample_serve_ok: "world_ok sample_serve_world"
  by (simp add: world_ok_def sample_serve_world_def sample_admin_db_def sample_row_def db_ok_def empty_db_def user_ids_def)

lemma sample_started:
  assumes "sample_start sub = (Inr sg, w)"
  shows "running (sample_serve_env sub) sample_serve_flags sample_serve_world sg w"
  using assms sample_harmless sample_serve_ok unfolding running_def sample_start_def by blast

definition sample_checks :: "serve_state serving \<Rightarrow> serve_state \<Rightarrow> bool" where
  "sample_checks sg w \<longleftrightarrow> sg_portal_host sg = ''nas.ex'' \<and> sg_auth_host sg = ''auth.nas.ex'' \<and> w_faults w = [] \<and>
     (case front_door sg ''GET'' sample_blog_request w of
        ((Proxied out, _), _) \<Rightarrow> rq_headers out ''Remote-User'' = [''ana''] | _ \<Rightarrow> False)"

lemma sample_start_run: "case sample_start [] of (Inl e, _) \<Rightarrow> False | (Inr sg, w) \<Rightarrow> sample_checks sg w"
  by code_simp

lemma sample_start_obtain:
  obtains sg w where "sample_start [] = (Inr sg, w)" "sample_checks sg w"
  using sample_start_run by (auto split: prod.splits sum.splits)

lemma nass_hosts_stay_witness:
  "\<exists>sg w1. running (sample_serve_env []) sample_serve_flags sample_serve_world sg w1 \<and>
     front_door sg ''GET'' ((sample_cookies ''bb'')\<lparr>rq_host := ''NAS.ex:443''\<rparr>) w1 =
     mount (sg_portal sg) ''GET'' (drop_identity ((sample_cookies ''bb'')\<lparr>rq_host := ''NAS.ex:443''\<rparr>)) w1"
proof -
  let ?r = "(sample_cookies ''bb'')\<lparr>rq_host := ''NAS.ex:443''\<rparr>"
  obtain sg w where s: "sample_start [] = (Inr sg, w)" "sample_checks sg w" by (rule sample_start_obtain)
  have h: "to_lower (strip_port (rq_host ?r)) = to_lower ''nas.ex''" by code_simp
  show ?thesis
    using nass_hosts_stay [OF sample_started [OF s(1)] refl, of ?r "''GET''"] sample_started [OF s(1)] s(2) h
    by (auto simp: sample_checks_def)
qed

lemma forwarded_as_allowed_witness:
  "\<exists>sg (w1 :: serve_state) out cks w2 a. front_door sg ''GET'' sample_blog_request w1 = ((Proxied out, cks), w2) \<and>
     rq_headers out ''Remote-User'' = [''ana''] \<and> sv_routes (sr_router w1) ''blog.nas.ex'' = Some (AppSite a) \<and>
     st_oidc_gate (rte_settings a) \<and>
     (\<exists>s. session_valid w1 sample_blog_request s \<and> identity_of (pn_user s) ''Remote-User'' = [''ana''])"
proof -
  obtain sg w where s: "sample_start [] = (Inr sg, w)" "sample_checks sg w" by (rule sample_start_obtain)
  then obtain out cks w2 where o: "front_door sg ''GET'' sample_blog_request w = ((Proxied out, cks), w2)"
      "rq_headers out ''Remote-User'' = [''ana'']"
    by (auto simp: sample_checks_def split: prod.splits response.splits)
  have h: "to_lower (strip_port (rq_host sample_blog_request)) = ''blog.nas.ex''" "to_lower ''nas.ex'' = ''nas.ex''"
      "to_lower ''auth.nas.ex'' = ''auth.nas.ex''" by code_simp+
  have n: "to_lower (strip_port (rq_host sample_blog_request)) \<notin> own_hosts sg"
    using s(2) by (simp add: own_hosts_def h sample_checks_def)
  have k: "\<forall>h. \<forall>k \<in> set identity_headers. se_hop (sample_serve_env []) h k = h k \<or> se_hop (sample_serve_env []) h k = []"
    by (simp add: sample_serve_env_def)
  have u: "''Remote-User'' \<in> set identity_headers" by (simp add: identity_headers_def)
  from forwarded_as_allowed [OF sample_started [OF s(1)] n o(1) k]
  obtain a where a: "sv_routes (sr_router w) ''blog.nas.ex'' = Some (AppSite a)"
      "if st_oidc_gate (rte_settings a) then \<exists>s. session_valid w sample_blog_request s \<and>
         (\<forall>k \<in> set identity_headers. rq_headers out k = [] \<or> rq_headers out k = identity_of (pn_user s) k)
       else \<forall>k \<in> set identity_headers. rq_headers out k = []" by (auto simp: h)
  have "st_oidc_gate (rte_settings a)" using a(2) o(2) u by (auto split: if_splits)
  moreover obtain s' where "session_valid w sample_blog_request s'" "identity_of (pn_user s') ''Remote-User'' = [''ana'']"
    using a(2) o(2) u calculation by fastforce
  ultimately show ?thesis using o a(1) by blast
qed

text \<open>With the portal at \<^verbatim>\<open>home\<close> a visitor of the base host meets a 404.\<close>

lemma sample_home_run: "case load_config (cli_env.truncate (sample_serve_env ''home'')) sample_serve_world of
     (Inl e, _) \<Rightarrow> False
   | (Inr cfg, _) \<Rightarrow> cp_subdomain (cf_portal cfg) = ''home'' \<and> ci_subdomain (cf_oidc cfg) = ''auth'' \<and> cs_base_host (cf_server cfg) = ''nas.ex''"
  "case sample_start ''home'' of (Inl e, _) \<Rightarrow> False | (Inr sg, w) \<Rightarrow> True"
  by code_simp+

lemma portal_subdomain_breaks_login_witness:
  "\<exists>sg (w1 :: serve_state). running (sample_serve_env ''home'') sample_serve_flags sample_serve_world sg w1 \<and>
     fst (front_door sg ''GET'' ((sample_cookies ''bb'')\<lparr>rq_host := ''nas.ex''\<rparr>) w1) = (HttpError 404 ''no route for host nas.ex'', [])"
proof -
  let ?r = "(sample_cookies ''bb'')\<lparr>rq_host := ''nas.ex''\<rparr>"
  obtain sg w where s: "sample_start ''home'' = (Inr sg, w)"
    using sample_home_run(2) by (auto split: prod.splits sum.splits)
  obtain cfg where c: "fst (load_config (cli_env.truncate (sample_serve_env ''home'')) sample_serve_world) = Inr cfg"
      "cp_subdomain (cf_portal cfg) \<noteq> []" "ci_subdomain (cf_oidc cfg) \<noteq> []" "cs_base_host (cf_server cfg) = ''nas.ex''"
    using sample_home_run(1) by (auto split: prod.splits sum.splits)
  have "to_lower (strip_port (rq_host ?r)) = to_lower ''nas.ex''" by code_simp
  then have h: "to_lower (strip_port (rq_host ?r)) = to_lower (cs_base_host (cf_server cfg))" by (simp add: c(4))
  from portal_subdomain_breaks_login [OF sample_started [OF s] c(1-3) h, of "''GET''"] sample_started [OF s]
  show ?thesis by (intro exI [of _ sg] exI [of _ w]) simp
qed

text \<open>An operator enables a second app.\<close>

definition sample_cli_world :: cli where
  "sample_cli_world = \<lparr>w_db = w_db sample_serve_world, w_faults = [], w_clock = 0, w_rand = [], hs_fs = hs_fs sample_serve_world,
     hs_disk_faults = [], hs_cmds = [], hs_outs = [], hs_busy = {}, hs_polls = None, hs_net = [], hs_reqs = [], cli_out = []\<rparr>"

definition sample_wiki :: enable_flags where
  "sample_wiki = \<lparr>ef_subdomain = ''wiki'', ef_backend = ''http://127.0.0.1:4000'', ef_preserve_host = True, ef_gate = False,
     ef_timeout = 0\<rparr>"

definition sample_enabled :: "(error + unit) \<times> cli" where
  "sample_enabled = app_enable_cmd (cli_env.truncate (sample_serve_env [])) ''wiki'' sample_wiki sample_cli_world"

lemma sample_enabled_run:
  "case sample_enabled of (r, w) \<Rightarrow> r = Inr () \<and>
     list_all (\<lambda>q. rte_host q = ''wiki.nas.ex'' \<longrightarrow> rte_name q = ''wiki'') (enabled_routes ''nas.ex'' (w_db w))"
  "fst (load_config (cli_env.truncate (sample_serve_env [])) sample_cli_world) =
   fst (load_config (cli_env.truncate (sample_serve_env [])) sample_serve_world)"
  "case fst (load_config (cli_env.truncate (sample_serve_env [])) sample_serve_world) of Inl e \<Rightarrow> False
   | Inr cfg \<Rightarrow> cs_base_host (cf_server cfg) = ''nas.ex''"
  "parse_backend (\<lambda>_. None) ''http://127.0.0.1:4000'' = Inr \<lparr>u_scheme = ''http'', u_host = ''127.0.0.1:4000'', u_path = []\<rparr>"
  by code_simp+

lemma app_enable_ok: "preserves world_ok (app_enable_cmd ce name ef)"
proof -
  have "preserves world_ok (say l)" for l unfolding say_def by (rule preserves_writing) (simp add: world_ok_def)
  moreover have "preserves world_ok (save_settings name s)" for s unfolding save_settings_def by (intro preserves_intro)
  ultimately show ?thesis unfolding app_enable_cmd_def with_db_def by (intro preserves_intro start_frames)
qed

lemma enabled_app_served_witness:
  "\<exists>sg (w1 :: serve_state) a. rte_settings a = enable_settings sample_wiki \<and>
     front_door sg ''GET'' ((sample_cookies ''zz'')\<lparr>rq_host := ''wiki.nas.ex''\<rparr>) (snd (serve_tick sg w1)) =
     app_handler sg a (drop_identity ((sample_cookies ''zz'')\<lparr>rq_host := ''wiki.nas.ex''\<rparr>)) (snd (serve_tick sg w1))"
proof -
  let ?r = "(sample_cookies ''zz'')\<lparr>rq_host := ''wiki.nas.ex''\<rparr>" and ?se = "sample_serve_env []"
  obtain sg w where s: "sample_start [] = (Inr sg, w)" "sample_checks sg w" by (rule sample_start_obtain)
  obtain wc where e: "app_enable_cmd (cli_env.truncate ?se) ''wiki'' sample_wiki sample_cli_world = (Inr (), wc)"
      "\<forall>q \<in> set (enabled_routes ''nas.ex'' (w_db wc)). rte_host q = ''wiki.nas.ex'' \<longrightarrow> rte_name q = ''wiki''"
    using sample_enabled_run(1) by (auto simp: sample_enabled_def list_all_iff split: prod.splits)
  obtain cfg where c: "fst (load_config (cli_env.truncate ?se) sample_serve_world) = Inr cfg" "cs_base_host (cf_server cfg) = ''nas.ex''"
      "fst (load_config (cli_env.truncate ?se) sample_cli_world) = Inr cfg"
    using sample_enabled_run(2,3) by (auto split: sum.splits)
  define w1 where "w1 = w\<lparr>w_db := w_db wc\<rparr>"
  have "world_ok sample_cli_world" using sample_serve_ok by (simp add: world_ok_def sample_cli_world_def)
  then have "world_ok wc" by (rule preserves_pair [OF app_enable_ok e(1)])
  then have "serve_step sg w w1" by (intro serve_step.outside) (simp_all add: w1_def world_ok_def)
  then have run: "running ?se sample_serve_flags sample_serve_world sg w1"
    using sample_started [OF s(1)] unfolding running_def by (meson rtranclp.rtrancl_into_rtrancl)
  have h: "to_lower (strip_port (rq_host ?r)) = ''wiki.nas.ex''" "to_lower (''wiki'' @ ''.'' @ ''nas.ex'') = ''wiki.nas.ex''"
    by code_simp+
  have p: "parse_backend (ce_ip6 ?se) (ef_backend sample_wiki) = Inr \<lparr>u_scheme = ''http'', u_host = ''127.0.0.1:4000'', u_path = []\<rparr>"
    using sample_enabled_run(4) by (simp add: sample_serve_env_def sample_wiki_def)
  have hh: "''wiki.nas.ex'' = to_lower (ef_subdomain sample_wiki @ ''.'' @ cs_base_host (cf_server cfg))"
    by (simp only: c(2) sample_wiki_def enable_flags.simps h(2))
  have f: "w_db w1 = w_db wc" "w_faults w1 = []" using s(2) by (simp_all add: w1_def sample_checks_def)
  have q: "\<forall>q \<in> set (enabled_routes (cs_base_host (cf_server cfg)) (w_db w1)). rte_host q = ''wiki.nas.ex'' \<longrightarrow> rte_name q = ''wiki''"
    using e(2) f(1) c(2) by simp
  from enabled_app_served [OF e(1) c(3) run c(1) f p hh h(1) q, of "''GET''"] show ?thesis by blast
qed

end
