(* ===== verification/App_Hooks.thy ===== *)
theory App_Hooks
  imports App_Jellyfin App_Qbittorrent Front_Door
begin

text \<open>
  The hooks of the apps that nass ships (\<^verbatim>\<open>internal/apps/*/\<close>, registered by the imports of
  \<^verbatim>\<open>internal/cli/install.go\<close>) and what they leave alone. They work on files, commands and HTTP requests;
  so they change neither nass's database, nor the list of jobs, nor the routes. This is what the theories
  about installations, the portal and the running process ask of the hooks of a registry
  (\<open>hooks_keep_db\<close>, \<open>config_safe\<close>, \<open>config_leaves_jobs\<close>, \<open>harmless\<close>). The one piece of foreign code in them
  is the driver with which the Calibre-Web module writes that app's own database (\<open>seed\<close>).
\<close>

text \<open>An observation that does not look at the host's files, commands, network or failures to come.\<close>

locale hook_view =
  fixes g :: "'r host_scheme \<Rightarrow> 'b"
  assumes view_rand: "g (w\<lparr>w_rand := rs\<rparr>) = g w"
    and view_faults: "g (w\<lparr>w_faults := fs\<rparr>) = g w"
    and view_fs: "g (w\<lparr>hs_fs := h1\<rparr>) = g w"
    and view_disk: "g (w\<lparr>hs_disk_faults := h2\<rparr>) = g w"
    and view_cmds: "g (w\<lparr>hs_cmds := h3\<rparr>) = g w"
    and view_outs: "g (w\<lparr>hs_outs := h4\<rparr>) = g w"
    and view_polls: "g (w\<lparr>hs_polls := h5\<rparr>) = g w"
    and view_net: "g (w\<lparr>hs_net := h6\<rparr>) = g w"
    and view_reqs: "g (w\<lparr>hs_reqs := h7\<rparr>) = g w"
begin

lemmas view = view_rand view_faults view_fs view_disk view_cmds view_outs view_polls view_net view_reqs

lemma frame_host [preserves_intro]:
  "frame g disk_fault" "frame g (run_command argv)" "frame g ctx_done" "frame g (http_do m u b)"
  by (auto simp: frame_def disk_fault_def run_command_def ctx_done_def http_do_def run_simps view
      split: list.splits bool.splits option.splits nat.splits)

lemma frame_files [preserves_intro]:
  "frame g (mkdir_all p)" "frame g (write_file p s)" "frame g (read_file p)" "frame g (file_exists p)"
  unfolding file_exists_def mkdir_all_def write_file_def read_file_def
  by (intro frame_bindR frame_host; auto simp: frame_def Let_def run_simps view split: option.splits fs_node.splits)+

lemma frame_random [preserves_intro]: "frame g draw"
  by (intro preserves_intro; simp add: view)

lemma frame_timeout [preserves_intro]:
  assumes "frame g m"
  shows "frame g (with_timeout n m)"
  unfolding frame_def
proof
  fix w :: "'r host_scheme"
  let ?w = "w\<lparr>hs_polls := Some (case hs_polls w of None \<Rightarrow> n | Some k \<Rightarrow> min n k)\<rparr>"
  have "g (snd (m ?w)) = g ?w" using assms unfolding frame_def by blast
  then show "g (snd (with_timeout n m w)) = g w"
    by (simp add: with_timeout_def Let_def view case_prod_beta)
qed

lemma frame_poll [preserves_intro]: "frame g probe \<Longrightarrow> frame g (poll_until probe e)"
proof -
  assume p: "frame g probe"
  have "frame g (poll_loop n probe e)" for n
    by (induction n) (auto intro!: preserves_intro p split: option.split)
  then show ?thesis unfolding poll_until_def frame_def by blast
qed

lemma frame_docker [preserves_intro]:
  "frame g (orch_up o1 f)" "frame g (orch_restart o1 f)" "frame g (orch_kill o1 f s)"
  "frame g (orch_exec o1 f s a)" "frame g (orch_exec_as o1 f s u a)"
  unfolding orch_up_def orch_restart_def orch_kill_def orch_exec_def orch_exec_as_def orch_call_def orch_run_def
  by (intro preserves_intro)+

lemma frame_shared [preserves_intro]:
  "frame g (wait_app ip6 n t)" "frame g (restart_app ic)" "frame g (exec_in ic s a)" "frame g (exec_in_as ic s u a)"
  "frame g (post_json t b)"
  unfolding wait_app_def wait_for_def probe_get_def restart_app_def exec_in_def exec_in_as_def with_orch_def post_json_def
  by (intro preserves_intro; simp split: net_reply.split; intro conjI allI impI preserves_intro)+

lemma frame_wait_file [preserves_intro]: "frame g (wait_for_file n p)"
proof -
  have "frame g (wait_file_loop k p)" for k by (induction k) (auto intro!: preserves_intro)
  then have "frame g (\<lambda>w. wait_file_loop (wait_budget w) p w)" unfolding frame_def by blast
  then show ?thesis unfolding wait_for_file_def by (rule frame_timeout)
qed

lemma frame_seed_loop [preserves_intro]: "frame g (seed_oauth_provider ic)"
proof -
  have "frame g (seed_loop k ic sql)" for k sql
    by (induction k) (auto intro!: preserves_intro split: option.split)
  then show ?thesis unfolding seed_oauth_provider_def frame_def by blast
qed

lemma frame_module_hooks:
  "frame g (blinko_post_up ip6 ic)" "frame g (firefly_pre_up ic)" "frame g (firefly_post_up ip6 ic)"
  "frame g (gitea_post_up ip6 ic)" "frame g (immich_pre_up ic)" "frame g (immich_post_up ic)"
  "frame g (jitsi_pre_up host_ip ic)" "frame g (jitsi_post_up ip6 ic)" "frame g (linkwarden_post_up ip6 ic)"
  "frame g (miniflux_post_up ip6 ic)" "frame g (vaultwarden_post_up ip6 ic)" "frame g (nextcloud_post_up ip6 ic)"
  "frame g (paperless_pre_up py ic)" "frame g (paperless_post_up ip6 ic)" "frame g (vikunja_pre_up ic)"
  "frame g (vikunja_post_up ip6 ic)" "frame g (qbittorrent_post_up ip6 ic)"
  unfolding blinko_post_up_def firefly_pre_up_def firefly_post_up_def gitea_post_up_def create_admin_user_def
    add_oidc_provider_def gitea_command_def immich_pre_up_def immich_post_up_def probe_immich_def is_initialized_def
    jitsi_pre_up_def jitsi_post_up_def linkwarden_post_up_def miniflux_post_up_def vaultwarden_post_up_def
    nextcloud_post_up_def ensure_local_remote_servers_def checked_def paperless_pre_up_def paperless_post_up_def
    vikunja_pre_up_def chmod_dir_def vikunja_post_up_def qbittorrent_post_up_def with_orch_def Let_def
  by (auto intro!: preserves_intro split: net_reply.split option.split prod.split)

lemma frame_calibreweb: "(\<And>p f. frame g (seed p f)) \<Longrightarrow> frame g (calibreweb_post_up ip6 seed ic)"
  unfolding calibreweb_post_up_def Let_def by (intro preserves_intro)

lemma frame_jellyfin: "frame g (jellyfin_post_up assets ic)"
proof -
  have poll: "frame g (probe_jellyfin b)" for b
    unfolding probe_jellyfin_def poll_public_info_def startup_ready_def
    by (auto intro!: preserves_intro split: prod.split)
  have json: "frame g (jellyfin_get_json u)" "frame g (jellyfin_post_json u b)" "frame g (fetch_url assets u)" for u b
    unfolding jellyfin_get_json_def jellyfin_post_json_def fetch_url_def
    by (auto intro!: preserves_intro split: net_reply.split)
  have entry: "frame g (unzip_entry dest f)" for dest f
    unfolding unzip_entry_def Let_def by (auto intro!: preserves_intro split: prod.split option.split)
  have proxies: "frame g (discover_proxy_ips c)" for c
    unfolding discover_proxy_ips_def Let_def by (auto intro!: preserves_intro)
  have plugin: "frame g (install_sso_plugin assets d)" for d
    unfolding install_sso_plugin_def latest_plugin_url_def unzip_into_def by (intro preserves_intro json entry)
  have wizard: "frame g (run_startup_wizard b pw)" for b pw
    unfolding run_startup_wizard_def by (intro preserves_intro json)
  have conf: "frame g (write_branding_and_sso_config assets ic)"
    unfolding write_branding_and_sso_config_def Let_def by (intro preserves_intro proxies)
  show ?thesis
    unfolding jellyfin_post_up_def wait_for_jellyfin_def Let_def by (intro preserves_intro poll plugin wizard conf)
qed

end

interpretation db_hooks: hook_view w_db
  by unfold_locales simp_all

interpretation job_hooks: hook_view job_state
  by unfold_locales simp_all

interpretation site_hooks: hook_view site_view
  by unfold_locales simp_all

subsection \<open>The registry that nass ships\<close>

text \<open>What the modules take from outside: the embedded compose templates and scripts, the address of the host, the
  parser of bracketed addresses and the SQLite driver.\<close>

record 'w module_assets =
  ma_ip6 :: "string \<Rightarrow> string option"
  ma_template :: "string \<Rightarrow> string"
  ma_host_ip :: "error + string"
  ma_py :: "(string \<times> string) list"
  ma_jellyfin :: jellyfin_assets
  ma_seed :: "string \<Rightarrow> (cwa_db \<Rightarrow> cwa_db) \<Rightarrow> ('w, unit) run"

text \<open>The packages initialise in the order of their paths, and each registers its specification.\<close>

definition nass_specs :: "('r host_scheme) module_assets \<Rightarrow> ('r host_scheme) spec list" where
  "nass_specs ma = (let ip6 = ma_ip6 ma; t = ma_template ma in
     [blinko_spec ip6 (t ''blinko''), calibreweb_spec ip6 (ma_seed ma) (t ''calibreweb''), firefly_spec ip6 (t ''firefly''),
      gitea_spec ip6 (t ''gitea''), immich_spec (t ''immich''), jellyfin_spec (ma_jellyfin ma) (t ''jellyfin''),
      jitsi_spec ip6 (ma_host_ip ma) (t ''jitsi''), linkwarden_spec ip6 (t ''linkwarden''), miniflux_spec ip6 (t ''miniflux''),
      nextcloud_spec ip6 (t ''nextcloud''), paperless_spec ip6 (ma_py ma) (t ''paperless''), qbittorrent_spec ip6 (t ''qbittorrent''),
      vaultwarden_spec ip6 (t ''vaultwarden''), vikunja_spec ip6 (t ''vikunja'')])"

lemmas spec_defs = blinko_spec_def calibreweb_spec_def firefly_spec_def gitea_spec_def immich_spec_def jellyfin_spec_def
  jitsi_spec_def linkwarden_spec_def miniflux_spec_def nextcloud_spec_def paperless_spec_def qbittorrent_spec_def
  vaultwarden_spec_def vikunja_spec_def

definition hook_of :: "'w spec \<Rightarrow> (install_context \<Rightarrow> ('w, unit) run) \<Rightarrow> bool" where
  "hook_of sp f \<longleftrightarrow> sp_pre_up sp = Some f \<or> sp_post_up sp = Some f"

context hook_view begin

lemma frame_shipped:
  assumes "\<And>p f. frame g (ma_seed ma p f)" "sp \<in> set (nass_specs ma)" "hook_of sp f"
  shows "frame g (f ic)"
  using assms(2,3) frame_module_hooks frame_jellyfin frame_calibreweb [OF assms(1)]
  by (auto simp: nass_specs_def Let_def spec_defs hook_of_def)

end

text \<open>No name is registered twice, so no package panics, and the registry is the list above.\<close>

fun register_all :: "'w spec list \<Rightarrow> 'w spec list \<Rightarrow> error + 'w spec list" where
  "register_all reg [] = Inr reg"
| "register_all reg (sp # sps) = (case register_spec sp reg of Inl e \<Rightarrow> Inl e | Inr reg' \<Rightarrow> register_all reg' sps)"

lemma nass_specs_register: "register_all [] (nass_specs ma) = Inr (nass_specs ma)"
  by (simp add: nass_specs_def Let_def spec_defs register_spec_def)

text \<open>C39: The apps that nass ships keep out of nass itself: whatever docker, the network and the disk answer, no
  hook of any of the fourteen modules changes nass's database, the portal's list of jobs and its tasks, or the
  routes of the running process, on success or failure. (Calibre-Web's own database is written through the SQLite
  driver, which is asked to touch nothing of nass's either.) With this registry an installation leaves the
  database to the installer, the portal keeps an administrator and a truthful list of jobs, and, if the handlers of
  the OIDC library keep out as well, the process keeps its hosts, as the other results ask of the hooks.\<close>

theorem shipped_apps_keep_out:
  fixes ma :: "('r serve_state_scheme) module_assets"
  assumes "\<forall>p f. frame w_db (ma_seed ma p f) \<and> frame job_state (ma_seed ma p f) \<and> frame site_view (ma_seed ma p f)"
  shows "(\<forall>sp \<in> set (nass_specs ma). hooks_keep_db sp \<and>
      (\<forall>f ic. hook_of sp f \<longrightarrow> frame w_db (f ic) \<and> frame job_state (f ic) \<and> frame site_view (f ic))) \<and>
    config_safe (new_portal p orch (nass_specs ma)) \<and> config_leaves_jobs (new_portal p orch (nass_specs ma)) \<and>
    (ce_registry se = nass_specs ma \<and>
      (\<forall>issuer cfg key dev op meth r w. se_provider se issuer cfg key dev = Inr op \<longrightarrow> world_ok w \<longrightarrow>
        world_ok (snd (op_handler op meth r w)) \<and> site_view (snd (op_handler op meth r w)) = site_view w)
      \<longrightarrow> harmless se)"
proof -
  have hooks: "frame w_db (f ic)" "frame job_state (f ic)" "frame site_view (f ic)"
    if "sp \<in> set (nass_specs ma)" "hook_of sp f" for sp f ic
    using db_hooks.frame_shipped [OF _ that] job_hooks.frame_shipped [OF _ that] site_hooks.frame_shipped [OF _ that] assms
    by blast+
  have inv: "preserves admin_inv (f ic)" "preserves world_ok (f ic)" if "sp \<in> set (nass_specs ma)" "hook_of sp f" for sp f ic
    using hooks(1) [OF that] by (simp_all add: preserves_def frame_def admin_inv_def world_ok_def)
  have "config_safe (new_portal p orch (nass_specs ma))"
    by (rule new_portal_safe) (use inv(1) in \<open>auto simp: hook_of_def\<close>)
  moreover have "config_leaves_jobs (new_portal p orch (nass_specs ma))"
    by (rule new_portal_leaves_jobs) (use hooks(2) in \<open>auto simp: hook_of_def\<close>)
  moreover have "\<forall>sp \<in> set (nass_specs ma). hooks_keep_db sp \<and>
      (\<forall>f ic. hook_of sp f \<longrightarrow> frame w_db (f ic) \<and> frame job_state (f ic) \<and> frame site_view (f ic))"
    using hooks by (auto simp: hooks_keep_db_def hook_of_def)
  moreover have "harmless se" if "ce_registry se = nass_specs ma"
      "\<forall>issuer cfg key dev op meth r w. se_provider se issuer cfg key dev = Inr op \<longrightarrow> world_ok w \<longrightarrow>
        world_ok (snd (op_handler op meth r w)) \<and> site_view (snd (op_handler op meth r w)) = site_view w"
    using that inv(2) hooks(3) by (auto simp: harmless_def hook_of_def)
  ultimately show ?thesis by blast
qed

definition sample_modules :: "serve_state module_assets" where
  "sample_modules = \<lparr>ma_ip6 = (\<lambda>_. None), ma_template = (\<lambda>n. n), ma_host_ip = Inr ''10.0.0.2'', ma_py = [],
     ma_jellyfin = sample_assets, ma_seed = (\<lambda>p f. ret ())\<rparr>"

lemma shipped_apps_keep_out_witness:
  "length (nass_specs sample_modules) = 14 \<and> hooks_keep_db (hd (nass_specs sample_modules)) \<and>
   config_leaves_jobs (new_portal sample_portal None (nass_specs sample_modules))"
proof -
  have seed: "\<forall>p f. frame w_db (ma_seed sample_modules p f) \<and> frame job_state (ma_seed sample_modules p f) \<and>
      frame site_view (ma_seed sample_modules p f)"
    by (simp add: sample_modules_def frame_def ret_run)
  have "hd (nass_specs sample_modules) \<in> set (nass_specs sample_modules)" by (simp add: nass_specs_def Let_def)
  then show ?thesis using shipped_apps_keep_out [OF seed, of sample_portal None] by (simp add: nass_specs_def Let_def)
qed

end
