(* ===== verification/Db_Migrate.thy ===== *)
theory Db_Migrate
  imports Nass_Prelude
begin

text \<open>
  The migrations of the database (\<^verbatim>\<open>internal/db/db.go\<close>). The file is its tables, of a type \<open>'d\<close>, and the versions
  recorded in \<^verbatim>\<open>schema_migrations\<close>; what SQLite makes of a script is the argument \<open>apply_script\<close>, the scripts
  embedded in the program are the argument \<open>entries\<close> (name, whether a directory, text). Every statement may
  fail. Shown: at every moment, whatever fails, the tables are those after the first scripts in the order of
  their versions, exactly the recorded ones.
\<close>

record 'd sql_file =
  sq_tables :: 'd
  sq_versions :: "int list option"
  sq_faults :: "bool list"

definition sq_fault :: "('d sql_file, unit) run" where
  "sq_fault s = (case sq_faults s of
       [] \<Rightarrow> (Inr (), s)
     | True # fs \<Rightarrow> (Inl DbFault, s\<lparr>sq_faults := fs\<rparr>)
     | False # fs \<Rightarrow> (Inr (), s\<lparr>sq_faults := fs\<rparr>))"

definition digit_char :: "char \<Rightarrow> bool" where
  "digit_char c \<longleftrightarrow> 48 \<le> byte_of c \<and> byte_of c \<le> 57"

definition digits_value :: "string \<Rightarrow> int" where
  "digits_value ds = foldl (\<lambda>n c. n * 10 + (int (byte_of c) - 48)) 0 ds"

text \<open>\<open>fmt.Sscanf(name, "%04d_", &v)\<close>: at most four characters of a number (a sign among them), then the
  underscore; what follows does not matter.\<close>

definition scan_version :: "string \<Rightarrow> int option" where
  "scan_version name0 =
     (let name = dropWhile (\<lambda>c. c = CHR '' '' \<or> c = CHR 0x09) name0;
          signed = (name \<noteq> [] \<and> (hd name = CHR ''-'' \<or> hd name = CHR ''+''));
          body = (if signed then tl name else name);
          ds = takeWhile digit_char (take (if signed then 3 else 4) body)
      in if ds = [] \<or> \<not> has_prefix (drop (length ds) body) ''_'' then None
         else Some (if signed \<and> hd name = CHR ''-'' then - digits_value ds else digits_value ds))"

record mig =
  mg_version :: int
  mg_name :: string
  mg_body :: string

text \<open>The loop over the directory: scripts only, and every name must start with a version.\<close>

fun collect_migs :: "(string \<times> bool \<times> string) list \<Rightarrow> error + mig list" where
  "collect_migs [] = Inr []"
| "collect_migs ((name, is_dir, body) # es) =
     (if is_dir \<or> \<not> has_suffix name ''.sql'' then collect_migs es
      else case scan_version name of
          None \<Rightarrow> Inl (Wrap (''bad migration name '' @ name) (Msg ''input does not match format''))
        | Some v \<Rightarrow> (case collect_migs es of
              Inl e \<Rightarrow> Inl e
            | Inr ms \<Rightarrow> Inr (\<lparr>mg_version = v, mg_name = name, mg_body = body\<rparr> # ms)))"

definition create_versions :: "('d sql_file, unit) run" where
  "create_versions = bindR sq_fault (\<lambda>_. writing (\<lambda>s.
     s\<lparr>sq_versions := Some (case sq_versions s of None \<Rightarrow> [] | Some vs \<Rightarrow> vs)\<rparr>))"

definition version_recorded :: "int \<Rightarrow> 'd sql_file \<Rightarrow> bool" where
  "version_recorded v s = (case sq_versions s of None \<Rightarrow> False | Some vs \<Rightarrow> v \<in> set vs)"

definition exec_script :: "(string \<Rightarrow> 'd \<Rightarrow> error + 'd) \<Rightarrow> string \<Rightarrow> ('d sql_file, unit) run" where
  "exec_script apply_script body = bindR sq_fault (\<lambda>_ s. case apply_script body (sq_tables s) of
       Inl e \<Rightarrow> (Inl e, s) | Inr d \<Rightarrow> (Inr (), s\<lparr>sq_tables := d\<rparr>))"

definition insert_version :: "int \<Rightarrow> ('d sql_file, unit) run" where
  "insert_version v = bindR sq_fault (\<lambda>_ s. case sq_versions s of
       None \<Rightarrow> (Inl (Msg ''no such table: schema_migrations''), s)
     | Some vs \<Rightarrow> if v \<in> set vs then (Inl DbUnique, s) else (Inr (), s\<lparr>sq_versions := Some (vs @ [v])\<rparr>))"

text \<open>\<open>Begin\<close>, the body, \<open>Commit\<close>; a failure on the way rolls the file back.\<close>

definition sq_tx :: "('d sql_file, unit) run \<Rightarrow> ('d sql_file, unit) run" where
  "sq_tx m = bindR sq_fault (\<lambda>_ s. case bindR m (\<lambda>_. sq_fault) s of
       (Inl e, s1) \<Rightarrow> (Inl e, s1\<lparr>sq_tables := sq_tables s, sq_versions := sq_versions s\<rparr>)
     | (Inr _, s1) \<Rightarrow> (Inr (), s1))"

definition apply_mig :: "(string \<Rightarrow> 'd \<Rightarrow> error + 'd) \<Rightarrow> mig \<Rightarrow> ('d sql_file, unit) run" where
  "apply_mig apply_script m =
     bindR sq_fault (\<lambda>_. bindR (reading (version_recorded (mg_version m))) (\<lambda>there.
     if there then ret ()
     else sq_tx (bindR (map_error (Wrap (''apply '' @ mg_name m)) (exec_script apply_script (mg_body m))) (\<lambda>_.
       insert_version (mg_version m)))))"

definition migrate :: "(string \<Rightarrow> 'd \<Rightarrow> error + 'd) \<Rightarrow> (string \<times> bool \<times> string) list \<Rightarrow> ('d sql_file, unit) run" where
  "migrate apply_script entries =
     bindR create_versions (\<lambda>_.
     bindR (lift_result (collect_migs entries)) (\<lambda>migs.
     forR (sort_key mg_version migs) (apply_mig apply_script)))"

subsection \<open>The file after the first scripts\<close>

fun run_scripts :: "(string \<Rightarrow> 'd \<Rightarrow> error + 'd) \<Rightarrow> mig list \<Rightarrow> 'd \<Rightarrow> error + 'd" where
  "run_scripts ap [] d = Inr d"
| "run_scripts ap (m # ms) d = (case ap (mg_body m) d of Inl e \<Rightarrow> Inl e | Inr d' \<Rightarrow> run_scripts ap ms d')"

definition migrated_to :: "(string \<Rightarrow> 'd \<Rightarrow> error + 'd) \<Rightarrow> 'd \<Rightarrow> mig list \<Rightarrow> nat \<Rightarrow> 'd sql_file \<Rightarrow> bool" where
  "migrated_to ap d0 ms k s \<longleftrightarrow> k \<le> length ms \<and> run_scripts ap (take k ms) d0 = Inr (sq_tables s) \<and>
     sq_versions s = Some (map mg_version (take k ms))"

lemma sq_fault_cases: "sq_fault s = (r, s') \<Longrightarrow> (r = Inr () \<or> r = Inl DbFault) \<and> sq_tables s' = sq_tables s \<and>
    sq_versions s' = sq_versions s \<and> (sq_faults s = [] \<longrightarrow> r = Inr () \<and> s' = s)"
  by (auto simp: sq_fault_def split: list.splits bool.splits)

lemma sq_fault_none [run_simps]: "sq_faults s = [] \<Longrightarrow> sq_fault s = (Inr (), s)"
  by (simp add: sq_fault_def)

lemma run_scripts_append:
  "run_scripts ap (ms @ ns) d = (case run_scripts ap ms d of Inl e \<Rightarrow> Inl e | Inr d' \<Rightarrow> run_scripts ap ns d')"
  by (induction ms arbitrary: d) (auto split: sum.splits)

lemma migrated_to_same:
  "migrated_to ap d0 ms k s \<Longrightarrow> sq_tables s' = sq_tables s \<Longrightarrow> sq_versions s' = sq_versions s \<Longrightarrow> migrated_to ap d0 ms k s'"
  by (simp add: migrated_to_def)

text \<open>Two files with the same contents: they differ in the failures to come.\<close>

definition same_file :: "'d sql_file \<Rightarrow> 'd sql_file \<Rightarrow> bool" where
  "same_file s t \<longleftrightarrow> sq_tables s = sq_tables t \<and> sq_versions s = sq_versions t"

lemma sq_fault_same: "sq_fault s = (r, s') \<Longrightarrow> same_file s' s"
  by (auto simp: same_file_def dest: sq_fault_cases)

lemma sq_tx_Inl:
  assumes "sq_tx m s = (Inl e, s')"
  shows "same_file s' s"
proof -
  obtain x s0 where f: "sq_fault s = (x, s0)" by fastforce
  show ?thesis using assms f sq_fault_same [OF f]
    by (cases x) (auto simp: sq_tx_def bindR_run same_file_def split: prod.splits sum.splits)
qed

lemma sq_tx_Inr:
  assumes "sq_tx m s = (Inr u, s')"
  shows "\<exists>s1 s2. same_file s1 s \<and> m s1 = (Inr (), s2) \<and> same_file s' s2"
proof -
  obtain x s0 where f: "sq_fault s = (x, s0)" by fastforce
  then have "bindR m (\<lambda>_. sq_fault) s0 = (Inr (), s')"
    using assms by (cases x) (auto simp: sq_tx_def bindR_run split: prod.splits sum.splits)
  then show ?thesis using sq_fault_same [OF f] by (auto simp: bindR_Inr_iff dest: sq_fault_same)
qed

lemma exec_script_Inr:
  assumes "exec_script ap b s = (Inr u, s')"
  shows "ap b (sq_tables s) = Inr (sq_tables s') \<and> sq_versions s' = sq_versions s"
proof -
  obtain s0 where f: "sq_fault s = (Inr (), s0)" "(case ap b (sq_tables s0) of
       Inl e \<Rightarrow> (Inl e, s0) | Inr d \<Rightarrow> (Inr (), s0\<lparr>sq_tables := d\<rparr>)) = (Inr u, s')"
    using assms by (auto simp: exec_script_def bindR_Inr_iff)
  then show ?thesis using sq_fault_cases [OF f(1)] by (auto split: sum.splits)
qed

lemma insert_version_Inr:
  "insert_version v s = (Inr u, s') \<Longrightarrow> sq_tables s' = sq_tables s \<and>
     (\<exists>vs. sq_versions s = Some vs \<and> v \<notin> set vs \<and> sq_versions s' = Some (vs @ [v]))"
  by (auto simp: insert_version_def bindR_Inr_iff dest!: sq_fault_cases split: option.splits if_splits)

text \<open>One script: a failure leaves the file as it was; a success is a script already recorded, or one that has
  run and is recorded now.\<close>

lemma apply_mig_Inl:
  assumes "apply_mig ap m s = (Inl e, s')"
  shows "same_file s' s"
  using assms
  by (auto simp: apply_mig_def bindR_Inl_iff reading_run ret_run same_file_def split: if_splits
      dest!: sq_fault_same sq_tx_Inl)

lemma apply_mig_Inr:
  assumes "apply_mig ap m s = (Inr u, s')"
  shows "(version_recorded (mg_version m) s \<and> same_file s' s) \<or>
    (\<exists>vs. ap (mg_body m) (sq_tables s) = Inr (sq_tables s') \<and> sq_versions s = Some vs \<and> mg_version m \<notin> set vs \<and>
       sq_versions s' = Some (vs @ [mg_version m]))"
proof -
  obtain s0 where s0: "sq_fault s = (Inr (), s0)" "(if version_recorded (mg_version m) s0 then ret ()
     else sq_tx (bindR (map_error (Wrap (''apply '' @ mg_name m)) (exec_script ap (mg_body m))) (\<lambda>_.
       insert_version (mg_version m)))) s0 = (Inr (), s')"
    using assms by (auto simp: apply_mig_def bindR_Inr_iff reading_run)
  have same: "same_file s0 s" by (rule sq_fault_same [OF s0(1)])
  show ?thesis
  proof (cases "version_recorded (mg_version m) s0")
    case True
    then show ?thesis using s0(2) same by (auto simp: ret_run version_recorded_def same_file_def)
  next
    case False
    let ?body = "bindR (map_error (Wrap (''apply '' @ mg_name m)) (exec_script ap (mg_body m))) (\<lambda>_. insert_version (mg_version m))"
    have tx: "sq_tx ?body s0 = (Inr u, s')" using s0(2) False by simp
    obtain s1 s2 where s: "same_file s1 s0" "?body s1 = (Inr (), s2)" "same_file s' s2"
      using sq_tx_Inr [OF tx] by blast
    obtain s3 where s3: "exec_script ap (mg_body m) s1 = (Inr (), s3)" "insert_version (mg_version m) s3 = (Inr (), s2)"
      using s(2) by (auto simp: bindR_Inr_iff)
    show ?thesis using exec_script_Inr [OF s3(1)] insert_version_Inr [OF s3(2)] s(1,3) same by (simp add: same_file_def)
  qed
qed

text \<open>The loop, from a file that has the first \<open>k\<close> scripts.\<close>

lemma version_recorded_prefix:
  assumes "migrated_to ap d0 ms k s" "distinct (map mg_version ms)" "i < length ms"
  shows "version_recorded (mg_version (ms ! i)) s \<longleftrightarrow> i < k"
proof -
  have "version_recorded (mg_version (ms ! i)) s \<longleftrightarrow> (\<exists>j < k. j < length ms \<and> mg_version (ms ! j) = mg_version (ms ! i))"
    using assms(1) unfolding version_recorded_def migrated_to_def
    by (auto simp: image_iff in_set_conv_nth Bex_def)
  also have "... \<longleftrightarrow> i < k"
    using assms nth_eq_iff_index_eq [OF assms(2)] by fastforce
  finally show ?thesis .
qed

lemma apply_mig_step:
  assumes "migrated_to ap d0 ms k s" "distinct (map mg_version ms)" "i < length ms" "i \<le> k"
    and "apply_mig ap (ms ! i) s = (r, s')"
  shows "(\<exists>k'. k \<le> k' \<and> migrated_to ap d0 ms k' s' \<and> (r = Inr () \<longrightarrow> Suc i \<le> k'))"
proof (cases r)
  case (Inl e)
  then have "same_file s' s" using apply_mig_Inl assms(5) by blast
  then show ?thesis using assms(1) Inl migrated_to_same [OF assms(1), of s'] by (auto simp: same_file_def intro: exI [of _ k])
next
  case (Inr u)
  note st = apply_mig_Inr [OF assms(5) [unfolded Inr]]
  note rec = version_recorded_prefix [OF assms(1-3)]
  show ?thesis
  proof (cases "version_recorded (mg_version (ms ! i)) s")
    case True
    then have "same_file s' s" using st by (auto simp: version_recorded_def)
    then have "migrated_to ap d0 ms k s'" using migrated_to_same [OF assms(1)] by (simp add: same_file_def)
    then show ?thesis using True rec by (intro exI [of _ k]) simp
  next
    case False
    then have k: "k = i" using rec assms(4) by simp
    have "take (Suc k) ms = take k ms @ [ms ! k]" using k assms(3) by (simp add: take_Suc_conv_app_nth)
    then have "migrated_to ap d0 ms (Suc k) s'"
      using st False assms(1,3) k by (auto simp: migrated_to_def run_scripts_append version_recorded_def)
    then show ?thesis using k by (intro exI [of _ "Suc k"]) simp
  qed
qed

lemma migrate_loop:
  assumes "migrated_to ap d0 ms k s" "distinct (map mg_version ms)" "ms = pre @ todo" "length pre \<le> k"
    and "forR todo (apply_mig ap) s = (r, s')"
  shows "\<exists>k'. k \<le> k' \<and> migrated_to ap d0 ms k' s' \<and> (r = Inr () \<longrightarrow> k' = length ms)"
  using assms
proof (induction todo arbitrary: pre k s)
  case Nil
  then show ?case by (auto simp: ret_run migrated_to_def)
next
  case (Cons m todo)
  obtain x s1 where x: "apply_mig ap m s = (x, s1)" by fastforce
  have m: "ms ! length pre = m" "length pre < length ms" using Cons.prems(3) by simp_all
  obtain k1 where k1: "k \<le> k1" "migrated_to ap d0 ms k1 s1" "x = Inr () \<longrightarrow> Suc (length pre) \<le> k1"
    using apply_mig_step [OF Cons.prems(1,2) m(2) Cons.prems(4), unfolded m(1), OF x] by blast
  show ?case
  proof (cases x)
    case (Inl e)
    then show ?thesis using Cons.prems(5) x k1 by (auto simp: bindR_run)
  next
    case (Inr u)
    then have "forR todo (apply_mig ap) s1 = (r, s')" using Cons.prems(5) x by (simp add: bindR_run)
    then obtain k' where "k1 \<le> k'" "migrated_to ap d0 ms k' s'" "r = Inr () \<longrightarrow> k' = length ms"
      using Cons.IH [OF k1(2) Cons.prems(2), of "pre @ [m]"] Cons.prems(3) k1(3) Inr by auto
    then show ?thesis using k1(1) by (intro exI [of _ k']) auto
  qed
qed

text \<open>Without failures the loop gets to its end.\<close>

lemma apply_mig_succeeds:
  assumes "sq_faults s = []" "sq_versions s = Some vs" "mg_version m \<in> set vs \<or> ap (mg_body m) (sq_tables s) = Inr d"
  shows "\<exists>s'. apply_mig ap m s = (Inr (), s') \<and> sq_faults s' = [] \<and> (mg_version m \<in> set vs \<longrightarrow> s' = s)"
  using assms
  by (cases "mg_version m \<in> set vs") (auto simp: apply_mig_def bindR_run reading_run ret_run version_recorded_def
      sq_fault_none sq_tx_def exec_script_def insert_version_def map_error_run)

lemma migrate_loop_succeeds:
  assumes "migrated_to ap d0 ms k s" "distinct (map mg_version ms)" "ms = pre @ todo" "length pre \<le> k" "sq_faults s = []"
    and "run_scripts ap ms d0 = Inr d"
  shows "\<exists>s'. forR todo (apply_mig ap) s = (Inr (), s')"
  using assms
proof (induction todo arbitrary: pre k s)
  case (Cons m todo)
  have m: "ms ! length pre = m" "length pre < length ms" using Cons.prems(3) by simp_all
  have vs: "sq_versions s = Some (map mg_version (take k ms))" using Cons.prems(1) by (simp add: migrated_to_def)
  have "mg_version m \<in> set (map mg_version (take k ms)) \<or> (\<exists>d'. ap (mg_body m) (sq_tables s) = Inr d')"
  proof (cases "length pre < k")
    case True
    then have "m \<in> set (take k ms)" using m by (metis in_set_conv_nth length_take min_less_iff_conj nth_take)
    then show ?thesis by simp
  next
    case False
    then have "take k ms = pre" using Cons.prems(3,4) by simp
    then have "run_scripts ap (m # todo) (sq_tables s) = Inr d"
      using Cons.prems(1,3,6) by (simp add: migrated_to_def run_scripts_append)
    then show ?thesis by (auto split: sum.splits)
  qed
  then obtain s1 where s1: "apply_mig ap m s = (Inr (), s1)" "sq_faults s1 = []"
    using apply_mig_succeeds [OF Cons.prems(5) vs] by blast
  obtain k1 where "migrated_to ap d0 ms k1 s1" "Suc (length pre) \<le> k1"
    using apply_mig_step [OF Cons.prems(1,2) m(2) Cons.prems(4), unfolded m(1), OF s1(1)] by blast
  then have "\<exists>s'. forR todo (apply_mig ap) s1 = (Inr (), s')"
    using Cons.IH [of k1 s1 "pre @ [m]"] Cons.prems(2,3,6) s1(2) by simp
  then show ?case using s1(1) by (simp add: bindR_run)
qed (simp add: ret_run)

definition fresh_file :: "'d \<Rightarrow> 'd sql_file \<Rightarrow> bool" where
  "fresh_file d0 s \<longleftrightarrow> sq_tables s = d0 \<and> sq_versions s = None"

definition migrations :: "(string \<times> bool \<times> string) list \<Rightarrow> mig list" where
  "migrations entries = (case collect_migs entries of Inl e \<Rightarrow> [] | Inr ms \<Rightarrow> sort_key mg_version ms)"

lemma create_versions_run:
  assumes "create_versions s = (r, s1)" "fresh_file d0 s \<or> migrated_to ap d0 ms k s"
  shows "(r \<noteq> Inr () \<and> same_file s1 s) \<or> (r = Inr () \<and> (\<exists>k1. (fresh_file d0 s \<or> k \<le> k1) \<and> migrated_to ap d0 ms k1 s1))"
proof -
  obtain x s0 where f: "sq_fault s = (x, s0)" by fastforce
  note c = sq_fault_cases [OF f]
  show ?thesis
  proof (cases x)
    case (Inl e)
    then show ?thesis using assms(1) f sq_fault_same [OF f] by (auto simp: create_versions_def bindR_run)
  next
    case (Inr u)
    then have "r = Inr ()" "sq_tables s1 = sq_tables s"
        "sq_versions s1 = Some (case sq_versions s of None \<Rightarrow> [] | Some vs \<Rightarrow> vs)"
      using assms(1) f c by (auto simp: create_versions_def bindR_run writing_run)
    then show ?thesis using assms(2)
      by (auto simp: fresh_file_def migrated_to_def intro: exI [of _ 0] exI [of _ k])
  qed
qed

lemma migrate_outcome:
  assumes "migrate ap entries s = (r, s')" "collect_migs entries = Inr ms0" "distinct (map mg_version ms0)"
    and "fresh_file d0 s \<or> migrated_to ap d0 (migrations entries) k s"
  shows "(r \<noteq> Inr () \<and> same_file s' s) \<or>
      (\<exists>k'. (fresh_file d0 s \<or> k \<le> k') \<and> migrated_to ap d0 (migrations entries) k' s' \<and>
        (r = Inr () \<longrightarrow> k' = length ms0))"
    and "sq_faults s = [] \<Longrightarrow> run_scripts ap (migrations entries) d0 = Inr d \<Longrightarrow> r = Inr ()"
proof -
  let ?ms = "migrations entries"
  have ms: "?ms = sort_key mg_version ms0" "distinct (map mg_version ?ms)" "length ?ms = length ms0"
    using assms(2,3) by (simp_all add: migrations_def distinct_map)
  obtain x s1 where x: "create_versions s = (x, s1)" by fastforce
  note cv = create_versions_run [OF x assms(4)]
  have loop: "forR ?ms (apply_mig ap) s1 = (r, s')" if "x = Inr ()"
    using assms(1,2) x that ms(1) by (simp add: migrate_def bindR_run lift_result_run)
  have stop: "r \<noteq> Inr () \<and> s' = s1" if "x = Inl e" for e
    using assms(1) x that by (auto simp: migrate_def bindR_run)
  show "(r \<noteq> Inr () \<and> same_file s' s) \<or> (\<exists>k'. (fresh_file d0 s \<or> k \<le> k') \<and> migrated_to ap d0 ?ms k' s' \<and>
        (r = Inr () \<longrightarrow> k' = length ms0))"
  proof (cases x)
    case (Inl e)
    then show ?thesis using stop cv by simp
  next
    case (Inr u)
    then obtain k1 where k1: "fresh_file d0 s \<or> k \<le> k1" "migrated_to ap d0 ?ms k1 s1" using cv by auto
    from migrate_loop [OF k1(2) ms(2), of "[]" ?ms r s'] loop Inr
    obtain k' where "k1 \<le> k'" "migrated_to ap d0 ?ms k' s'" "r = Inr () \<longrightarrow> k' = length ?ms" by auto
    then show ?thesis using k1(1) ms(3) by (intro disjI2 exI [of _ k']) auto
  qed
  show "r = Inr ()" if nf: "sq_faults s = []" and ok: "run_scripts ap ?ms d0 = Inr d"
  proof -
    have s1: "x = Inr ()" "sq_faults s1 = []"
      using x nf by (auto simp: create_versions_def bindR_run sq_fault_none writing_run)
    then obtain k1 where "migrated_to ap d0 ?ms k1 s1" using cv by auto
    from migrate_loop_succeeds [OF this ms(2) _ _ s1(2) ok, of "[]" ?ms] show ?thesis using loop [OF s1(1)] by auto
  qed
qed

text \<open>C34: The database is never between two schemas: from a new file or any file an earlier start has left, and
  whatever statement fails, the tables are those after the first scripts in the order of their versions and
  exactly those scripts are recorded, never fewer than before; a start that reports success has them
  all, and one in which nothing fails does so.\<close>

theorem migrations_in_step:
  assumes "migrate ap entries s = (r, s')" "collect_migs entries = Inr ms0" "distinct (map mg_version ms0)"
    and "fresh_file d0 s \<or> migrated_to ap d0 (migrations entries) k s"
  shows "((r \<noteq> Inr () \<and> same_file s' s) \<or>
      (\<exists>k'. (fresh_file d0 s \<or> k \<le> k') \<and> migrated_to ap d0 (migrations entries) k' s' \<and>
        (r = Inr () \<longrightarrow> k' = length ms0))) \<and>
    (sq_faults s = [] \<longrightarrow> (\<forall>d. run_scripts ap (migrations entries) d0 = Inr d \<longrightarrow> r = Inr ()))"
  using migrate_outcome [OF assms] by blast

text \<open>Two scripts, the second of which fails at its commit; the next start finishes the work.\<close>

definition sample_scripts :: "(string \<times> bool \<times> string) list" where
  "sample_scripts = [(''0002_more.sql'', False, ''b''), (''0001_init.sql'', False, ''a''), (''README'', False, ''x'')]"

definition sample_apply :: "string \<Rightarrow> string list \<Rightarrow> error + string list" where
  "sample_apply body d = Inr (d @ [body])"

definition sample_file :: "(string list) sql_file" where
  "sample_file = \<lparr>sq_tables = [], sq_versions = None, sq_faults = replicate 10 False @ [True]\<rparr>"

definition sample_halfway :: "(string list) sql_file" where
  "sample_halfway = snd (migrate sample_apply sample_scripts sample_file)"

lemma sample_halfway_is: "sample_halfway = \<lparr>sq_tables = [''a''], sq_versions = Some [1], sq_faults = []\<rparr>"
  by code_simp

lemma migrations_in_step_witness:
  "fst (migrate sample_apply sample_scripts sample_halfway) = Inr () \<and>
   (\<exists>k'. 1 \<le> k' \<and> migrated_to sample_apply [] (migrations sample_scripts) k' (snd (migrate sample_apply sample_scripts sample_halfway)))"
proof -
  obtain r s' where m: "migrate sample_apply sample_scripts sample_halfway = (r, s')" by fastforce
  obtain ms0 where ms0: "collect_migs sample_scripts = Inr ms0" "distinct (map mg_version ms0)"
  proof
    show "collect_migs sample_scripts = Inr [\<lparr>mg_version = 2, mg_name = ''0002_more.sql'', mg_body = ''b''\<rparr>,
        \<lparr>mg_version = 1, mg_name = ''0001_init.sql'', mg_body = ''a''\<rparr>]" by code_simp
  qed simp
  have mig: "migrations sample_scripts = [\<lparr>mg_version = 1, mg_name = ''0001_init.sql'', mg_body = ''a''\<rparr>,
      \<lparr>mg_version = 2, mg_name = ''0002_more.sql'', mg_body = ''b''\<rparr>]" by code_simp
  have h: "fresh_file [] sample_halfway \<or> migrated_to sample_apply [] (migrations sample_scripts) 1 sample_halfway"
    unfolding mig sample_halfway_is by (simp add: migrated_to_def sample_apply_def)
  have nf: "\<not> fresh_file [] sample_halfway" by (simp add: sample_halfway_is fresh_file_def)
  have "r = Inr ()"
    using conjunct2 [OF migrations_in_step [OF m ms0 h]] by (simp add: sample_halfway_is mig sample_apply_def)
  with conjunct1 [OF migrations_in_step [OF m ms0 h]] m nf show ?thesis by auto
qed

end
