(* ===== verification/Cli_Effects.thy ===== *)
theory Cli_Effects
  imports Cli_Commands
begin

text \<open>
  What the commands of Cli_Commands do to the files: a removal touches nothing but the paths that nass
  wrote for the app, never a guessed one; and \<^verbatim>\<open>nass init\<close> overwrites no file, adds at most its
  admin to a database that was there, and writes keys of the form that a start loads.
\<close>

text \<open>The files apart from those that a predicate allows to change.\<close>

definition other_files :: "(string \<Rightarrow> bool) \<Rightarrow> 'r host_scheme \<Rightarrow> string \<Rightarrow> fs_node option" where
  "other_files P w p = (if P p then None else map_of (hs_fs w) p)"

lemma other_files_simps [simp]:
  "other_files P (w\<lparr>w_db := d\<rparr>) = other_files P w" "other_files P (w\<lparr>w_faults := fs\<rparr>) = other_files P w"
  "other_files P (w\<lparr>w_rand := rs\<rparr>) = other_files P w" "other_files P (w\<lparr>hs_disk_faults := fs\<rparr>) = other_files P w"
  "other_files P (w\<lparr>hs_cmds := cs\<rparr>) = other_files P w" "other_files P (w\<lparr>hs_outs := os\<rparr>) = other_files P w"
  "other_files P (v\<lparr>cli_out := l\<rparr>) = other_files P v"
  by (simp_all add: other_files_def fun_eq_iff)

lemma frame_other_fs: "frame hs_fs m \<Longrightarrow> frame (other_files P) m"
  by (simp add: frame_def other_files_def fun_eq_iff)

lemma frame_other_disk [preserves_intro]: "frame (other_files P) disk_fault"
  by (rule frame_other_fs [OF frame_disk_fault_fs])

lemma frame_other_remove:
  "P (path_clean p) \<Longrightarrow> frame (other_files P) (remove_file p)"
  unfolding remove_file_def
  by (intro frame_bindR frame_other_disk)
    (auto simp: frame_def other_files_def fun_eq_iff Let_def fs_filter_lookup [where P = "\<lambda>x. x \<noteq> path_clean p"] split: option.splits)

lemma frame_other_remove_all:
  "(\<And>q. under (path_clean p) q \<Longrightarrow> P q) \<Longrightarrow> frame (other_files P) (remove_all p)"
  unfolding remove_all_def
  by (rule frame_bindR [OF frame_other_disk])
    (auto simp: frame_def other_files_def fun_eq_iff fs_filter_lookup [where P = "\<lambda>x. \<not> under (path_clean p) x"])

subsection \<open>A removal touches the files of the app only\<close>

definition removable :: "uninstall_context \<Rightarrow> string \<Rightarrow> bool" where
  "removable uc p \<longleftrightarrow> (\<not> uc_keep uc \<and> uc_data uc \<noteq> [] \<and> under (path_clean (uc_data uc)) p) \<or>
     (uc_compose uc \<noteq> [] \<and> (p = path_clean (uc_compose uc) \<or> p = path_clean (path_dir (uc_compose uc))))"

lemma frame_remove_own: "frame (other_files (removable uc)) (remove_files uc)"
proof -
  have "frame (other_files (removable uc)) (remove_all (uc_data uc))" if "\<not> uc_keep uc \<and> uc_data uc \<noteq> []"
    by (rule frame_other_remove_all) (use that in \<open>simp add: removable_def\<close>)
  moreover have "frame (other_files (removable uc)) (remove_file (uc_compose uc))"
      "frame (other_files (removable uc)) (remove_file (path_dir (uc_compose uc)))" if "uc_compose uc \<noteq> []"
    by (rule frame_other_remove; use that in \<open>simp add: removable_def\<close>)+
  ultimately show ?thesis
    unfolding remove_files_def by (auto intro!: preserves_intro split: sum.split)
qed

lemma frame_uninstall_own: "frame (other_files (removable uc)) (uninstall_app (Some uc))"
proof -
  have "frame (other_files (removable uc)) (forget_app uc e)" for e
    unfolding forget_app_def by (intro preserves_intro frame_remove_own frame_other_fs [OF frame_cleanup_fs]) simp_all
  then show ?thesis
    unfolding uninstall_app_def by (auto intro!: preserves_intro frame_other_fs [OF frame_down_fs])
qed

text \<open>The paths of an app: those of its row; where the row has none, those of the convention, if a compose file is there.\<close>

definition row_paths :: "app_row \<Rightarrow> string \<times> string" where
  "row_paths a = (case ap_settings a of Json s \<Rightarrow> (st_compose_file s, st_data_root s) | _ \<Rightarrow> ([], []))"

definition known_paths :: "config \<Rightarrow> (string \<times> fs_node) list \<Rightarrow> string \<Rightarrow> app_row \<Rightarrow> string \<times> string" where
  "known_paths cfg fs name a =
     (let orch = cf_orch cfg; candidate = path_join [co_compose_root orch, name, ''docker-compose.yaml''];
          cf = (if fst (row_paths a) = [] \<and> co_compose_root orch \<noteq> [] \<and> map_of fs (path_clean candidate) \<noteq> None
                then candidate else fst (row_paths a))
      in (cf, if snd (row_paths a) = [] \<and> cf \<noteq> [] \<and> co_data_root orch \<noteq> []
              then path_join [co_data_root orch, name] else snd (row_paths a)))"

lemma stat_ok_value:
  "stat_ok p w = (Inr b, w') \<Longrightarrow> b \<longrightarrow> map_of (hs_fs w) (path_clean p) \<noteq> None"
  by (auto simp: stat_ok_def file_exists_def bindR_run attempt_run reading_run ret_run dest!: disk_fault_cases
      split: prod.splits sum.splits)

lemma resolve_uninstall_known:
  assumes "resolve_uninstall_paths cfg name (fst (row_paths a)) (snd (row_paths a)) w = (Inr (cf, dr), w1)"
    and "known_paths cfg (hs_fs w) name a = (kcf, kdr)"
  shows "hs_fs w1 = hs_fs w \<and> (cf = [] \<or> cf = kcf) \<and> (dr = [] \<or> dr = kdr)"
proof -
  let ?c = "path_join [co_compose_root (cf_orch cfg), name, ''docker-compose.yaml'']"
  have s: "hs_fs w2 = hs_fs w" "b \<longrightarrow> map_of (hs_fs w) (path_clean ?c) \<noteq> None" if "stat_ok ?c w = (Inr b, w2)" for b w2
    using stat_ok_run [OF that] stat_ok_value [OF that] by simp_all
  show ?thesis
    using assms s
    by (auto simp: resolve_uninstall_paths_def known_paths_def Let_def bindR_Inr_iff ret_run split: if_splits)
qed

lemma load_frames:
  "frame hs_fs (config_load ev path)" "frame hs_fs (load_config ce)" "frame w_db (load_config ce)" "frame hs_fs (db_open p)" "frame w_db (db_open p)"
proof -
  have st: "frame hs_fs (file_exists q)" "frame w_db (file_exists q)" for q
    unfolding file_exists_def by (intro preserves_intro frame_disk_fault_fs)+
  show c: "frame hs_fs (config_load ev path)" for ev path
    unfolding config_load_def by (intro preserves_intro frame_read_fs)
  have d: "frame w_db (config_load ev path)" for ev path
    unfolding config_load_def by (intro preserves_intro)
  show "frame hs_fs (load_config ce)" "frame w_db (load_config ce)"
    unfolding load_config_def by (intro preserves_intro st c d)+
  show "frame hs_fs (db_open p)" "frame w_db (db_open p)" unfolding db_open_def by (intro preserves_intro; simp)+
qed

lemma load_app_paths_Inr:
  assumes "load_app_paths n w = (Inr (Some (c, d)), w')" "app_by n (w_db w) = Some a"
  shows "(c, d) = row_paths a"
  using assms by (auto simp: load_app_paths_def bindR_Inr_iff row_paths_def ret_run throw_run split: json.splits dest!: query_InrD)

lemma with_db_cases:
  assumes "with_db ce f w = (r, w')" "fst (load_config ce w) = Inr cfg"
  shows "(\<exists>e. r = Inl e \<and> hs_fs w' = hs_fs w) \<or> (\<exists>w2. hs_fs w2 = hs_fs w \<and> w_db w2 = w_db w \<and> f cfg w2 = (r, w'))"
proof -
  obtain w1 where c: "load_config ce w = (Inr cfg, w1)" using assms(2) by (metis prod.collapse)
  obtain q w2 where q: "db_open (cd_path (cf_db cfg)) w1 = (q, w2)" by fastforce
  have w2: "hs_fs w2 = hs_fs w" "w_db w2 = w_db w"
    using frame_pair [OF load_frames(2) c] frame_pair [OF load_frames(3) c] frame_pair [OF load_frames(4) q]
      frame_pair [OF load_frames(5) q] by simp_all
  then show ?thesis using assms(1) c q by (cases q) (auto simp: with_db_def bindR_run)
qed

lemma resolve_uninstall_runs: "resolve_uninstall_paths cfg n c d w \<noteq> (Inl e, w')"
proof -
  have "stat_ok p w \<noteq> (Inl e, w')" for p using stat_ok_run by blast
  then show ?thesis by (auto simp: resolve_uninstall_paths_def Let_def bindR_Inl_iff ret_run split: if_splits)
qed

text \<open>The command with its database open.\<close>

lemma uninstall_body:
  assumes "bindR (load_app_paths name) (\<lambda>paths. case paths of
       None \<Rightarrow> throw e1
     | Some (cf0, dr0) \<Rightarrow> bindR (resolve_uninstall_paths cfg name cf0 dr0) m) w = (r, w')"
    and "app_by name (w_db w) = Some a" "known_paths cfg (hs_fs w) name a = (kcf, kdr)"
  shows "hs_fs w' = hs_fs w \<or> (\<exists>cf dr w2. hs_fs w2 = hs_fs w \<and> (cf = [] \<or> cf = kcf) \<and> (dr = [] \<or> dr = kdr) \<and> m (cf, dr) w2 = (r, w'))"
proof -
  obtain q w1 where q: "load_app_paths name w = (q, w1)" by fastforce
  have "frame hs_fs (load_app_paths name)"
    unfolding load_app_paths_def by (intro preserves_intro; simp split: json.split) (auto intro!: preserves_intro)
  from frame_pair [OF this q] have w1: "hs_fs w1 = hs_fs w" .
  show ?thesis
  proof (cases "\<exists>c0 d0. q = Inr (Some (c0, d0))")
    case False
    then have "w' = w1" using assms(1) q by (cases q) (auto simp: bindR_run throw_run split: option.splits)
    then show ?thesis using w1 by simp
  next
    case True
    then obtain c0 d0 where cd: "q = Inr (Some (c0, d0))" by blast
    then have rp: "(c0, d0) = row_paths a" using load_app_paths_Inr q assms(2) by blast
    obtain x w2 where x: "resolve_uninstall_paths cfg name c0 d0 w1 = (x, w2)" by fastforce
    then obtain cf dr where xc: "x = Inr (cf, dr)" using resolve_uninstall_runs by (cases x) fastforce+
    then have "hs_fs w2 = hs_fs w1 \<and> (cf = [] \<or> cf = kcf) \<and> (dr = [] \<or> dr = kdr)"
      using resolve_uninstall_known [of cfg name a w1 cf dr w2 kcf kdr] x rp assms(3) w1 by (metis fst_conv snd_conv)
    moreover have "m (cf, dr) w2 = (r, w')" using assms(1) q cd x xc by (simp add: bindR_run)
    ultimately show ?thesis using w1 by auto
  qed
qed

text \<open>C37: \<^verbatim>\<open>nass app uninstall\<close> never deletes a guessed path: whatever happens on the way, a file or directory that is
  there before and not after belongs to the app: without \<^verbatim>\<open>--keep-data\<close> it lies under the app's data root, or it is
  its compose file or that file's directory, where these are the paths of the app's row, and a path that the row
  does not have is taken from the convention only if a compose file is there; nothing goes without \<^verbatim>\<open>--yes\<close>.\<close>

theorem uninstall_never_guesses:
  assumes "app_uninstall_cmd ce name fl w = (r, w')" "fst (load_config ce w) = Inr cfg"
    and "app_by name (w_db w) = Some a" "known_paths cfg (hs_fs w) name a = (cf, dr)"
    and "map_of (hs_fs w') p \<noteq> map_of (hs_fs w) p"
  shows "uf_yes fl \<and> (\<not> uf_keep fl \<and> dr \<noteq> [] \<and> under (path_clean dr) p \<or>
    cf \<noteq> [] \<and> (p = path_clean cf \<or> p = path_clean (path_dir cf)))"
proof -
  define uc where "uc = \<lparr>uc_name = name, uc_compose = [], uc_data = [], uc_keep = uf_keep fl, uc_force = uf_force fl, uc_db = True,
    uc_orch = Some (new_orchestrator (co_compose_root (cf_orch cfg)) (co_docker (cf_orch cfg)))\<rparr>"
  have no: "hs_fs w' \<noteq> hs_fs w" using assms(5) by auto
  have say: "frame hs_fs (say l)" "frame (other_files Q) (say l)" for l Q
    by (simp_all add: frame_def say_def writing_run other_files_def fun_eq_iff)
  obtain c d w2 where d: "hs_fs w2 = hs_fs w" "c = [] \<or> c = cf" "d = [] \<or> d = dr"
    and m: "uninstall_resolved cfg name fl (c, d) w2 = (r, w')"
    using with_db_cases [OF assms(1) [unfolded app_uninstall_cmd_def] assms(2)] no assms(3,4)
    by (elim disjE exE conjE) (simp, drule uninstall_body, auto)
  show ?thesis
  proof (cases "uf_yes fl")
    case False
    then have f: "frame hs_fs (uninstall_resolved cfg name fl (c, d))"
      unfolding uninstall_resolved_def by (auto intro!: preserves_intro say)
    show ?thesis using frame_pair [OF f m] no d(1) by simp
  next
    case True
    let ?uc = "uc\<lparr>uc_compose := c, uc_data := d\<rparr>"
    have f: "frame (other_files (removable ?uc)) (uninstall_resolved cfg name fl (c, d))"
      unfolding uninstall_resolved_def using True frame_uninstall_own [of ?uc]
      by (auto simp: uc_def intro!: preserves_intro say)
    have "other_files (removable ?uc) w' p = other_files (removable ?uc) w2 p" using frame_pair [OF f m] by simp
    then have "removable ?uc p" using assms(5) d(1) by (auto simp: other_files_def split: if_splits)
    then show ?thesis using True d(2,3) by (auto simp: removable_def uc_def)
  qed
qed

text \<open>An app from before the paths were recorded; its compose file is where the convention has it.\<close>

definition sample_cli_env :: "cli cli_env" where
  "sample_cli_env = \<lparr>ev_cwd = Inr ''/n'',
     ev_decode = (\<lambda>body c. Inr (c\<lparr>cf_server := (cf_server c)\<lparr>cs_base_host := body\<rparr>,
       cf_orch := (cf_orch c)\<lparr>co_data_root := ''/d'', co_compose_root := ''/c''\<rparr>\<rparr>)),
     ev_encode = (\<lambda>c. cs_base_host (cf_server c)), ce_config = ''nass.toml'', ce_password = [], ce_terminal = None,
     ce_bcrypt = sample_bcrypt, ce_ip6 = (\<lambda>_. None), ce_registry = []\<rparr>"

definition sample_legacy :: cli where
  "sample_legacy = \<lparr>w_db = empty_db\<lparr>db_apps := [\<lparr>ap_name = ''blog'', ap_enabled = 1, ap_settings = Json zero_settings, ap_enabled_at = None\<rparr>]\<rparr>,
     w_faults = [], w_clock = 0, w_rand = [],
     hs_fs = [(''/n'', FsDir), (''/n/nass.toml'', FsFile ''nas.ex''), (''/c/blog'', FsDir), (''/c/blog/docker-compose.yaml'', FsFile ''x''),
       (''/d/blog'', FsDir), (''/d/blog/notes'', FsFile ''y''), (''/d/wiki'', FsDir)],
     hs_disk_faults = [], hs_cmds = [], hs_outs = [], hs_busy = {}, hs_polls = None, hs_net = [], hs_reqs = [], cli_out = []\<rparr>"

lemma sample_legacy_run:
  "case app_uninstall_cmd sample_cli_env ''blog'' \<lparr>uf_yes = True, uf_keep = False, uf_force = False\<rparr> sample_legacy of
     (r, w') \<Rightarrow> r = Inr () \<and> map_of (hs_fs w') ''/d/blog/notes'' = None \<and> map_of (hs_fs w') ''/d/wiki'' = Some FsDir"
  "case fst (load_config sample_cli_env sample_legacy) of Inl e \<Rightarrow> False
   | Inr cfg \<Rightarrow> known_paths cfg (hs_fs sample_legacy) ''blog''
       \<lparr>ap_name = ''blog'', ap_enabled = 1, ap_settings = Json zero_settings, ap_enabled_at = None\<rparr> = (''/c/blog/docker-compose.yaml'', ''/d/blog'')"
  by code_simp+

lemma uninstall_never_guesses_witness:
  "\<exists>w'. app_uninstall_cmd sample_cli_env ''blog'' \<lparr>uf_yes = True, uf_keep = False, uf_force = False\<rparr> sample_legacy = (Inr (), w') \<and>
     (under (path_clean ''/d/blog'') ''/d/blog/notes'' \<or> ''/d/blog/notes'' = path_clean ''/c/blog/docker-compose.yaml'' \<or>
      ''/d/blog/notes'' = path_clean (path_dir ''/c/blog/docker-compose.yaml''))"
proof -
  let ?fl = "\<lparr>uf_yes = True, uf_keep = False, uf_force = False\<rparr>"
    and ?a = "\<lparr>ap_name = ''blog'', ap_enabled = 1, ap_settings = Json zero_settings, ap_enabled_at = None\<rparr>"
  obtain w' where u: "app_uninstall_cmd sample_cli_env ''blog'' ?fl sample_legacy = (Inr (), w')" "map_of (hs_fs w') ''/d/blog/notes'' = None"
    using sample_legacy_run(1) by (auto split: prod.splits)
  obtain cfg where c: "fst (load_config sample_cli_env sample_legacy) = Inr cfg"
      "known_paths cfg (hs_fs sample_legacy) ''blog'' ?a = (''/c/blog/docker-compose.yaml'', ''/d/blog'')"
    using sample_legacy_run(2) by (auto split: sum.splits)
  have a: "app_by ''blog'' (w_db sample_legacy) = Some ?a" by (simp add: sample_legacy_def app_by_def row_by_Cons)
  have n: "map_of (hs_fs w') ''/d/blog/notes'' \<noteq> map_of (hs_fs sample_legacy) ''/d/blog/notes''"
    using u(2) by (simp add: sample_legacy_def)
  from uninstall_never_guesses [OF u(1) c(1) a c(2) n] u(1) show ?thesis by auto
qed

subsection \<open>The first start\<close>

lemma files_kept_frame: "frame hs_fs m \<Longrightarrow> m w = (r, w') \<Longrightarrow> files_kept w w'"
  by (rule files_kept_refl) (rule frame_pair)

text \<open>Operations that only add files.\<close>

definition adds_only :: "('r host_scheme, 'a) run \<Rightarrow> bool" where
  "adds_only m \<longleftrightarrow> (\<forall>w. files_kept w (snd (m w)))"

lemma adds_only_pair: "adds_only m \<Longrightarrow> m w = (r, w') \<Longrightarrow> files_kept w w'"
  by (metis adds_only_def snd_conv)

lemma adds_only_frame: "frame hs_fs m \<Longrightarrow> adds_only m"
  by (simp add: adds_only_def frame_def files_kept_def)

lemma adds_only_map_error: "adds_only m \<Longrightarrow> adds_only (map_error f m)"
  using adds_only_pair by (fastforce simp: adds_only_def map_error_run split: prod.split sum.split)

lemma adds_only_bindR:
  assumes "adds_only m" "\<And>x. adds_only (k x)"
  shows "adds_only (bindR m k)"
  unfolding adds_only_def
proof
  fix w
  obtain q w1 where q: "m w = (q, w1)" by fastforce
  show "files_kept w (snd (bindR m k w))"
  proof (cases q)
    case (Inl e)
    then show ?thesis using adds_only_pair [OF assms(1) q] q by (simp add: bindR_run)
  next
    case (Inr x)
    have "files_kept w1 (snd (k x w1))" using assms(2) by (simp add: adds_only_def)
    then show ?thesis using adds_only_pair [OF assms(1) q] q Inr files_kept_trans by (auto simp: bindR_run)
  qed
qed

lemma adds_only_if: "(b \<Longrightarrow> adds_only m) \<Longrightarrow> (\<not> b \<Longrightarrow> adds_only m') \<Longrightarrow> adds_only (if b then m else m')"
  by simp

lemma adds_only_files:
  "adds_only (stat_ok p)" "adds_only (write_new p s)" "adds_only (config_write ev p c)"
  unfolding adds_only_def using stat_ok_run new_file_keeps(1) config_write_keeps(1) files_kept_refl by (metis surjective_pairing)+

lemma adds_only_init: "adds_only (init_cmd ce km fl)"
proof -
  have fr: "frame hs_fs (users_create bc n e p b)" "frame hs_fs draw" for bc n e p b
    unfolding users_create_def hash_password_def users_get_def by (intro preserves_intro; simp)+
  have say: "frame hs_fs (say l)" for l by (simp add: frame_def say_def writing_run)
  show ?thesis
    unfolding init_cmd_def say_lines_def generate_signing_key_def generate_crypto_key_def Let_def
    by (intro adds_only_map_error adds_only_bindR adds_only_if adds_only_files; intro adds_only_frame preserves_intro fr say load_frames)
qed

text \<open>What \<^verbatim>\<open>nass init\<close> may do to the database: add the one admin it was asked for.\<close>

definition adds_admin :: "string \<Rightarrow> database \<Rightarrow> database \<Rightarrow> bool" where
  "adds_admin name d d' \<longleftrightarrow> d' = d \<or> (\<exists>row. usr_name row = name \<and> usr_admin row = 1 \<and> usr_id row = db_user_seq d + 1 \<and>
     name \<notin> usr_name ` set (db_users d) \<and>
     d' = d\<lparr>db_user_seq := db_user_seq d + 1, db_users := db_users d @ [row]\<rparr>)"

definition admin_only :: "string \<Rightarrow> ('r world_scheme, 'a) run \<Rightarrow> bool" where
  "admin_only name m \<longleftrightarrow> (\<forall>w. adds_admin name (w_db w) (w_db (snd (m w))))"

lemma admin_only_frame: "frame w_db m \<Longrightarrow> admin_only name m"
  by (simp add: admin_only_def adds_admin_def frame_def)

lemma admin_only_before:
  assumes "frame w_db m" "\<And>x. admin_only name (k x)"
  shows "admin_only name (bindR m k)"
  unfolding admin_only_def
proof
  fix w
  obtain q w1 where q: "m w = (q, w1)" by fastforce
  have "w_db w1 = w_db w" using frame_pair [OF assms(1) q] .
  then show "adds_admin name (w_db w) (w_db (snd (bindR m k w)))"
  proof (cases q)
    case (Inl e)
    then show ?thesis using q \<open>w_db w1 = w_db w\<close> by (simp add: bindR_run adds_admin_def)
  next
    case (Inr x)
    have "adds_admin name (w_db w1) (w_db (snd (k x w1)))" using assms(2) by (simp add: admin_only_def)
    then show ?thesis using q Inr \<open>w_db w1 = w_db w\<close> by (simp add: bindR_run)
  qed
qed

lemma admin_only_after:
  assumes "admin_only name m" "\<And>x. frame w_db (k x)"
  shows "admin_only name (bindR m k)"
  unfolding admin_only_def
proof
  fix w
  obtain q w1 where q: "m w = (q, w1)" by fastforce
  have "w_db (snd (bindR m k w)) = w_db w1"
    using q assms(2) by (cases q) (auto simp: bindR_run frame_def)
  then show "adds_admin name (w_db w) (w_db (snd (bindR m k w)))"
    using assms(1) q by (auto simp: admin_only_def dest!: spec [of _ w])
qed

lemma admin_only_map_error: "admin_only name m \<Longrightarrow> admin_only name (map_error f m)"
  by (auto simp: admin_only_def map_error_run split: prod.split sum.split) (metis snd_conv)+

lemma ins_user_adds:
  assumes "ins_user x em h 1 t d = Inr (i, d')"
  shows "adds_admin x d d'"
proof -
  let ?row = "\<lparr>usr_id = db_user_seq d + 1, usr_name = x, usr_email = em, usr_hash = h, usr_admin = 1,
    usr_created = t, usr_updated = t\<rparr>"
  have "x \<notin> usr_name ` set (db_users d)" "d' = d\<lparr>db_user_seq := db_user_seq d + 1, db_users := db_users d @ [?row]\<rparr>"
    using assms by (auto simp: ins_user_def Let_def split: if_splits)
  then show ?thesis unfolding adds_admin_def by (intro disjI2 exI [of _ ?row]) simp
qed

lemma admin_only_insert: "admin_only x (exec (ins_user x em h (bool_int True) t))"
  unfolding admin_only_def
proof
  fix w
  obtain q w1 where q: "exec (ins_user x em h (bool_int True) t) w = (q, w1)" by fastforce
  then show "adds_admin x (w_db w) (w_db (snd (exec (ins_user x em h (bool_int True) t) w)))"
    by (cases q) (auto simp: bool_int_def adds_admin_def [of _ "w_db w" "w_db w"] dest!: exec_InlD exec_InrD intro: ins_user_adds)
qed

lemma admin_only_create: "admin_only (trim_space n) (users_create bc n e p True)"
proof -
  have users: "frame w_db (users_get i)" "frame w_db (hash_password bc p)" for i by (rule frame_users_read)+
  have no: "admin_only x (throw y)" for x y by (intro admin_only_frame preserves_intro)
  have now: "frame w_db now" by (intro preserves_intro)
  have tail: "admin_only (trim_space n) (bindR now (\<lambda>t. bindR (map_error f (exec (ins_user (trim_space n) em h (bool_int True) t)))
      users_get))" for f em h
    by (intro admin_only_before [OF now] admin_only_after admin_only_map_error admin_only_insert users)
  show ?thesis
    unfolding users_create_def Let_def by (simp add: no admin_only_before [OF users(2)] tail)
qed

lemma init_frames_db:
  "frame w_db (stat_ok p)" "frame w_db (write_new p s)" "frame w_db (config_write ev p c)" "frame w_db (config_load ev p)"
  "frame w_db (generate_signing_key km p)" "frame w_db (generate_crypto_key p)"
proof -
  show st: "frame w_db (stat_ok q)" for q unfolding stat_ok_def by (intro preserves_intro)
  show wr: "frame w_db (write_new q x)" for q x
    unfolding write_new_def create_excl_def fill_file_def
    by (intro preserves_intro) (auto simp: frame_def Let_def writing_run)
  show "frame w_db (config_write ev p c)" unfolding config_write_def by (intro preserves_intro st wr)
  show "frame w_db (config_load ev p)" unfolding config_load_def by (intro preserves_intro)
  show "frame w_db (generate_signing_key km p)" "frame w_db (generate_crypto_key p)"
    unfolding generate_signing_key_def generate_crypto_key_def by ((intro preserves_intro st wr; simp)+)
qed

lemma admin_only_init: "admin_only (trim_space (nf_user fl)) (init_cmd ce km fl)"
proof -
  have say: "frame w_db (say_lines ls)" for ls
    unfolding say_lines_def say_def by (intro preserves_intro) (simp add: frame_def writing_run)
  have no: "frame w_db (throw x)" for x by (intro preserves_intro)
  note fr = init_frames_db load_frames say no
  have create: "admin_only (trim_space (nf_user fl)) (bindR (db_open (cd_path (cf_db cfg))) (\<lambda>_.
        bindR (map_error (Wrap ''create admin'') (users_create (ce_bcrypt ce) (nf_user fl) (nf_email fl) (nf_password fl) True)) (\<lambda>u.
        say_lines (ls u))))" for cfg and ls
    by (intro admin_only_before admin_only_after admin_only_map_error admin_only_create fr)
  show ?thesis
    unfolding init_cmd_def Let_def
    by (auto intro!: admin_only_before create fr frame_map_error simp: admin_only_frame no)
qed

text \<open>C38: \<^verbatim>\<open>nass init\<close> never overwrites: whatever fails on the way, every file and directory of the host is there
  afterwards with the same content, and the rows of a database that was already there stay, to which
  at most one is added, the admin named by the flags, whose name was not taken; and if the
  configuration file was there (and no disk error hides it), the command fails and changes nothing at
  all. (The database is not among the files here: SQLite writes its file when the admin
  is added, and opening an older one first brings its schema up to date, which \<^verbatim>\<open>Db_Migrate\<close>
  describes.)\<close>

theorem init_never_overwrites:
  assumes "init_cmd ce km fl w = (r, w')"
  shows "files_kept w w' \<and> adds_admin (trim_space (nf_user fl)) (w_db w) (w_db w') \<and>
    (hs_disk_faults w = [] \<longrightarrow> map_of (hs_fs w) (path_clean (os_path (environment.truncate ce) (ce_config ce))) \<noteq> None \<longrightarrow>
       r \<noteq> Inr () \<and> w' = w)"
proof -
  have "r \<noteq> Inr () \<and> w' = w" if "hs_disk_faults w = []"
      "map_of (hs_fs w) (path_clean (os_path (environment.truncate ce) (ce_config ce))) \<noteq> None"
  proof -
    have "stat_ok (os_path (environment.truncate ce) (ce_config ce)) w = (Inr True, w)"
      using that by (simp add: stat_ok_def file_exists_def run_simps run_eval)
    then show ?thesis using assms by (auto simp: init_cmd_def Let_def bindR_run throw_run split: if_splits)
  qed
  moreover have "adds_admin (trim_space (nf_user fl)) (w_db w) (w_db w')"
    using admin_only_init [of fl ce km] assms by (metis admin_only_def snd_conv)
  ultimately show ?thesis using adds_only_pair [OF adds_only_init assms] by blast
qed

definition sample_makers :: key_makers where
  "sample_makers = \<lparr>km_rsa = (\<lambda>x. Inr (RsaKey x)), km_pkcs8 = (\<lambda>k. case k of RsaKey x \<Rightarrow> Inr x | _ \<Rightarrow> Inl RandFault), km_pem = id\<rparr>"

definition sample_init :: init_flags where
  "sample_init = \<lparr>nf_base_host = ''nas.ex'', nf_user = ''ana'', nf_email = [], nf_password = ''password1'', nf_cert = [], nf_key = []\<rparr>"

lemma init_never_overwrites_witness:
  "fst (init_cmd sample_cli_env sample_makers sample_init sample_legacy) \<noteq> Inr () \<and>
   snd (init_cmd sample_cli_env sample_makers sample_init sample_legacy) = sample_legacy"
proof -
  have "\<not> (map_of (hs_fs sample_legacy) (path_clean (os_path (environment.truncate sample_cli_env) (ce_config sample_cli_env))) = None)"
    by code_simp
  moreover have "hs_disk_faults sample_legacy = []" by (simp add: sample_legacy_def)
  ultimately show ?thesis
    using init_never_overwrites [of sample_cli_env sample_makers sample_init sample_legacy] by (metis prod.collapse)
qed

text \<open>What a load reads is in the file: where the file is the same and no read fails, it gives the same configuration.\<close>

lemma read_file_Inr: "read_file p w = (Inr s, w') \<Longrightarrow> map_of (hs_fs w) (path_clean p) = Some (FsFile s)"
proof -
  assume "read_file p w = (Inr s, w')"
  then obtain u where u: "disk_fault w = (Inr (), u)"
    and c: "(case map_of (hs_fs u) (path_clean p) of
       None \<Rightarrow> (Inl ErrNotExist, u)
     | Some FsDir \<Rightarrow> (Inl (Msg (''read '' @ p @ '': is a directory'')), u)
     | Some (FsFile s) \<Rightarrow> (Inr s, u)) = (Inr s, w')"
    unfolding read_file_def bindR_Inr_iff by auto
  have "map_of (hs_fs u) (path_clean p) = Some (FsFile s)"
  proof (cases "map_of (hs_fs u) (path_clean p)")
    case (Some n)
    then show ?thesis using c by (cases n) simp_all
  qed (use c in simp)
  then show ?thesis using frame_pair [OF frame_disk_fault_fs u] by simp
qed

lemma config_load_again:
  assumes "config_load ev path w = (Inr c, w')"
    and "map_of (hs_fs v) (path_clean (os_path ev path)) = map_of (hs_fs w) (path_clean (os_path ev path))" "hs_disk_faults v = []"
  shows "config_load ev path v = (Inr c, v)"
proof -
  obtain body c0 where r: "read_file (os_path ev path) w = (Inr body, w')" "ev_decode ev body default_config = Inr c0"
    and rest: "\<exists>c1. resolve_paths ev (c0\<lparr>cf_path := path\<rparr>) = Inr c1 \<and> validate_config c1 = Inr () \<and> c = derive_issuer c1"
    using assms(1) by (auto simp: config_load_def bindR_Inr_iff lift_result_run ret_run)
  then have "read_file (os_path ev path) v = (Inr body, v)"
    using read_file_Inr [OF r(1)] assms(2,3) by (simp add: read_file_def run_simps run_eval)
  then show ?thesis using r(2) rest
    by (auto simp: config_load_def run_simps run_eval)
qed

lemma generated_keys:
  assumes "map_of (hs_fs w) (path_clean p) = None"
  shows "generate_signing_key km p w = (Inr u, w') \<Longrightarrow> \<exists>x priv der. km_rsa km x = Inr priv \<and> km_pkcs8 km priv = Inr der \<and>
      map_of (hs_fs w') (path_clean p) = Some (FsFile (km_pem km der))"
    and "generate_crypto_key p w = (Inr u, w') \<Longrightarrow> \<exists>k. length k = 32 \<and> map_of (hs_fs w') (path_clean p) = Some (FsFile k)"
proof -
  have no: "\<not> b" if "stat_ok p w = (Inr b, w1)" for b w1 using stat_ok_value [OF that] assms by auto
  show "\<exists>x priv der. km_rsa km x = Inr priv \<and> km_pkcs8 km priv = Inr der \<and>
      map_of (hs_fs w') (path_clean p) = Some (FsFile (km_pem km der))" if g: "generate_signing_key km p w = (Inr u, w')"
  proof -
    obtain b w1 where b: "stat_ok p w = (Inr b, w1)" using g by (auto simp: generate_signing_key_def bindR_Inr_iff)
    with g no [OF b] have "\<exists>x priv der w3. km_rsa km x = Inr priv \<and> km_pkcs8 km priv = Inr der \<and>
        write_new p (km_pem km der) w3 = (Inr u, w')"
      unfolding generate_signing_key_def by (auto simp: bindR_run lift_result_run split: prod.splits sum.splits if_splits)
    then show ?thesis using new_file_keeps(2) by blast
  qed
  show "\<exists>k. length k = 32 \<and> map_of (hs_fs w') (path_clean p) = Some (FsFile k)" if g: "generate_crypto_key p w = (Inr u, w')"
  proof -
    obtain b w1 where b: "stat_ok p w = (Inr b, w1)" using g by (auto simp: generate_crypto_key_def bindR_Inr_iff)
    with g no [OF b] have "\<exists>x w3. write_new p (fill_buffer 32 x) w3 = (Inr u, w')"
      unfolding generate_crypto_key_def by (auto simp: bindR_run split: prod.splits sum.splits if_splits)
    moreover have "length (fill_buffer 32 x) = 32" for x by (simp add: fill_buffer_def)
    ultimately show ?thesis using new_file_keeps(2) by blast
  qed
qed

end
