(* ===== verification/Spec2Isabelle.thy ===== *)
theory Spec2Isabelle
  imports Proxy_Manager Portal_Login Oidc_Flows App_Modules App_Qbittorrent App_Jellyfin App_Uninstall App_Wait App_Hooks Portal_Steps Db_Migrate Front_Door Cli_Effects
begin

text \<open>
  nass puts self-hosted apps behind one front door: a reverse proxy that routes by host name, a portal with
  users and sessions, an OpenID Connect provider, and an installer that runs apps with docker compose. This
  development is a model of its Go sources (\<^verbatim>\<open>src/internal\<close>) as functions and transition systems, with
  proofs of what the parts promise and of what the running process guarantees.

  \<^bold>\<open>How the program works.\<close> \<^verbatim>\<open>nass serve\<close> loads the configuration, opens the database, builds the portal and the
  OIDC provider, reserves their two hosts and starts a route manager, which keeps the live routes in step
  with the table of apps. A request first loses the identity headers a client may have sent; then its host
  decides: the portal, the provider, or the reverse proxy of an app, behind the gate (a session check that
  sets the identity headers) if the app asks for it. The portal shares its session cookie with all subdomains; the
  gate and the provider send a visitor without a session to the portal's login, which sends them back.
  Administrators install and remove apps in jobs of the background. The commands of the command line work on the
  same database and files while the process runs.

  \<^bold>\<open>How code becomes model.\<close> Go code that may fail is an operation \<open>('w, 'a) run\<close>: from a world to an error or a value, and
  the world afterwards. The world is a record that grows with the parts: \<open>world\<close> (database, failures of statements to
  come, clock, entropy), \<open>host\<close> (files, commands, ports, network), \<open>portal\<close> (throttle, jobs), \<open>admin_state\<close> (tasks, job
  log), \<open>serve_state\<close> (routes). Whatever the surroundings may do is in the world as a list of outcomes to
  come: \<open>w_faults\<close>, \<open>hs_disk_faults\<close>, \<open>hs_outs\<close>, \<open>hs_net\<close>; theorems hold for all of them, so error paths are covered. A
  Go struct is a record, an enumeration a datatype, a table a list of row records with its constraints in the
  statements (\<open>Nass_Db\<close>), a Go map that is iterated a list in the order of the iteration. Go strings are lists of bytes.
  Code outside the repository is a parameter: bcrypt, the TOML library, the protocol library behind the OIDC
  provider, PEM and PKCS 8, the reader of zip archives, what a migration does to the tables, \<open>netip.ParseAddr\<close>, and the removal of
  hop-by-hop headers.

  \<^bold>\<open>The theories.\<close>
  \<^item> Go's library: \<open>Go_Strings\<close>, \<open>Go_Http\<close>, \<open>Go_Url\<close>, \<open>Go_Path\<close>, \<open>Go_Json\<close>, with the laws the components need.
  \<^item> The ground: \<open>Nass_Prelude\<close> (errors, operations, lookups in keyed lists, the collections \<open>run_simps\<close>, \<open>run_eval\<close>,
    \<open>preserves_intro\<close>, \<open>row_simps\<close>), \<open>Nass_Db\<close> and \<open>Nass_World\<close> (schema, statements, transactions, the invariant \<open>db_ok\<close>),
    \<open>Nass_Stores\<close> (the locales of keyed and token stores, interpreted for the tables), \<open>Host_World\<close>.
  \<^item> Users and sign-in: \<open>Auth_Users\<close> (\<^verbatim>\<open>auth/users.go\<close>), \<open>Login_Throttle\<close> (\<^verbatim>\<open>auth/throttle.go\<close>, and the two calls that the login
    forms make on it, interleaved), \<open>Portal_Sessions\<close>, \<open>Portal_Gate\<close>, \<open>Portal_Login\<close> (\<^verbatim>\<open>portal/session.go\<close>, \<^verbatim>\<open>gate.go\<close>, \<^verbatim>\<open>login.go\<close>, \<^verbatim>\<open>portal.go\<close>).
  \<^item> The OIDC provider: \<open>Oidc_Clients\<close>, \<open>Oidc_Storage\<close>, \<open>Oidc_Flows\<close>, \<open>Oidc_Login\<close> (\<^verbatim>\<open>auth/oidc\<close>).
  \<^item> The proxy: \<open>Proxy_Server\<close> (\<^verbatim>\<open>proxy.go\<close>, \<^verbatim>\<open>reverse.go\<close>, \<^verbatim>\<open>security.go\<close>, \<^verbatim>\<open>tls.go\<close>), \<open>Proxy_Manager\<close> (\<^verbatim>\<open>apps.go\<close>, \<^verbatim>\<open>manager.go\<close>).
  \<^item> Apps: \<open>Orchestrator\<close>, \<open>App_Registry\<close> (\<^verbatim>\<open>app.go\<close>, \<^verbatim>\<open>ports.go\<close>), \<open>App_Install\<close> and \<open>App_Wait\<close> (\<^verbatim>\<open>install.go\<close>), \<open>App_Uninstall\<close>,
    \<open>App_Modules\<close>, \<open>App_Qbittorrent\<close>, \<open>App_Jellyfin\<close> (\<^verbatim>\<open>apps/*/\<close>), \<open>App_Hooks\<close> (the registry and what its hooks leave alone).
  \<^item> The portal: \<open>Portal_Dashboard\<close>, \<open>Portal_Admin\<close> (handlers, jobs, routes), \<open>Host_View\<close> (frames), \<open>Portal_Steps\<close> (the portal as
    a transition system).
  \<^item> The program: \<open>Nass_Config\<close>, \<open>Db_Migrate\<close>, \<open>Cli_Commands\<close>, \<open>Cli_Effects\<close> (\<^verbatim>\<open>config\<close>, \<^verbatim>\<open>db\<close>, \<^verbatim>\<open>cli\<close>), \<open>Serve_Process\<close> (\<^verbatim>\<open>cli/serve.go\<close>) and
    \<open>Front_Door\<close> (what the running process guarantees).

  \<^bold>\<open>Interfaces.\<close> \<open>keyed_store\<close> and \<open>token_store\<close> (tables), \<open>attempt_limiter\<close> (what the login forms need of the throttle),
  \<open>session_source\<close> (what the gate needs of the sessions), \<open>host_router\<close> (what the route manager needs of the server),
  \<open>portal_contract\<close> (what the provider needs of the portal), \<open>host_view\<close>, \<open>portal_view\<close> and \<open>hook_view\<close> (observations that
  operations leave alone) are locales, each interpreted on the model of the code that provides it.

  \<^bold>\<open>What is shown.\<close>
  \<^item> The process: in every state reachable from a start, under any order of requests, jobs, synchronisations and
    changes by other processes, nass's hosts stay with nass, an app is reached only at its own host, behind the gate
    only with a valid session and under that session's name; an app enabled on the command line is served after
    the next synchronisation.
  \<^item> Sign-in: sessions only for who knows the password; a password change ends sessions and tokens; redirects stay
    home; the way from the gate or the provider through the login and back; the throttle against its
    specification, and the bound on guesses when logins run side by side.
  \<^item> Tokens: codes, rotation, introspection, revocation, purge.
  \<^item> Routes: a synchronisation makes the live routes what the table says, and no row is lost silently.
  \<^item> Apps: installation, waiting, removal, archives, configuration patching, and that the shipped hooks keep out of
    nass itself.
  \<^item> Operation: there is always an administrator as long as handlers do not interleave, the job list is accounted for,
    only administrators reach the admin routes, migrations and recorded versions agree, a configuration survives
    writing and reading, \<^verbatim>\<open>nass init\<close> overwrites nothing.
  \<^item> Defects are theorems too: a portal on a subdomain breaks single sign-on (\<open>portal_subdomain_breaks_login\<close>), codes survive a
    password change (\<open>code_survives_password_change\<close>), docker's missing socket deletes data (\<open>socket_error_deletes_data\<close>), a
    burst of logins beats the cap (\<open>burst_beats_cap\<close>), two demotions at once leave no administrator
    (\<open>concurrent_demotion\<close>), a cookie with a blank before its equals sign reaches the backend
    (\<open>spaced_cookie_reaches_backend\<close>).

  \<^bold>\<open>Bounds and fuel.\<close> Loops are structural recursion or have a measure. The wait loops of the installer poll a context that has
  \<open>hs_polls\<close> polls left; their fuel is that number plus one (\<open>wait_budget\<close>), which \<open>poll_loop_ends\<close> shows to be enough.
  That a deadline in time gives such a number is shown in \<open>App_Wait\<close>, where the same loop runs on the clock. Without a deadline the
  fuel is the number of outcomes still to come; running out of it is the error \<open>diverges\<close>.

  \<^bold>\<open>Concurrency.\<close> A handler and a job are one step each, so the results about reachable states are about handlers that do
  not interleave with each other; the two places where interleaving matters are modelled on their own: the
  throttle (\<open>form_step\<close>) and the check for the last administrator (\<open>concurrent_demotion\<close>). Jobs, synchronisations and other
  processes interleave with handlers.

  \<^bold>\<open>Not modelled.\<close> \<^verbatim>\<open>cmd/nass\<close> (it prints the error of the command), the HTML templates, parsing of flags and layout
  of tables, listeners, signals, timeouts and TLS of \<^verbatim>\<open>net/http\<close>, websockets and the body of proxied requests. Of
  \<^verbatim>\<open>text/template\<close> there are the field actions that the compose files use. SQLite compares stored times as text: the model
  compares instants, which is the same for times written in UTC (\<open>sql_now\<close> accounts for the missing fraction
  of \<^verbatim>\<open>CURRENT_TIMESTAMP\<close>); rows that an older version wrote in local time are not represented. The database file is not
  a file of \<open>hs_fs\<close>; there are no symbolic links. A query in a backend's own URL is not represented. Case mapping and white
  space are those of ASCII.
\<close>

end
